(* ===== verification/Prelude.thy ===== *)
theory Prelude
  imports Main "HOL-Library.State_Monad" "HOL-Library.Multiset"
begin

text \<open>
  Shared notions of the development. The program's Go functions that touch the database are
  state transformers of type \<open>('s, 'a) state\<close>; a Go result pair \<open>(x, err)\<close> is a value of
  the sum type \<open>go_error + 'a\<close>. This theory holds the error values, the loops the code uses
  (stop at the first error, collect the results, ignore the errors), the iteration order of a
  Go map, and the rules that carry an invariant through a computation (collection \<open>keeps\<close>).
\<close>

section \<open>Errors as values\<close>

text \<open>What the database driver reports: a missing row, a violated constraint (with the name of
  the constraint), or any other failure with the driver's text for it.\<close>

datatype db_error =
    No_Rows
  | Unique_Violation string
  | Foreign_Key_Violation string
  | Not_Null_Violation string
  | Driver_Fault string

text \<open>A Go error is a driver error, a text made by \<open>fmt.Errorf("...")\<close>, or an error wrapped
  by \<open>fmt.Errorf("...: %w", err)\<close>.\<close>

datatype go_error =
    Driver db_error
  | Msg string
  | Errorf string go_error

text \<open>The method \<open>Error()\<close>: the text of a driver error is the driver's, a parameter.\<close>

fun error_text :: "(db_error \<Rightarrow> string) \<Rightarrow> go_error \<Rightarrow> string" where
  "error_text drv (Driver d) = drv d"
| "error_text drv (Msg m) = m"
| "error_text drv (Errorf m e) = m @ '': '' @ error_text drv e"

type_synonym 'a result = "go_error + 'a"

section \<open>Wrapping and loops\<close>

definition wrapf :: "string \<Rightarrow> ('s, 'a result) state \<Rightarrow> ('s, 'a result) state" where
  "wrapf msg m = do {
     r \<leftarrow> m;
     State_Monad.return (case r of Inl e \<Rightarrow> Inl (Errorf msg e) | Inr x \<Rightarrow> Inr x)
   }"

text \<open>\<open>for _, x := range xs { if err := f(x); err != nil { return err } }\<close>\<close>

fun for_each :: "('a \<Rightarrow> ('s, unit result) state) \<Rightarrow> 'a list \<Rightarrow> ('s, unit result) state" where
  "for_each f [] = State_Monad.return (Inr ())"
| "for_each f (x # xs) = do {
     r \<leftarrow> f x;
     case r of Inl e \<Rightarrow> State_Monad.return (Inl e) | Inr _ \<Rightarrow> for_each f xs
   }"

text \<open>The same loop where every round yields a value that is appended to a slice.\<close>

fun map_each :: "('a \<Rightarrow> ('s, 'b result) state) \<Rightarrow> 'a list \<Rightarrow> ('s, 'b list result) state" where
  "map_each f [] = State_Monad.return (Inr [])"
| "map_each f (x # xs) = do {
     r \<leftarrow> f x;
     case r of
       Inl e \<Rightarrow> State_Monad.return (Inl e)
     | Inr y \<Rightarrow> do {
         rs \<leftarrow> map_each f xs;
         State_Monad.return (case rs of Inl e \<Rightarrow> Inl e | Inr ys \<Rightarrow> Inr (y # ys))
       }
   }"

text \<open>A loop whose body's result is thrown away.\<close>

fun do_each :: "('a \<Rightarrow> ('s, 'b) state) \<Rightarrow> 'a list \<Rightarrow> ('s, unit) state" where
  "do_each f [] = State_Monad.return ()"
| "do_each f (x # xs) = do { _ \<leftarrow> f x; do_each f xs }"

text \<open>A loop that cannot fail and fills a slice of the same length.\<close>

fun map_state :: "('a \<Rightarrow> ('s, 'b) state) \<Rightarrow> 'a list \<Rightarrow> ('s, 'b list) state" where
  "map_state f [] = State_Monad.return []"
| "map_state f (x # xs) = do { y \<leftarrow> f x; ys \<leftarrow> map_state f xs; State_Monad.return (y # ys) }"

lemma run_map_state_reads:
  assumes "\<And>x. x \<in> set xs \<Longrightarrow> run_state (f x) s = (g x, s)"
  shows "run_state (map_state f xs) s = (map g xs, s)"
  using assms by (induction xs) auto

section \<open>Go maps\<close>

text \<open>
  A Go map is an association list without duplicate keys. Where the code ranges over a map, it
  visits the entries in an order the language leaves open: \<open>range_order it\<close> visits \<open>n\<close> entries
  in the order of the index list \<open>it n\<close>. The only fact used about \<open>it\<close> is that \<open>it n\<close> is a
  permutation of \<open>0, ..., n - 1\<close>.
\<close>

type_synonym ('k, 'v) go_map = "('k \<times> 'v) list"

type_synonym iteration = "nat \<Rightarrow> nat list"

definition iteration_ok :: "iteration \<Rightarrow> bool" where
  "iteration_ok it \<longleftrightarrow> (\<forall>n. mset (it n) = mset [0..<n])"

definition range_order :: "iteration \<Rightarrow> 'a list \<Rightarrow> 'a list" where
  "range_order it xs = map (\<lambda>i. xs ! i) (it (length xs))"

lemma mset_range_order [simp]: "iteration_ok it \<Longrightarrow> mset (range_order it xs) = mset xs"
proof -
  assume "iteration_ok it"
  then have "mset (it (length xs)) = mset [0..<length xs]"
    by (simp add: iteration_ok_def)
  then have "mset (range_order it xs) = image_mset (\<lambda>i. xs ! i) (mset [0..<length xs])"
    by (simp add: range_order_def)
  also have "\<dots> = mset (map (\<lambda>i. xs ! i) [0..<length xs])"
    by (simp only: mset_map)
  finally show ?thesis
    by (simp only: map_nth)
qed

lemma set_range_order [simp]: "iteration_ok it \<Longrightarrow> set (range_order it xs) = set xs"
  by (metis mset_range_order set_mset_mset)

lemma distinct_range_order [simp]:
  "iteration_ok it \<Longrightarrow> distinct (range_order it xs) = distinct xs"
  by (metis mset_range_order mset_eq_imp_distinct_iff)

text \<open>\<open>m[k] = v\<close> and \<open>delete(m, k)\<close>.\<close>

fun map_put :: "'k \<Rightarrow> 'v \<Rightarrow> ('k, 'v) go_map \<Rightarrow> ('k, 'v) go_map" where
  "map_put k v [] = [(k, v)]"
| "map_put k v ((k', v') # m) = (if k' = k then (k, v) # m else (k', v') # map_put k v m)"

definition map_delete :: "'k \<Rightarrow> ('k, 'v) go_map \<Rightarrow> ('k, 'v) go_map" where
  "map_delete k m = filter (\<lambda>(k', v). k' \<noteq> k) m"

text \<open>Reading a missing key of a \<open>map[K]bool\<close> gives \<open>false\<close>.\<close>

definition map_flag :: "('k, bool) go_map \<Rightarrow> 'k \<Rightarrow> bool" where
  "map_flag m k = (case map_of m k of None \<Rightarrow> False | Some b \<Rightarrow> b)"

lemma map_of_map_put [simp]: "map_of (map_put k v m) = (map_of m)(k \<mapsto> v)"
  by (induction m rule: map_put.induct) auto

lemma keys_map_put: "set (map fst (map_put k v m)) = insert k (set (map fst m))"
  by (induction k v m rule: map_put.induct) auto

lemma distinct_map_put [intro]: "distinct (map fst m) \<Longrightarrow> distinct (map fst (map_put k v m))"
  by (induction k v m rule: map_put.induct) (auto simp: keys_map_put simp del: set_map)

lemma map_put_new: "k \<notin> fst ` set m \<Longrightarrow> map_put k v m = m @ [(k, v)]"
  by (induction k v m rule: map_put.induct) auto

lemma map_of_map_delete [simp]: "map_of (map_delete k m) k' = (if k' = k then None else map_of m k')"
  by (induction m) (auto simp: map_delete_def)

lemma keys_map_delete: "set (map fst (map_delete k m)) = set (map fst m) - {k}"
  by (auto simp: map_delete_def)

section \<open>Invariants carried through a computation\<close>

definition keeps :: "('s \<Rightarrow> bool) \<Rightarrow> ('s, 'a) state \<Rightarrow> bool" where
  "keeps I m \<longleftrightarrow> (\<forall>s. I s \<longrightarrow> I (snd (run_state m s)))"

named_theorems keeps_rules \<open>rules that carry an invariant through a computation\<close>

lemma keepsD: "keeps I m \<Longrightarrow> I s \<Longrightarrow> I (snd (run_state m s))"
  by (simp add: keeps_def)

lemma keeps_run: "keeps I m \<Longrightarrow> I s \<Longrightarrow> run_state m s = (r, s') \<Longrightarrow> I s'"
  by (metis keepsD snd_conv)

lemma keeps_return [keeps_rules]: "keeps I (State_Monad.return x)"
  by (simp add: keeps_def)

lemma keeps_get [keeps_rules]: "keeps I State_Monad.get"
  by (simp add: keeps_def)

lemma keeps_bind [keeps_rules]:
  assumes "keeps I m" and "\<And>x. keeps I (f x)"
  shows "keeps I (m \<bind> f)"
  using assms by (simp add: keeps_def split: prod.splits) (metis snd_conv)

lemma keeps_case_sum [keeps_rules]:
  "(\<And>e. r = Inl e \<Longrightarrow> keeps I (f e)) \<Longrightarrow> (\<And>x. r = Inr x \<Longrightarrow> keeps I (g x))
   \<Longrightarrow> keeps I (case r of Inl e \<Rightarrow> f e | Inr x \<Rightarrow> g x)"
  by (cases r) auto

lemma keeps_case_option [keeps_rules]:
  "keeps I m \<Longrightarrow> (\<And>x. r = Some x \<Longrightarrow> keeps I (g x)) \<Longrightarrow> keeps I (case r of None \<Rightarrow> m | Some x \<Rightarrow> g x)"
  by (cases r) auto

lemma keeps_if [keeps_rules]:
  "(b \<Longrightarrow> keeps I m) \<Longrightarrow> (\<not> b \<Longrightarrow> keeps I n) \<Longrightarrow> keeps I (if b then m else n)"
  by auto

lemma keeps_let [keeps_rules]: "(\<And>x. x = t \<Longrightarrow> keeps I (f x)) \<Longrightarrow> keeps I (let x = t in f x)"
  by (simp add: Let_def)

lemma keeps_wrapf [keeps_rules]: "keeps I m \<Longrightarrow> keeps I (wrapf msg m)"
  by (auto simp: wrapf_def intro: keeps_rules)

lemma keeps_for_each [keeps_rules]:
  "(\<And>x. x \<in> set xs \<Longrightarrow> keeps I (f x)) \<Longrightarrow> keeps I (for_each f xs)"
  by (induction xs) (auto intro!: keeps_rules)

lemma keeps_map_each [keeps_rules]:
  "(\<And>x. x \<in> set xs \<Longrightarrow> keeps I (f x)) \<Longrightarrow> keeps I (map_each f xs)"
  by (induction xs) (auto intro!: keeps_rules)

lemma keeps_do_each [keeps_rules]:
  "(\<And>x. x \<in> set xs \<Longrightarrow> keeps I (f x)) \<Longrightarrow> keeps I (do_each f xs)"
  by (induction xs) (auto intro!: keeps_rules)

lemma keeps_map_state [keeps_rules]:
  "(\<And>x. x \<in> set xs \<Longrightarrow> keeps I (f x)) \<Longrightarrow> keeps I (map_state f xs)"
  by (induction xs) (auto intro!: keeps_rules)

section \<open>Rows of a table\<close>

text \<open>\<open>UPDATE ... SET ... WHERE p\<close> on a list of rows.\<close>

definition update_where :: "('r \<Rightarrow> bool) \<Rightarrow> ('r \<Rightarrow> 'r) \<Rightarrow> 'r list \<Rightarrow> 'r list" where
  "update_where p f xs = map (\<lambda>x. if p x then f x else x) xs"

lemma set_update_where:
  "set (update_where p f xs) = {x \<in> set xs. \<not> p x} \<union> f ` {x \<in> set xs. p x}"
  by (auto simp: update_where_def)

lemma map_update_where:
  "(\<And>x. x \<in> set xs \<Longrightarrow> p x \<Longrightarrow> k (f x) = k x) \<Longrightarrow> map k (update_where p f xs) = map k xs"
  by (auto simp: update_where_def)

lemma distinct_map_update_where:
  assumes "distinct (map k xs)" and "distinct (map j xs)"
    and "\<And>x. x \<in> set xs \<Longrightarrow> k x \<noteq> i \<Longrightarrow> j x \<noteq> j r"
  shows "distinct (map j (update_where (\<lambda>x. k x = i) (\<lambda>_. r) xs))"
  using assms
proof (induction xs)
  case Nil
  then show ?case by (simp add: update_where_def)
next
  case (Cons x xs)
  have tl: "map j (update_where (\<lambda>x. k x = i) (\<lambda>_. r) xs) = map j xs" if "k x = i"
    using Cons.prems(1) that by (auto simp: update_where_def rev_image_eqI)
  show ?case
  proof (cases "k x = i")
    case True
    then have notin: "k y \<noteq> i" if "y \<in> set xs" for y
      using Cons.prems(1) that by (metis distinct.simps(2) image_eqI list.simps(9) set_map)
    then have "j r \<notin> j ` set xs"
      using Cons.prems(3) by fastforce
    then show ?thesis
      using True Cons.prems(2) tl by (simp add: update_where_def del: map_map map_eq_conv)
  next
    case False
    then have "j x \<notin> set (map j (update_where (\<lambda>x. k x = i) (\<lambda>_. r) xs))"
      using Cons.prems(2) Cons.prems(3) [of x]
      by (auto simp: update_where_def split: if_splits)
    then show ?thesis
      using False Cons by (simp add: update_where_def)
  qed
qed

lemma find_update_where_same:
  assumes "i \<in> k ` set xs" and "k r = i"
  shows "List.find (\<lambda>x. k x = i) (update_where (\<lambda>x. k x = i) (\<lambda>_. r) xs) = Some r"
  using assms by (induction xs) (auto simp: update_where_def)

lemma find_update_where_other:
  assumes "\<And>x. k (f x) = i" and "j \<noteq> i"
  shows "List.find (\<lambda>x. k x = j) (update_where (\<lambda>x. k x = i) f xs) = List.find (\<lambda>x. k x = j) xs"
  using assms by (induction xs) (auto simp: update_where_def)

lemma find_append [simp]:
  "List.find p (xs @ ys) = (case List.find p xs of None \<Rightarrow> List.find p ys | Some x \<Rightarrow> Some x)"
  by (induction xs) auto

lemma find_key_None: "List.find (\<lambda>x. k x = i) xs = None \<longleftrightarrow> i \<notin> k ` set xs"
  by (auto simp: find_None_iff)

lemma find_key_Some:
  "distinct (map k xs) \<Longrightarrow> List.find (\<lambda>x. k x = i) xs = Some r \<longleftrightarrow> r \<in> set xs \<and> k r = i"
  by (induction xs) (auto simp: rev_image_eqI)

lemma filter_key_singleton:
  "distinct (map k xs) \<Longrightarrow> r \<in> set xs \<Longrightarrow> k r = i \<Longrightarrow> filter (\<lambda>x. k x = i) xs = [r]"
  by (induction xs) (auto simp: filter_empty_conv rev_image_eqI)

lemma distinct_map_filter_any: "distinct (map k xs) \<Longrightarrow> distinct (map k (filter p xs))"
  by (induction xs) auto

text \<open>\<open>ORDER BY\<close> with the database's collation \<open>le\<close>, a stable insertion sort.\<close>

fun insert_by :: "('a \<Rightarrow> 'a \<Rightarrow> bool) \<Rightarrow> 'a \<Rightarrow> 'a list \<Rightarrow> 'a list" where
  "insert_by le x [] = [x]"
| "insert_by le x (y # ys) = (if le x y then x # y # ys else y # insert_by le x ys)"

definition order_by :: "('b \<Rightarrow> 'b \<Rightarrow> bool) \<Rightarrow> ('a \<Rightarrow> 'b) \<Rightarrow> 'a list \<Rightarrow> 'a list" where
  "order_by le k xs = foldr (insert_by (\<lambda>x y. le (k x) (k y))) xs []"

lemma mset_insert_by [simp]: "mset (insert_by le x ys) = add_mset x (mset ys)"
  by (induction ys) auto

lemma mset_order_by [simp]: "mset (order_by le k xs) = mset xs"
  by (induction xs) (auto simp: order_by_def)

lemma set_order_by [simp]: "set (order_by le k xs) = set xs"
  by (metis mset_order_by set_mset_mset)

lemma distinct_map_order_by [simp]: "distinct (map j (order_by le k xs)) = distinct (map j xs)"
  by (metis mset_map mset_order_by mset_eq_imp_distinct_iff)

lemma length_order_by [simp]: "length (order_by le k xs) = length xs"
  by (metis mset_order_by size_mset)

section \<open>Runs that end\<close>

text \<open>A step that decreases a measure bounds the number of steps.\<close>

lemma relpowp_measure:
  assumes "\<And>x y. R x y \<Longrightarrow> w y < w x" "(R ^^ n) x y"
  shows "n + w y \<le> (w x :: nat)"
  using assms(2)
proof (induction n arbitrary: y)
  case (Suc n)
  then obtain z where z: "(R ^^ n) x z" "R z y" by auto
  from Suc.IH [OF z(1)] assms(1) [OF z(2)] show ?case by simp
qed simp

end
