(* ===== verification/Go_Strings.thy ===== *)
theory Go_Strings
  imports Prelude
begin

text \<open>
  The functions of Go's package \<open>strings\<close> that the program calls, on byte strings (a Go string
  is a byte sequence, as is a HOL \<open>string\<close>): \<open>HasPrefix\<close>, \<open>TrimPrefix\<close>, \<open>TrimRight\<close>, \<open>Index\<close>,
  \<open>Contains\<close>, \<open>Split\<close>, \<open>SplitN\<close>, \<open>Join\<close> and \<open>ToUpper\<close>. Separators of length one are characters.
\<close>

section \<open>Prefixes and substrings\<close>

fun HasPrefix :: "string \<Rightarrow> string \<Rightarrow> bool" where
  "HasPrefix s [] = True"
| "HasPrefix [] (p # ps) = False"
| "HasPrefix (c # s) (p # ps) = (c = p \<and> HasPrefix s ps)"

definition TrimPrefix :: "string \<Rightarrow> string \<Rightarrow> string" where
  "TrimPrefix s p = (if HasPrefix s p then drop (length p) s else s)"

definition TrimRight :: "string \<Rightarrow> char \<Rightarrow> string" where
  "TrimRight s c = rev (dropWhile (\<lambda>x. x = c) (rev s))"

text \<open>\<open>strings.Index\<close>: the offset of the first occurrence, \<open>None\<close> for \<open>-1\<close>.\<close>

fun Index :: "string \<Rightarrow> string \<Rightarrow> nat option" where
  "Index [] p = (if p = [] then Some 0 else None)"
| "Index (c # s) p = (if HasPrefix (c # s) p then Some 0 else map_option Suc (Index s p))"

definition Contains :: "string \<Rightarrow> string \<Rightarrow> bool" where
  "Contains s p \<longleftrightarrow> Index s p \<noteq> None"

lemma HasPrefix_iff [simp]: "HasPrefix s p \<longleftrightarrow> (\<exists>t. s = p @ t)"
  by (induction s p rule: HasPrefix.induct) auto

declare HasPrefix_iff [simp del]

lemma HasPrefix_append [simp]: "HasPrefix (p @ t) p"
  by (simp add: HasPrefix_iff)

lemma TrimPrefix_append [simp]: "TrimPrefix (p @ t) p = t"
  by (simp add: TrimPrefix_def)

lemma TrimPrefix_id: "\<not> HasPrefix s p \<Longrightarrow> TrimPrefix s p = s"
  by (simp add: TrimPrefix_def)

lemma Contains_iff: "Contains s p \<longleftrightarrow> (\<exists>a b. s = a @ p @ b)"
proof (induction s)
  case Nil
  then show ?case by (simp add: Contains_def)
next
  case (Cons c s)
  have "Contains (c # s) p \<longleftrightarrow> HasPrefix (c # s) p \<or> Contains s p"
    by (auto simp: Contains_def)
  also have "\<dots> \<longleftrightarrow> (\<exists>a b. c # s = a @ p @ b)"
  proof
    assume "HasPrefix (c # s) p \<or> Contains s p"
    then show "\<exists>a b. c # s = a @ p @ b"
    proof
      assume "HasPrefix (c # s) p"
      then show ?thesis by (metis HasPrefix_iff append_Nil)
    next
      assume "Contains s p"
      with Cons show ?thesis by (metis append_Cons)
    qed
  next
    assume "\<exists>a b. c # s = a @ p @ b"
    then obtain a b where ab: "c # s = a @ p @ b" by blast
    then show "HasPrefix (c # s) p \<or> Contains s p"
      using Cons by (cases a) (metis HasPrefix_append append_Nil, auto)
  qed
  finally show ?case .
qed

lemma Contains_appendI: "Contains s p \<Longrightarrow> Contains (a @ s @ b) p"
  by (metis Contains_iff append.assoc)

section \<open>Splitting and joining\<close>

text \<open>\<open>strings.Split(s, sep)\<close> for a one-character separator; \<open>strings.SplitN\<close> stops splitting
  after \<open>n\<close> parts (the code calls it with \<open>n \<ge> 1\<close>).\<close>

fun Split :: "string \<Rightarrow> char \<Rightarrow> string list" where
  "Split [] c = [[]]"
| "Split (x # s) c =
     (if x = c then [] # Split s c
      else (case Split s c of [] \<Rightarrow> [[x]] | p # ps \<Rightarrow> (x # p) # ps))"

fun SplitN :: "string \<Rightarrow> char \<Rightarrow> nat \<Rightarrow> string list" where
  "SplitN [] c n = [[]]"
| "SplitN (x # s) c n =
     (if n \<le> 1 then [x # s]
      else if x = c then [] # SplitN s c (n - 1)
      else (case SplitN s c n of [] \<Rightarrow> [[x]] | p # ps \<Rightarrow> (x # p) # ps))"

fun Join :: "string list \<Rightarrow> string \<Rightarrow> string" where
  "Join [] sep = []"
| "Join [p] sep = p"
| "Join (p # q # ps) sep = p @ sep @ Join (q # ps) sep"

lemma Split_not_Nil [simp]: "Split s c \<noteq> []"
  by (induction s) (auto split: list.splits)

lemma SplitN_not_Nil [simp]: "SplitN s c n \<noteq> []"
  by (cases s) (auto split: list.splits)

lemma Join_Split [simp]: "Join (Split s c) [c] = s"
proof (induction s)
  case Nil
  then show ?case by simp
next
  case (Cons x s)
  obtain p ps where sp: "Split s c = p # ps"
    by (cases "Split s c") auto
  with Cons show ?case by (cases ps) auto
qed

lemma Split_no_sep: "p \<in> set (Split s c) \<Longrightarrow> c \<notin> set p"
proof (induction s arbitrary: p)
  case Nil
  then show ?case by simp
next
  case (Cons x s)
  then show ?case by (cases "Split s c") (auto split: if_splits)
qed

lemma Split_append_sep: "Split (s @ c # t) c = Split s c @ Split t c"
proof (induction s)
  case Nil
  then show ?case by simp
next
  case (Cons x s)
  obtain p ps where "Split s c = p # ps"
    by (cases "Split s c") auto
  with Cons show ?case by auto
qed

lemma Split_id: "c \<notin> set s \<Longrightarrow> Split s c = [s]"
  by (induction s) auto

lemma Split_Join:
  "ps \<noteq> [] \<Longrightarrow> (\<And>p. p \<in> set ps \<Longrightarrow> c \<notin> set p) \<Longrightarrow> Split (Join ps [c]) c = ps"
proof (induction ps "[c]" rule: Join.induct)
  case (3 p q ps)
  then show ?case by (simp add: Split_append_sep Split_id)
qed (auto simp: Split_id)

lemma last_Split: "c \<notin> set t \<Longrightarrow> last (Split (s @ c # t) c) = t"
  by (simp add: Split_append_sep Split_id)

text \<open>Cutting at the first separator, as \<open>SplitN(s, c, 2)\<close>.\<close>

lemma SplitN_2: "SplitN s c 2 = (case Index s [c] of None \<Rightarrow> [s] | Some i \<Rightarrow> [take i s, drop (Suc i) s])"
proof (induction s)
  case Nil
  then show ?case by simp
next
  case (Cons x s)
  have one: "SplitN s c 1 = [s]" by (cases s) auto
  show ?case
    using Cons one by (auto split: option.splits)
qed

section \<open>Upper case\<close>

text \<open>\<open>strings.ToUpper\<close> maps ASCII letters directly when every byte is ASCII; any other string
  goes through the Unicode tables, here the parameter \<open>ucase\<close>.\<close>

definition is_ascii :: "char \<Rightarrow> bool" where
  "is_ascii c \<longleftrightarrow> (of_char c :: nat) < 128"

definition ascii_upper :: "char \<Rightarrow> char" where
  "ascii_upper c = (let n = (of_char c :: nat) in if 97 \<le> n \<and> n \<le> 122 then char_of (n - 32) else c)"

definition ToUpper :: "(string \<Rightarrow> string) \<Rightarrow> string \<Rightarrow> string" where
  "ToUpper ucase s = (if list_all is_ascii s then map ascii_upper s else ucase s)"

lemma of_char_ascii_upper:
  "(of_char (ascii_upper c) :: nat) =
     (let n = of_char c in if 97 \<le> n \<and> n \<le> 122 then n - 32 else n)"
  by (auto simp: ascii_upper_def Let_def)

lemma ascii_upper_idem [simp]: "ascii_upper (ascii_upper c) = ascii_upper c"
  by (auto simp: ascii_upper_def Let_def)

lemma is_ascii_upper [simp]: "is_ascii c \<Longrightarrow> is_ascii (ascii_upper c)"
  by (auto simp: is_ascii_def of_char_ascii_upper Let_def)

lemma ToUpper_ascii_idem:
  "list_all is_ascii s \<Longrightarrow> ToUpper ucase (ToUpper ucase s) = ToUpper ucase s"
  by (auto simp: ToUpper_def list_all_iff)

section \<open>Decimal numbers\<close>

definition digit_char :: "nat \<Rightarrow> char" where
  "digit_char n = char_of (48 + n)"

fun decimal :: "nat \<Rightarrow> string" where
  "decimal n = (if n < 10 then [digit_char n] else decimal (n div 10) @ [digit_char (n mod 10)])"

declare decimal.simps [simp del]

text \<open>\<open>strconv.FormatInt(i, 10)\<close>, \<open>strconv.Itoa\<close> and the verb \<open>%d\<close>.\<close>

definition FormatInt :: "int \<Rightarrow> string" where
  "FormatInt i = (if i < 0 then CHR ''-'' # decimal (nat (- i)) else decimal (nat i))"

lemma of_digit_char [simp]: "n < 10 \<Longrightarrow> (of_char (digit_char n) :: nat) = 48 + n"
  by (simp add: digit_char_def)

lemma decimal_not_Nil [simp]: "decimal n \<noteq> []"
  by (subst decimal.simps) simp

lemma decimal_value: "foldl (\<lambda>n c. 10 * n + (of_char c - 48)) 0 (decimal n) = n"
proof (induction n rule: decimal.induct)
  case (1 n)
  then show ?case by (subst decimal.simps) simp
qed

lemma decimal_digits: "c \<in> set (decimal n) \<Longrightarrow> 48 \<le> (of_char c :: nat) \<and> (of_char c :: nat) \<le> 57"
proof (induction n rule: decimal.induct)
  case (1 n)
  then show ?case
    by (subst (asm) (2) decimal.simps) (auto split: if_splits)
qed

lemma inj_decimal: "decimal m = decimal n \<longleftrightarrow> m = n"
  by (metis decimal_value)

end
