(* ===== verification/Domain.thy ===== *)
theory Domain
  imports Go_Strings
begin

text \<open>
  The domain layer (\<open>internal/domain\<close>): users, accounts, teams, repositories, backup files, and
  the four kinds of activity with the methods of the interface \<open>Activity\<close>. A map-valued field
  is a Go map (\<open>Prelude.go_map\<close>); a nil map and an empty map read alike and are both \<open>[]\<close>.
\<close>

section \<open>Platforms, roles, users, accounts, teams, repositories\<close>

record git_platform =
  platform_name :: string

definition PlatformGitHub :: git_platform where
  "PlatformGitHub = \<lparr>platform_name = ''GITHUB''\<rparr>"

definition PlatformGitLab :: git_platform where
  "PlatformGitLab = \<lparr>platform_name = ''GITLAB''\<rparr>"

text \<open>\<open>MarshalText\<close> and \<open>UnmarshalText\<close>: a platform is written as its name.\<close>

definition MarshalText :: "git_platform \<Rightarrow> string" where
  "MarshalText p = platform_name p"

definition UnmarshalText :: "git_platform \<Rightarrow> string \<Rightarrow> git_platform" where
  "UnmarshalText p text = p\<lparr>platform_name := text\<rparr>"

text \<open>\<open>type Role string\<close>: any string is a role; three of them have a meaning.\<close>

type_synonym role = string

definition RoleAdmin :: role where "RoleAdmin = ''ADMIN''"
definition RoleTeamLeader :: role where "RoleTeamLeader = ''TEAM_LEADER''"
definition RoleTeamMember :: role where "RoleTeamMember = ''TEAM_MEMBER''"

lemmas role_defs = RoleAdmin_def RoleTeamLeader_def RoleTeamMember_def

definition AllRoles :: "role list" where
  "AllRoles = [RoleAdmin, RoleTeamLeader, RoleTeamMember]"

record user =
  user_id :: string
  user_username :: string
  user_display_name :: string
  user_email :: string
  user_avatar_url :: string
  user_platform_usernames :: "(git_platform, string) go_map"

definition GetPlatformUsername :: "user \<Rightarrow> git_platform \<Rightarrow> string" where
  "GetPlatformUsername u platform =
     (case map_of (user_platform_usernames u) platform of
        Some name \<Rightarrow> name
      | None \<Rightarrow> user_username u)"

record user_account =
  account_id :: string
  account_username :: string
  account_password_hash :: string
  account_roles :: "(role, bool) go_map"
  account_user_id :: string

definition HasRole :: "user_account \<Rightarrow> role \<Rightarrow> bool" where
  "HasRole a r = map_flag (account_roles a) r"

fun HasAnyRole :: "user_account \<Rightarrow> role list \<Rightarrow> bool" where
  "HasAnyRole a [] = False"
| "HasAnyRole a (r # rs) = (if map_flag (account_roles a) r then True else HasAnyRole a rs)"

text \<open>\<open>RoleList\<close> ranges over the keys of the role map, whatever their flag.\<close>

definition RoleList :: "iteration \<Rightarrow> user_account \<Rightarrow> role list" where
  "RoleList it a = map fst (range_order it (account_roles a))"

record team =
  team_id :: string
  team_name :: string
  team_leader_ids :: "string list"
  team_member_ids :: "string list"
  team_repository_ids :: "string list"

record repository =
  repo_id :: string
  repo_name :: string
  repo_full_name :: string
  repo_url :: string
  repo_platform :: git_platform
  repo_api_token :: string

lemma HasAnyRole_iff: "HasAnyRole a rs \<longleftrightarrow> (\<exists>r\<in>set rs. HasRole a r)"
  by (induction rs) (auto simp: HasRole_def)

lemma UnmarshalText_MarshalText [simp]: "UnmarshalText q (MarshalText p) = p"
  by (simp add: MarshalText_def UnmarshalText_def)

section \<open>Backup files\<close>

text \<open>Times are instants in seconds; the export time is the only one a backup file holds.\<close>

record backup_metadata =
  app_version :: string
  exported_at :: int
  exported_by :: string

record backup_file =
  backup_metadata :: backup_metadata
  backup_users :: "user list"
  backup_accounts :: "user_account list"
  backup_teams :: "team list"
  backup_repositories :: "repository list"
  backup_config :: "(string, string) go_map"

section \<open>Activities\<close>

text \<open>A time of Go's package \<open>time\<close>: the instant in seconds since 1970 and the offset of its
  location from UTC in seconds. Comparisons (\<open>Before\<close>, \<open>After\<close>) are on the instant.\<close>

record go_time =
  time_unix :: int
  time_offset :: int

definition time_Before :: "go_time \<Rightarrow> go_time \<Rightarrow> bool" where
  "time_Before t u \<longleftrightarrow> time_unix t < time_unix u"

definition time_After :: "go_time \<Rightarrow> go_time \<Rightarrow> bool" where
  "time_After t u \<longleftrightarrow> time_unix t > time_unix u"

record activity_type =
  type_name :: string
  type_display_name :: string

definition ActivityTypeCommit :: activity_type where
  "ActivityTypeCommit = \<lparr>type_name = ''COMMIT'', type_display_name = ''Commit''\<rparr>"

definition ActivityTypeMergedPullRequest :: activity_type where
  "ActivityTypeMergedPullRequest = \<lparr>type_name = ''MERGED_PR'', type_display_name = ''Merged PR''\<rparr>"

definition ActivityTypeIssue :: activity_type where
  "ActivityTypeIssue = \<lparr>type_name = ''ISSUE'', type_display_name = ''Issue''\<rparr>"

definition ActivityTypePullRequestReview :: activity_type where
  "ActivityTypePullRequestReview =
     \<lparr>type_name = ''PR_REVIEW'', type_display_name = ''PR Review''\<rparr>"

lemmas activity_type_defs =
  ActivityTypeCommit_def ActivityTypeMergedPullRequest_def
  ActivityTypeIssue_def ActivityTypePullRequestReview_def

datatype issue_state = IssueStateOpen | IssueStateClosed

datatype review_state = ReviewStateApproved | ReviewStateChangesRequested | ReviewStateCommented

text \<open>The texts of the string types \<open>IssueState\<close> and \<open>ReviewState\<close>.\<close>

fun issue_state_text :: "issue_state \<Rightarrow> string" where
  "issue_state_text IssueStateOpen = ''OPEN''"
| "issue_state_text IssueStateClosed = ''CLOSED''"

fun review_state_text :: "review_state \<Rightarrow> string" where
  "review_state_text ReviewStateApproved = ''APPROVED''"
| "review_state_text ReviewStateChangesRequested = ''CHANGES_REQUESTED''"
| "review_state_text ReviewStateCommented = ''COMMENTED''"

record activity_data =
  data_title :: string
  data_url :: string
  data_created_at :: go_time

record commit =
  commit_data :: activity_data
  commit_sha :: string
  commit_message :: string

record merged_pull_request =
  mpr_data :: activity_data
  mpr_title :: string
  mpr_merged_at :: go_time

record issue =
  issue_data :: activity_data
  issue_title :: string
  issue_state :: issue_state
  issue_labels :: "string list"

record pull_request_review =
  review_data :: activity_data
  review_pull_request_title :: string
  review_state :: review_state
  review_submitted_at :: go_time

datatype activity =
    Commit commit
  | MergedPullRequest merged_pull_request
  | Issue issue
  | PullRequestReview pull_request_review

definition NewCommit :: "activity_data \<Rightarrow> string \<Rightarrow> string \<Rightarrow> activity" where
  "NewCommit d sha message =
     Commit \<lparr>commit_data = d, commit_sha = sha, commit_message = message\<rparr>"

definition NewMergedPullRequest :: "activity_data \<Rightarrow> string \<Rightarrow> go_time \<Rightarrow> activity" where
  "NewMergedPullRequest d title mergedAt =
     MergedPullRequest \<lparr>mpr_data = d, mpr_title = title, mpr_merged_at = mergedAt\<rparr>"

definition NewIssue :: "activity_data \<Rightarrow> string \<Rightarrow> issue_state \<Rightarrow> string list \<Rightarrow> activity" where
  "NewIssue d title st labels =
     Issue \<lparr>issue_data = d, issue_title = title, issue_state = st, issue_labels = labels\<rparr>"

definition NewPullRequestReview ::
    "activity_data \<Rightarrow> string \<Rightarrow> review_state \<Rightarrow> go_time \<Rightarrow> activity" where
  "NewPullRequestReview d prTitle st submittedAt =
     PullRequestReview \<lparr>review_data = d, review_pull_request_title = prTitle,
       review_state = st, review_submitted_at = submittedAt\<rparr>"

fun GetData :: "activity \<Rightarrow> activity_data" where
  "GetData (Commit c) = commit_data c"
| "GetData (MergedPullRequest p) = mpr_data p"
| "GetData (Issue i) = issue_data i"
| "GetData (PullRequestReview r) = review_data r"

fun GetType :: "activity \<Rightarrow> activity_type" where
  "GetType (Commit c) = ActivityTypeCommit"
| "GetType (MergedPullRequest p) = ActivityTypeMergedPullRequest"
| "GetType (Issue i) = ActivityTypeIssue"
| "GetType (PullRequestReview r) = ActivityTypePullRequestReview"

fun GetSummary :: "activity \<Rightarrow> string" where
  "GetSummary (Commit c) = commit_message c"
| "GetSummary (MergedPullRequest p) = mpr_title p"
| "GetSummary (Issue i) = issue_title i"
| "GetSummary (PullRequestReview r) = review_pull_request_title r"

lemmas new_activity_defs =
  NewCommit_def NewMergedPullRequest_def NewIssue_def NewPullRequestReview_def

section \<open>Periods and report types\<close>

datatype time_period =
    TimePeriodLast7Days | TimePeriodLast30Days | TimePeriodCurrentQuarter
  | TimePeriodLastQuarter | TimePeriodCurrentYear | TimePeriodLastYear | TimePeriodCustom

fun time_period_text :: "time_period \<Rightarrow> string" where
  "time_period_text TimePeriodLast7Days = ''LAST_7_DAYS''"
| "time_period_text TimePeriodLast30Days = ''LAST_30_DAYS''"
| "time_period_text TimePeriodCurrentQuarter = ''CURRENT_QUARTER''"
| "time_period_text TimePeriodLastQuarter = ''LAST_QUARTER''"
| "time_period_text TimePeriodCurrentYear = ''CURRENT_YEAR''"
| "time_period_text TimePeriodLastYear = ''LAST_YEAR''"
| "time_period_text TimePeriodCustom = ''CUSTOM''"

type_synonym report_type = string

definition ReportTypeActivityLog :: report_type where
  "ReportTypeActivityLog = ''ACTIVITY_LOG''"

definition ReportTypeWeightedScore :: report_type where
  "ReportTypeWeightedScore = ''WEIGHTED_SCORE''"

end
