(* ===== verification/Database.thy ===== *)
theory Database
  imports Domain
begin

text \<open>
  The relational store. The tables are those of the migrations (\<open>src/migrations/*.sql\<close>), a row
  of a table is a record, a table a list of rows, and a statement of the code a function on the
  store that returns the constraint it violates or the changed store: primary keys, unique
  indexes, \<open>NOT NULL\<close>, foreign keys and \<open>ON DELETE CASCADE\<close> are part of the statements. Where
  a query has no \<open>ORDER BY\<close> the rows come in the order of the list; every lemma is about all
  lists, hence about every order.

  Whatever else may go wrong between the program and its database is a schedule of faults in
  the state: each statement takes the next entry. A statement can fail, a result set can be cut
  short after some rows (which ends \<open>rows.Next()\<close> without an error, the code never asks
  \<open>rows.Err()\<close>), or the scan of a row can fail. An empty schedule means that every later
  statement reaches the database.
\<close>

section \<open>Tables\<close>

record user_row =
  ur_id :: string
  ur_username :: string
  ur_display_name :: string
  ur_email :: string
  ur_avatar_url :: string

record platform_row =
  pr_user_id :: string
  pr_platform :: string
  pr_username :: string

record account_row =
  ar_id :: string
  ar_username :: string
  ar_password_hash :: string
  ar_roles :: "string list"
  ar_user_id :: string

record team_row =
  tr_id :: string
  tr_name :: string

record repo_row =
  rr_id :: string
  rr_name :: string
  rr_full_name :: string
  rr_url :: string
  rr_platform :: string
  rr_api_token :: string

datatype fault =
    Proceed
  | Fail string
  | Cut nat string
  | Scan_Fail nat string

text \<open>The junction tables hold pairs: a team and a user, or a team and a repository.\<close>

record db =
  users_table :: "user_row list"
  platform_table :: "platform_row list"
  accounts_table :: "account_row list"
  teams_table :: "team_row list"
  members_table :: "(string \<times> string) list"
  leaders_table :: "(string \<times> string) list"
  team_repos_table :: "(string \<times> string) list"
  repos_table :: "repo_row list"
  config_table :: "(string \<times> string) list"
  faults :: "fault list"

definition tables :: "db \<Rightarrow> db" where
  "tables s = s\<lparr>faults := []\<rparr>"

definition healthy :: "db \<Rightarrow> bool" where
  "healthy s \<longleftrightarrow> faults s = []"

lemma tables_faults [simp]: "tables (s\<lparr>faults := fs\<rparr>) = tables s"
  by (simp add: tables_def)

lemma tables_healthy: "healthy s \<Longrightarrow> tables s = s"
  by (simp add: tables_def healthy_def)

definition user_ids :: "db \<Rightarrow> string set" where
  "user_ids s = ur_id ` set (users_table s)"

definition team_ids :: "db \<Rightarrow> string set" where
  "team_ids s = tr_id ` set (teams_table s)"

definition repo_ids :: "db \<Rightarrow> string set" where
  "repo_ids s = rr_id ` set (repos_table s)"

lemmas id_set_defs = user_ids_def team_ids_def repo_ids_def

section \<open>Statements\<close>

text \<open>Each statement of the code meets the next fault of the schedule first.\<close>

definition next_fault :: "(db, fault) state" where
  "next_fault = State (\<lambda>s. case faults s of
     [] \<Rightarrow> (Proceed, s)
   | f # fs \<Rightarrow> (f, s\<lparr>faults := fs\<rparr>))"

fun fault_text :: "fault \<Rightarrow> string option" where
  "fault_text Proceed = None"
| "fault_text (Fail m) = Some m"
| "fault_text (Cut n m) = Some m"
| "fault_text (Scan_Fail n m) = Some m"

text \<open>\<open>pool.Exec\<close>: a statement that reports an error has had no effect.\<close>

definition exec_sql :: "(db \<Rightarrow> db_error + db) \<Rightarrow> (db, unit result) state" where
  "exec_sql f = do {
     o1 \<leftarrow> next_fault;
     case fault_text o1 of
       Some m \<Rightarrow> State_Monad.return (Inl (Driver (Driver_Fault m)))
     | None \<Rightarrow> State (\<lambda>s. case f s of Inl e \<Rightarrow> (Inl (Driver e), s) | Inr s' \<Rightarrow> (Inr (), s'))
   }"

text \<open>\<open>pool.QueryRow(...).Scan(...)\<close>: the first row of the result.\<close>

definition query_row :: "(db \<Rightarrow> 'r list) \<Rightarrow> (db, 'r result) state" where
  "query_row f = do {
     o1 \<leftarrow> next_fault;
     s \<leftarrow> State_Monad.get;
     State_Monad.return (case fault_text o1 of
       Some m \<Rightarrow> Inl (Driver (Driver_Fault m))
     | None \<Rightarrow> (case f s of [] \<Rightarrow> Inl (Driver No_Rows) | r # _ \<Rightarrow> Inr r))
   }"

text \<open>\<open>pool.Query\<close> followed by \<open>for rows.Next() { rows.Scan(...) }\<close>: the two wrapped errors of
  the code, and the silent truncation.\<close>

definition query_rows :: "string \<Rightarrow> string \<Rightarrow> (db \<Rightarrow> 'r list) \<Rightarrow> (db, 'r list result) state" where
  "query_rows query_msg scan_msg f = do {
     o1 \<leftarrow> next_fault;
     s \<leftarrow> State_Monad.get;
     State_Monad.return (case o1 of
       Proceed \<Rightarrow> Inr (f s)
     | Fail m \<Rightarrow> Inl (Errorf query_msg (Driver (Driver_Fault m)))
     | Cut n m \<Rightarrow> Inr (take n (f s))
     | Scan_Fail n m \<Rightarrow>
         (if n < length (f s) then Inl (Errorf scan_msg (Driver (Driver_Fault m))) else Inr (f s)))
   }"

text \<open>\<open>pool.Begin\<close>, a body on the transaction, \<open>defer tx.Rollback\<close> and \<open>tx.Commit\<close>: an error
  on the way leaves the tables as they were.\<close>

definition in_tx :: "string \<Rightarrow> (db, unit result) state \<Rightarrow> (db, unit result) state" where
  "in_tx begin_msg body = do {
     o1 \<leftarrow> next_fault;
     case fault_text o1 of
       Some m \<Rightarrow> State_Monad.return (Inl (Errorf begin_msg (Driver (Driver_Fault m))))
     | None \<Rightarrow> do {
         s0 \<leftarrow> State_Monad.get;
         r \<leftarrow> body;
         case r of
           Inl e \<Rightarrow> State (\<lambda>s. (Inl e, s0\<lparr>faults := faults s\<rparr>))
         | Inr _ \<Rightarrow> do {
             o2 \<leftarrow> next_fault;
             case fault_text o2 of
               Some m \<Rightarrow> State (\<lambda>s. (Inl (Driver (Driver_Fault m)), s0\<lparr>faults := faults s\<rparr>))
             | None \<Rightarrow> State_Monad.return (Inr ())
           }
       }
   }"

section \<open>Running statements\<close>

named_theorems run_rules \<open>what a statement does when no fault is scheduled\<close>

lemma run_next_fault_healthy [run_rules]: "healthy s \<Longrightarrow> run_state next_fault s = (Proceed, s)"
  by (simp add: next_fault_def healthy_def)

lemma run_exec_healthy [run_rules]:
  "healthy s \<Longrightarrow> run_state (exec_sql f) s =
     (case f s of Inl e \<Rightarrow> (Inl (Driver e), s) | Inr s' \<Rightarrow> (Inr (), s'))"
  by (simp add: exec_sql_def run_next_fault_healthy)

lemma run_query_row_healthy [run_rules]:
  "healthy s \<Longrightarrow> run_state (query_row f) s =
     ((case f s of [] \<Rightarrow> Inl (Driver No_Rows) | r # _ \<Rightarrow> Inr r), s)"
  by (simp add: query_row_def run_next_fault_healthy)

lemma run_query_rows_healthy [run_rules]:
  "healthy s \<Longrightarrow> run_state (query_rows qm sm f) s = (Inr (f s), s)"
  by (simp add: query_rows_def run_next_fault_healthy)

lemma run_wrapf [run_rules]:
  "run_state (wrapf msg m) s =
     (case run_state m s of (r, s') \<Rightarrow>
        ((case r of Inl e \<Rightarrow> Inl (Errorf msg e) | Inr x \<Rightarrow> Inr x), s'))"
  by (simp add: wrapf_def)

lemma tables_next_fault: "run_state next_fault s = (f, s') \<Longrightarrow> tables s' = tables s"
  by (auto simp: next_fault_def split: list.splits)

text \<open>A read changes no table, whatever the schedule.\<close>

lemma tables_query_row: "run_state (query_row f) s = (r, s') \<Longrightarrow> tables s' = tables s"
  by (auto simp: query_row_def dest: tables_next_fault split: prod.splits)

lemma tables_query_rows: "run_state (query_rows qm sm f) s = (r, s') \<Longrightarrow> tables s' = tables s"
  by (auto simp: query_rows_def dest: tables_next_fault split: prod.splits)

lemma tables_exec_error: "run_state (exec_sql f) s = (Inl e, s') \<Longrightarrow> tables s' = tables s"
  by (auto simp: exec_sql_def dest: tables_next_fault
      split: prod.splits option.splits sum.splits)

lemma exec_ok_changes:
  "run_state (exec_sql f) s = (Inr u, s') \<Longrightarrow> \<exists>s0. tables s0 = tables s \<and> f s0 = Inr s'"
  by (auto simp: exec_sql_def dest: tables_next_fault
      split: prod.splits option.splits sum.splits)

lemma exec_ok:
  "run_state (exec_sql f) s = (Inr u, s') \<Longrightarrow> \<exists>fs. f (s\<lparr>faults := fs\<rparr>) = Inr s'"
proof -
  assume "run_state (exec_sql f) s = (Inr u, s')"
  then obtain s0 where s0: "tables s0 = tables s" "f s0 = Inr s'"
    using exec_ok_changes by blast
  then have "s\<lparr>faults := faults s0\<rparr> = s0"
    by (cases s; cases s0) (simp add: tables_def)
  with s0 show ?thesis by metis
qed

text \<open>A failed transaction changes no table.\<close>

lemma tables_in_tx_error:
  "run_state (in_tx msg body) s = (Inl e, s') \<Longrightarrow> tables s' = tables s"
  by (auto simp: in_tx_def dest!: tables_next_fault
      split: prod.splits option.splits sum.splits)

lemma run_in_tx_healthy:
  assumes "healthy s" and "run_state body s = (r, s')" and "healthy s'"
  shows "run_state (in_tx msg body) s = (case r of Inl e \<Rightarrow> (Inl e, s) | Inr _ \<Rightarrow> (Inr (), s'))"
  using assms by (cases r) (auto simp: in_tx_def run_next_fault_healthy healthy_def)

subsection \<open>Invariants of statements\<close>

text \<open>
  The interfaces between the store and every invariant of the development. \<open>read_invariant\<close>: a
  predicate that taking a fault from the schedule keeps; every read keeps it. \<open>stmt_invariant\<close>:
  a predicate on the tables (it does not see the schedule); every read keeps it, a statement
  keeps it if its effect does, and a transaction keeps it if its body does.
\<close>

locale read_invariant =
  fixes I :: "db \<Rightarrow> bool"
  assumes keeps_next_fault [keeps_rules]: "keeps I next_fault"
begin

lemma keeps_query_row [keeps_rules]: "keeps I (query_row f)"
  unfolding query_row_def by (intro keeps_rules)

lemma keeps_query_rows [keeps_rules]: "keeps I (query_rows qm sm f)"
  unfolding query_rows_def by (intro keeps_rules)

end

locale stmt_invariant =
  fixes I :: "db \<Rightarrow> bool"
  assumes faults_free: "I (s\<lparr>faults := fs\<rparr>) = I s"
begin

lemma I_tables: "I (tables s) = I s"
  by (simp add: tables_def faults_free)

lemma I_cong: "tables s' = tables s \<Longrightarrow> I s' = I s"
  by (metis I_tables)

lemma I_next_fault: "keeps I next_fault"
  by (auto simp: keeps_def next_fault_def faults_free split: list.splits)

lemma keeps_exec:
  assumes "\<And>s s'. I s \<Longrightarrow> f s = Inr s' \<Longrightarrow> I s'"
  shows "keeps I (exec_sql f)"
  unfolding keeps_def
proof (intro allI impI)
  fix s assume "I s"
  obtain r s' where run: "run_state (exec_sql f) s = (r, s')"
    by fastforce
  show "I (snd (run_state (exec_sql f) s))"
  proof (cases r)
    case (Inl e)
    with run \<open>I s\<close> show ?thesis
      by (metis I_cong tables_exec_error snd_conv)
  next
    case (Inr u)
    with run obtain s0 where "tables s0 = tables s" "f s0 = Inr s'"
      by (metis exec_ok_changes)
    with assms \<open>I s\<close> have "I s'"
      by (metis I_cong)
    with run show ?thesis by simp
  qed
qed

lemma in_tx_cases:
  assumes "run_state (in_tx msg body) s = (r, s')"
  obtains (rolled_back) e where "r = Inl e" "tables s' = tables s"
  | (committed) s0 u s1 where "r = Inr ()" "tables s0 = tables s"
      "run_state body s0 = (Inr u, s1)" "tables s' = tables s1"
proof (cases r)
  case (Inl e)
  with assms show ?thesis
    by (metis rolled_back tables_in_tx_error)
next
  case (Inr u)
  with assms show ?thesis
    by (auto simp: in_tx_def split: prod.splits option.splits sum.splits
        intro!: committed dest!: tables_next_fault)
qed

lemma keeps_in_tx [keeps_rules]:
  assumes "keeps I body"
  shows "keeps I (in_tx msg body)"
  unfolding keeps_def
proof (intro allI impI)
  fix s assume "I s"
  obtain r s' where run: "run_state (in_tx msg body) s = (r, s')"
    by fastforce
  then have "I s'"
  proof (cases rule: in_tx_cases)
    case (rolled_back e)
    with \<open>I s\<close> show ?thesis by (metis I_cong)
  next
    case (committed s0 u s1)
    with assms \<open>I s\<close> show ?thesis by (metis I_cong keeps_run)
  qed
  with run show "I (snd (run_state (in_tx msg body) s))" by simp
qed

end

sublocale stmt_invariant \<subseteq> read_invariant
  by unfold_locales (rule I_next_fault)

text \<open>The first invariant every part of the program can be measured by: no table changes.\<close>

interpretation unchanged: stmt_invariant "\<lambda>s. tables s = t"
  by unfold_locales simp

end
