(* ===== verification/Statements.thy ===== *)
theory Statements
  imports Database
begin

text \<open>
  The SQL statements of the repositories as functions on the store. Each returns the constraint
  of the schema it would violate, or the changed store.
\<close>

section \<open>Inserting, upserting and deleting\<close>

subsection \<open>Users\<close>

definition sql_insert_user :: "user_row \<Rightarrow> db \<Rightarrow> db_error + db" where
  "sql_insert_user r s =
     (if ur_id r \<in> user_ids s then Inl (Unique_Violation ''users_pkey'')
      else if ur_username r \<in> ur_username ` set (users_table s)
        then Inl (Unique_Violation ''users_username_key'')
      else Inr (s\<lparr>users_table := users_table s @ [r]\<rparr>))"

text \<open>\<open>ON CONFLICT (id) DO UPDATE SET username=$2, ...\<close>\<close>

definition sql_upsert_user :: "user_row \<Rightarrow> db \<Rightarrow> db_error + db" where
  "sql_upsert_user r s =
     (if ur_id r \<in> user_ids s then
        (if \<exists>x\<in>set (users_table s). ur_id x \<noteq> ur_id r \<and> ur_username x = ur_username r
         then Inl (Unique_Violation ''users_username_key'')
         else Inr (s\<lparr>users_table :=
                update_where (\<lambda>x. ur_id x = ur_id r) (\<lambda>_. r) (users_table s)\<rparr>))
      else sql_insert_user r s)"

text \<open>Four tables refer to users with \<open>ON DELETE CASCADE\<close>.\<close>

definition sql_delete_user :: "string \<Rightarrow> db \<Rightarrow> db_error + db" where
  "sql_delete_user uid s = Inr (s\<lparr>
     users_table := filter (\<lambda>r. ur_id r \<noteq> uid) (users_table s),
     platform_table := filter (\<lambda>r. pr_user_id r \<noteq> uid) (platform_table s),
     accounts_table := filter (\<lambda>r. ar_user_id r \<noteq> uid) (accounts_table s),
     members_table := filter (\<lambda>p. snd p \<noteq> uid) (members_table s),
     leaders_table := filter (\<lambda>p. snd p \<noteq> uid) (leaders_table s)\<rparr>)"

subsection \<open>Platform usernames\<close>

abbreviation pr_key :: "platform_row \<Rightarrow> string \<times> string" where
  "pr_key r \<equiv> (pr_user_id r, pr_platform r)"

definition sql_insert_platform_username :: "platform_row \<Rightarrow> db \<Rightarrow> db_error + db" where
  "sql_insert_platform_username r s =
     (if pr_key r \<in> pr_key ` set (platform_table s)
        then Inl (Unique_Violation ''user_platform_usernames_pkey'')
      else if pr_user_id r \<notin> user_ids s
        then Inl (Foreign_Key_Violation ''user_platform_usernames_user_id_fkey'')
      else Inr (s\<lparr>platform_table := platform_table s @ [r]\<rparr>))"

definition sql_upsert_platform_username :: "platform_row \<Rightarrow> db \<Rightarrow> db_error + db" where
  "sql_upsert_platform_username r s =
     (if pr_key r \<in> pr_key ` set (platform_table s)
      then Inr (s\<lparr>platform_table :=
             update_where (\<lambda>x. pr_key x = pr_key r) (\<lambda>_. r) (platform_table s)\<rparr>)
      else sql_insert_platform_username r s)"

subsection \<open>Accounts\<close>

text \<open>The parameter for the column \<open>roles\<close> is a Go slice: the driver sends a nil slice as SQL
  \<open>NULL\<close>, here \<open>None\<close>.\<close>

definition sql_insert_account ::
    "string \<Rightarrow> string \<Rightarrow> string \<Rightarrow> string list option \<Rightarrow> string \<Rightarrow> db \<Rightarrow> db_error + db" where
  "sql_insert_account aid uname hash roles uid s =
     (case roles of
        None \<Rightarrow> Inl (Not_Null_Violation ''roles'')
      | Some rs \<Rightarrow>
         (if aid \<in> ar_id ` set (accounts_table s)
            then Inl (Unique_Violation ''user_accounts_pkey'')
          else if uname \<in> ar_username ` set (accounts_table s)
            then Inl (Unique_Violation ''user_accounts_username_key'')
          else if uid \<notin> user_ids s
            then Inl (Foreign_Key_Violation ''user_accounts_user_id_fkey'')
          else Inr (s\<lparr>accounts_table := accounts_table s @
                 [\<lparr>ar_id = aid, ar_username = uname, ar_password_hash = hash,
                   ar_roles = rs, ar_user_id = uid\<rparr>]\<rparr>)))"

definition sql_upsert_account ::
    "string \<Rightarrow> string \<Rightarrow> string \<Rightarrow> string list option \<Rightarrow> string \<Rightarrow> db \<Rightarrow> db_error + db" where
  "sql_upsert_account aid uname hash roles uid s =
     (case roles of
        None \<Rightarrow> Inl (Not_Null_Violation ''roles'')
      | Some rs \<Rightarrow>
         (if aid \<in> ar_id ` set (accounts_table s) then
            (if \<exists>x\<in>set (accounts_table s). ar_id x \<noteq> aid \<and> ar_username x = uname
               then Inl (Unique_Violation ''user_accounts_username_key'')
             else if uid \<notin> user_ids s
               then Inl (Foreign_Key_Violation ''user_accounts_user_id_fkey'')
             else Inr (s\<lparr>accounts_table :=
                    update_where (\<lambda>x. ar_id x = aid)
                      (\<lambda>_. \<lparr>ar_id = aid, ar_username = uname, ar_password_hash = hash,
                         ar_roles = rs, ar_user_id = uid\<rparr>) (accounts_table s)\<rparr>))
          else sql_insert_account aid uname hash roles uid s))"

definition sql_delete_account :: "string \<Rightarrow> db \<Rightarrow> db_error + db" where
  "sql_delete_account uid s =
     Inr (s\<lparr>accounts_table := filter (\<lambda>r. ar_user_id r \<noteq> uid) (accounts_table s)\<rparr>)"

subsection \<open>Teams and their junction tables\<close>

definition sql_insert_team :: "team_row \<Rightarrow> db \<Rightarrow> db_error + db" where
  "sql_insert_team r s =
     (if tr_id r \<in> team_ids s then Inl (Unique_Violation ''teams_pkey'')
      else Inr (s\<lparr>teams_table := teams_table s @ [r]\<rparr>))"

definition sql_upsert_team :: "team_row \<Rightarrow> db \<Rightarrow> db_error + db" where
  "sql_upsert_team r s =
     (if tr_id r \<in> team_ids s
      then Inr (s\<lparr>teams_table := update_where (\<lambda>x. tr_id x = tr_id r) (\<lambda>_. r) (teams_table s)\<rparr>)
      else sql_insert_team r s)"

definition sql_delete_team :: "string \<Rightarrow> db \<Rightarrow> db_error + db" where
  "sql_delete_team tid s = Inr (s\<lparr>
     teams_table := filter (\<lambda>r. tr_id r \<noteq> tid) (teams_table s),
     members_table := filter (\<lambda>p. fst p \<noteq> tid) (members_table s),
     leaders_table := filter (\<lambda>p. fst p \<noteq> tid) (leaders_table s),
     team_repos_table := filter (\<lambda>p. fst p \<noteq> tid) (team_repos_table s)\<rparr>)"

text \<open>A row of a junction table: \<open>strict\<close> is a plain \<open>INSERT\<close>, which reports a duplicate;
  otherwise the statement says \<open>ON CONFLICT DO NOTHING\<close>.\<close>

definition link_row ::
    "string \<Rightarrow> string \<Rightarrow> string set \<Rightarrow> string set \<Rightarrow> bool \<Rightarrow> string \<times> string
     \<Rightarrow> (string \<times> string) list \<Rightarrow> db_error + (string \<times> string) list" where
  "link_row table column parents children strict p ls =
     (if p \<in> set ls then (if strict then Inl (Unique_Violation (table @ ''_pkey'')) else Inr ls)
      else if fst p \<notin> parents then Inl (Foreign_Key_Violation (table @ ''_team_id_fkey''))
      else if snd p \<notin> children then Inl (Foreign_Key_Violation (table @ ''_'' @ column @ ''_fkey''))
      else Inr (ls @ [p]))"

definition sql_add_member :: "bool \<Rightarrow> string \<Rightarrow> string \<Rightarrow> db \<Rightarrow> db_error + db" where
  "sql_add_member strict tid uid s =
     map_sum id (\<lambda>ls. s\<lparr>members_table := ls\<rparr>)
       (link_row ''team_members'' ''user_id'' (team_ids s) (user_ids s) strict (tid, uid) (members_table s))"

definition sql_add_leader :: "bool \<Rightarrow> string \<Rightarrow> string \<Rightarrow> db \<Rightarrow> db_error + db" where
  "sql_add_leader strict tid uid s =
     map_sum id (\<lambda>ls. s\<lparr>leaders_table := ls\<rparr>)
       (link_row ''team_leaders'' ''user_id'' (team_ids s) (user_ids s) strict (tid, uid) (leaders_table s))"

definition sql_add_team_repo :: "bool \<Rightarrow> string \<Rightarrow> string \<Rightarrow> db \<Rightarrow> db_error + db" where
  "sql_add_team_repo strict tid rid s =
     map_sum id (\<lambda>ls. s\<lparr>team_repos_table := ls\<rparr>)
       (link_row ''team_repositories'' ''repo_id'' (team_ids s) (repo_ids s) strict (tid, rid)
          (team_repos_table s))"

definition sql_remove_member :: "string \<Rightarrow> string \<Rightarrow> db \<Rightarrow> db_error + db" where
  "sql_remove_member tid uid s =
     Inr (s\<lparr>members_table := filter (\<lambda>p. p \<noteq> (tid, uid)) (members_table s)\<rparr>)"

definition sql_remove_leader :: "string \<Rightarrow> string \<Rightarrow> db \<Rightarrow> db_error + db" where
  "sql_remove_leader tid uid s =
     Inr (s\<lparr>leaders_table := filter (\<lambda>p. p \<noteq> (tid, uid)) (leaders_table s)\<rparr>)"

definition sql_remove_team_repo :: "string \<Rightarrow> string \<Rightarrow> db \<Rightarrow> db_error + db" where
  "sql_remove_team_repo tid rid s =
     Inr (s\<lparr>team_repos_table := filter (\<lambda>p. p \<noteq> (tid, rid)) (team_repos_table s)\<rparr>)"

definition sql_clear_members :: "string \<Rightarrow> db \<Rightarrow> db_error + db" where
  "sql_clear_members tid s =
     Inr (s\<lparr>members_table := filter (\<lambda>p. fst p \<noteq> tid) (members_table s)\<rparr>)"

definition sql_clear_leaders :: "string \<Rightarrow> db \<Rightarrow> db_error + db" where
  "sql_clear_leaders tid s =
     Inr (s\<lparr>leaders_table := filter (\<lambda>p. fst p \<noteq> tid) (leaders_table s)\<rparr>)"

text \<open>\<open>SELECT user_id FROM team_members WHERE team_id = $1\<close> and its siblings.\<close>

definition linked :: "(string \<times> string) list \<Rightarrow> string \<Rightarrow> string list" where
  "linked ls tid = map snd (filter (\<lambda>p. fst p = tid) ls)"

subsection \<open>Repositories\<close>

abbreviation rr_key :: "repo_row \<Rightarrow> string \<times> string" where
  "rr_key r \<equiv> (rr_full_name r, rr_platform r)"

definition sql_insert_repo :: "repo_row \<Rightarrow> db \<Rightarrow> db_error + db" where
  "sql_insert_repo r s =
     (if rr_id r \<in> repo_ids s then Inl (Unique_Violation ''repositories_pkey'')
      else if rr_key r \<in> rr_key ` set (repos_table s)
        then Inl (Unique_Violation ''idx_repositories_fullname_platform'')
      else Inr (s\<lparr>repos_table := repos_table s @ [r]\<rparr>))"

text \<open>\<open>ON CONFLICT (id) DO UPDATE SET name=$2, full_name=$3, ...\<close>\<close>

definition sql_save_repo :: "repo_row \<Rightarrow> db \<Rightarrow> db_error + db" where
  "sql_save_repo r s =
     (if rr_id r \<in> repo_ids s then
        (if \<exists>x\<in>set (repos_table s). rr_id x \<noteq> rr_id r \<and> rr_key x = rr_key r
         then Inl (Unique_Violation ''idx_repositories_fullname_platform'')
         else Inr (s\<lparr>repos_table :=
                update_where (\<lambda>x. rr_id x = rr_id r) (\<lambda>_. r) (repos_table s)\<rparr>))
      else sql_insert_repo r s)"

text \<open>\<open>ON CONFLICT (full_name, platform) DO UPDATE SET name=$2, url=$4, api_token=$6\<close>: an
  existing row keeps its id, full name and platform.\<close>

definition sql_upsert_repo :: "repo_row \<Rightarrow> db \<Rightarrow> db_error + db" where
  "sql_upsert_repo r s =
     (if rr_key r \<in> rr_key ` set (repos_table s)
      then Inr (s\<lparr>repos_table :=
             update_where (\<lambda>x. rr_key x = rr_key r)
               (\<lambda>x. x\<lparr>rr_name := rr_name r, rr_url := rr_url r, rr_api_token := rr_api_token r\<rparr>)
               (repos_table s)\<rparr>)
      else sql_insert_repo r s)"

subsection \<open>Configuration\<close>

definition sql_insert_config :: "string \<times> string \<Rightarrow> db \<Rightarrow> db_error + db" where
  "sql_insert_config kv s =
     (if fst kv \<in> fst ` set (config_table s) then Inl (Unique_Violation ''app_config_pkey'')
      else Inr (s\<lparr>config_table := config_table s @ [kv]\<rparr>))"

definition sql_upsert_config :: "string \<times> string \<Rightarrow> db \<Rightarrow> db_error + db" where
  "sql_upsert_config kv s =
     (if fst kv \<in> fst ` set (config_table s)
      then Inr (s\<lparr>config_table :=
             update_where (\<lambda>x. fst x = fst kv) (\<lambda>_. kv) (config_table s)\<rparr>)
      else sql_insert_config kv s)"

lemmas sql_defs =
  sql_insert_user_def sql_upsert_user_def sql_delete_user_def
  sql_insert_platform_username_def sql_upsert_platform_username_def
  sql_insert_account_def sql_upsert_account_def sql_delete_account_def
  sql_insert_team_def sql_upsert_team_def sql_delete_team_def
  sql_add_member_def sql_add_leader_def sql_add_team_repo_def link_row_def
  sql_remove_member_def sql_remove_leader_def sql_remove_team_repo_def
  sql_clear_members_def sql_clear_leaders_def
  sql_insert_repo_def sql_save_repo_def sql_upsert_repo_def
  sql_insert_config_def sql_upsert_config_def

text \<open>\<open>DELETE FROM table\<close>, which cascades to the tables that refer to it.\<close>

datatype table =
    T_users | T_user_platform_usernames | T_user_accounts | T_teams | T_team_members
  | T_repositories | T_team_repositories | T_app_config | T_team_leaders

fun sql_delete_all :: "table \<Rightarrow> db \<Rightarrow> db_error + db" where
  "sql_delete_all T_users s = Inr (s\<lparr>users_table := [], platform_table := [],
     accounts_table := [], members_table := [], leaders_table := []\<rparr>)"
| "sql_delete_all T_user_platform_usernames s = Inr (s\<lparr>platform_table := []\<rparr>)"
| "sql_delete_all T_user_accounts s = Inr (s\<lparr>accounts_table := []\<rparr>)"
| "sql_delete_all T_teams s = Inr (s\<lparr>teams_table := [], members_table := [],
     leaders_table := [], team_repos_table := []\<rparr>)"
| "sql_delete_all T_team_members s = Inr (s\<lparr>members_table := []\<rparr>)"
| "sql_delete_all T_repositories s = Inr (s\<lparr>repos_table := [], team_repos_table := []\<rparr>)"
| "sql_delete_all T_team_repositories s = Inr (s\<lparr>team_repos_table := []\<rparr>)"
| "sql_delete_all T_app_config s = Inr (s\<lparr>config_table := []\<rparr>)"
| "sql_delete_all T_team_leaders s = Inr (s\<lparr>leaders_table := []\<rparr>)"

end
