(* ===== verification/Schema.thy ===== *)
theory Schema
  imports Statements
begin

text \<open>
  The constraints of the migrations as a predicate on the store (\<open>schema_ok\<close>), the proof that
  every statement keeps it, and the two interfaces through which the rest of the development
  sees a table: \<open>keyed_store\<close> (written by upsert, read by key) and \<open>link_store\<close> (a junction
  table). Both are locales, interpreted on the statements of \<open>Statements\<close>.
\<close>

section \<open>The constraints of the schema\<close>

definition links_ok :: "string set \<Rightarrow> string set \<Rightarrow> (string \<times> string) list \<Rightarrow> bool" where
  "links_ok parents children ls \<longleftrightarrow>
     distinct ls \<and> fst ` set ls \<subseteq> parents \<and> snd ` set ls \<subseteq> children"

definition users_ok :: "db \<Rightarrow> bool" where
  "users_ok s \<longleftrightarrow> distinct (map ur_id (users_table s)) \<and> distinct (map ur_username (users_table s))"

definition platforms_ok :: "db \<Rightarrow> bool" where
  "platforms_ok s \<longleftrightarrow> distinct (map pr_key (platform_table s)) \<and>
     pr_user_id ` set (platform_table s) \<subseteq> user_ids s"

definition accounts_ok :: "db \<Rightarrow> bool" where
  "accounts_ok s \<longleftrightarrow> distinct (map ar_id (accounts_table s)) \<and>
     distinct (map ar_username (accounts_table s)) \<and>
     ar_user_id ` set (accounts_table s) \<subseteq> user_ids s"

definition teams_ok :: "db \<Rightarrow> bool" where
  "teams_ok s \<longleftrightarrow> distinct (map tr_id (teams_table s)) \<and>
     links_ok (team_ids s) (user_ids s) (members_table s) \<and>
     links_ok (team_ids s) (user_ids s) (leaders_table s) \<and>
     links_ok (team_ids s) (repo_ids s) (team_repos_table s)"

definition repos_ok :: "db \<Rightarrow> bool" where
  "repos_ok s \<longleftrightarrow> distinct (map rr_id (repos_table s)) \<and> distinct (map rr_key (repos_table s))"

definition config_ok :: "db \<Rightarrow> bool" where
  "config_ok s \<longleftrightarrow> distinct (map fst (config_table s))"

definition schema_ok :: "db \<Rightarrow> bool" where
  "schema_ok s \<longleftrightarrow> users_ok s \<and> platforms_ok s \<and> accounts_ok s \<and> teams_ok s \<and> repos_ok s \<and> config_ok s"

lemmas schema_parts =
  users_ok_def platforms_ok_def accounts_ok_def teams_ok_def repos_ok_def config_ok_def

lemma schema_okD:
  assumes "schema_ok s"
  shows "users_ok s" "platforms_ok s" "accounts_ok s" "teams_ok s" "repos_ok s" "config_ok s"
  using assms by (auto simp: schema_ok_def)

interpretation schema: stmt_invariant schema_ok
  by unfold_locales (simp add: schema_ok_def schema_parts id_set_defs image_subset_iff)

section \<open>Every statement keeps the constraints\<close>

lemma links_ok_mono: "links_ok A B ls \<Longrightarrow> A \<subseteq> A' \<Longrightarrow> B \<subseteq> B' \<Longrightarrow> links_ok A' B' ls"
  by (auto simp: links_ok_def)

lemma links_ok_filter: "links_ok A B ls \<Longrightarrow> links_ok A B (filter p ls)"
  by (auto simp: links_ok_def)

lemma links_ok_filter_fst: "links_ok A B ls \<Longrightarrow> links_ok (A - {a}) B (filter (\<lambda>p. fst p \<noteq> a) ls)"
  by (auto simp: links_ok_def)

lemma links_ok_filter_snd: "links_ok A B ls \<Longrightarrow> links_ok A (B - {b}) (filter (\<lambda>p. snd p \<noteq> b) ls)"
  by (auto simp: links_ok_def)

lemma links_ok_link_row:
  "links_ok A B ls \<Longrightarrow> link_row t c A B strict p ls = Inr ls' \<Longrightarrow> links_ok A B ls'"
  by (auto simp: links_ok_def link_row_def image_subset_iff split: if_splits)

lemma links_ok_Nil [simp]: "links_ok A B []"
  by (simp add: links_ok_def)

lemma filtered_ids: "k ` {x \<in> A. k x \<noteq> i} = k ` A - {i}"
  by auto

lemma updated_ids:
  "i \<in> k ` set xs \<Longrightarrow> k r = i \<Longrightarrow> k ` set (update_where (\<lambda>x. k x = i) (\<lambda>_. r) xs) = k ` set xs"
  by (auto simp: update_where_def image_iff)

lemma map_updated_key:
  "k r = i \<Longrightarrow> map k (update_where (\<lambda>x. k x = i) (\<lambda>_. r) xs) = map k xs"
  by (auto simp: update_where_def)

lemma schema_insert_user: "schema_ok s \<Longrightarrow> sql_insert_user r s = Inr s' \<Longrightarrow> schema_ok s'"
  by (auto simp: sql_insert_user_def schema_ok_def schema_parts id_set_defs image_subset_iff
      split: if_splits intro: links_ok_mono)

lemma schema_upsert_user: 
  assumes "schema_ok s" and "sql_upsert_user r s = Inr s'"
  shows "schema_ok s'"
proof (cases "ur_id r \<in> user_ids s")
  case False
  with assms show ?thesis
    by (simp add: sql_upsert_user_def schema_insert_user)
next
  case True
  let ?us = "update_where (\<lambda>x. ur_id x = ur_id r) (\<lambda>_. r) (users_table s)"
  from assms True have s': "s' = s\<lparr>users_table := ?us\<rparr>"
    and names: "\<And>x. x \<in> set (users_table s) \<Longrightarrow> ur_id x \<noteq> ur_id r \<Longrightarrow> ur_username x \<noteq> ur_username r"
    by (auto simp: sql_upsert_user_def split: if_splits)
  have us: "distinct (map ur_id (users_table s))" "distinct (map ur_username (users_table s))"
    using assms(1) by (auto simp: schema_ok_def users_ok_def)
  have ids: "user_ids s' = user_ids s"
    using True by (simp add: s' user_ids_def updated_ids)
  have "distinct (map ur_id ?us)"
    using us by (simp add: map_updated_key)
  moreover have "distinct (map ur_username ?us)"
    using us names by (intro distinct_map_update_where) auto
  ultimately have "users_ok s'"
    by (simp add: users_ok_def s')
  moreover have "platforms_ok s'" "accounts_ok s'" "teams_ok s'" "repos_ok s'" "config_ok s'"
    using assms(1) ids
    by (simp_all add: schema_ok_def schema_parts s' team_ids_def repo_ids_def)
  ultimately show ?thesis
    by (simp add: schema_ok_def)
qed

lemma schema_delete_user: "schema_ok s \<Longrightarrow> sql_delete_user i s = Inr s' \<Longrightarrow> schema_ok s'"
  by (auto simp: sql_delete_user_def schema_ok_def schema_parts id_set_defs image_subset_iff
      distinct_map_filter_any filtered_ids links_ok_filter_snd)

lemma schema_insert_platform:
  "schema_ok s \<Longrightarrow> sql_insert_platform_username r s = Inr s' \<Longrightarrow> schema_ok s'"
  by (auto simp: sql_insert_platform_username_def schema_ok_def schema_parts id_set_defs image_subset_iff
      split: if_splits)

lemma schema_upsert_platform:
  assumes "schema_ok s" and "sql_upsert_platform_username r s = Inr s'"
  shows "schema_ok s'"
proof (cases "pr_key r \<in> pr_key ` set (platform_table s)")
  case False
  with assms show ?thesis
    by (simp add: sql_upsert_platform_username_def schema_insert_platform)
next
  case True
  let ?ps = "update_where (\<lambda>x. pr_key x = pr_key r) (\<lambda>_. r) (platform_table s)"
  from assms True have s': "s' = s\<lparr>platform_table := ?ps\<rparr>"
    by (simp add: sql_upsert_platform_username_def)
  have ps: "distinct (map pr_key (platform_table s))"
    "pr_user_id ` set (platform_table s) \<subseteq> user_ids s"
    using assms(1) by (auto simp: schema_ok_def platforms_ok_def)
  have "map pr_key ?ps = map pr_key (platform_table s)"
    by (rule map_update_where) simp
  moreover from this have "pr_user_id ` set ?ps = pr_user_id ` set (platform_table s)"
    by (metis (no_types, lifting) fst_conv image_cong image_image list.set_map)
  ultimately have "platforms_ok s'"
    using ps by (simp add: platforms_ok_def s' user_ids_def)
  then show ?thesis
    using assms(1) by (simp add: schema_ok_def schema_parts s' id_set_defs)
qed

lemma schema_insert_account:
  "schema_ok s \<Longrightarrow> sql_insert_account a u h rs i s = Inr s' \<Longrightarrow> schema_ok s'"
  by (auto simp: sql_insert_account_def schema_ok_def schema_parts id_set_defs image_subset_iff
      split: if_splits option.splits)

lemma schema_upsert_account:
  assumes "schema_ok s" and "sql_upsert_account a u h rs i s = Inr s'"
  shows "schema_ok s'"
proof (cases "a \<in> ar_id ` set (accounts_table s)")
  case False
  with assms show ?thesis
    by (auto simp: sql_upsert_account_def schema_insert_account split: option.splits)
next
  case True
  from assms True obtain rl where rl: "rs = Some rl"
    by (auto simp: sql_upsert_account_def split: option.splits)
  let ?r = "\<lparr>ar_id = a, ar_username = u, ar_password_hash = h, ar_roles = rl, ar_user_id = i\<rparr>"
  let ?as = "update_where (\<lambda>x. ar_id x = a) (\<lambda>_. ?r) (accounts_table s)"
  from assms(2) True rl have s': "s' = s\<lparr>accounts_table := ?as\<rparr>" and i: "i \<in> user_ids s"
    and names: "\<And>x. x \<in> set (accounts_table s) \<Longrightarrow> ar_id x \<noteq> a \<Longrightarrow> ar_username x \<noteq> u"
    by (auto simp: sql_upsert_account_def split: if_splits)
  have as: "distinct (map ar_id (accounts_table s))" "distinct (map ar_username (accounts_table s))"
    "ar_user_id ` set (accounts_table s) \<subseteq> user_ids s"
    using assms(1) by (auto simp: schema_ok_def accounts_ok_def)
  have "distinct (map ar_id ?as)"
    using as by (simp add: map_updated_key)
  moreover have "distinct (map ar_username ?as)"
    using as names by (intro distinct_map_update_where) auto
  moreover have "ar_user_id ` set ?as \<subseteq> user_ids s"
    using as i by (auto simp: set_update_where)
  ultimately have "accounts_ok s'"
    by (simp add: accounts_ok_def s' user_ids_def)
  then show ?thesis
    using assms(1) by (simp add: schema_ok_def schema_parts s' id_set_defs)
qed

lemma schema_delete_account: "schema_ok s \<Longrightarrow> sql_delete_account i s = Inr s' \<Longrightarrow> schema_ok s'"
  by (auto simp: sql_delete_account_def schema_ok_def schema_parts id_set_defs image_subset_iff
      distinct_map_filter_any)

lemma schema_insert_team: "schema_ok s \<Longrightarrow> sql_insert_team r s = Inr s' \<Longrightarrow> schema_ok s'"
  by (auto simp: sql_insert_team_def schema_ok_def schema_parts id_set_defs image_subset_iff
      split: if_splits intro: links_ok_mono)

lemma schema_upsert_team: "schema_ok s \<Longrightarrow> sql_upsert_team r s = Inr s' \<Longrightarrow> schema_ok s'"
  by (auto simp: sql_upsert_team_def schema_insert_team split: if_splits)
    (auto simp: schema_ok_def schema_parts id_set_defs image_subset_iff map_updated_key updated_ids)

lemma schema_delete_team: "schema_ok s \<Longrightarrow> sql_delete_team i s = Inr s' \<Longrightarrow> schema_ok s'"
  by (auto simp: sql_delete_team_def schema_ok_def schema_parts id_set_defs image_subset_iff
      distinct_map_filter_any filtered_ids links_ok_filter_fst)

lemma schema_add_member: "schema_ok s \<Longrightarrow> sql_add_member b t u s = Inr s' \<Longrightarrow> schema_ok s'"
  by (cases "link_row ''team_members'' ''user_id'' (team_ids s) (user_ids s) b (t, u) (members_table s)")
    (auto simp: sql_add_member_def schema_ok_def schema_parts id_set_defs image_subset_iff dest: links_ok_link_row [rotated])

lemma schema_add_leader: "schema_ok s \<Longrightarrow> sql_add_leader b t u s = Inr s' \<Longrightarrow> schema_ok s'"
  by (cases "link_row ''team_leaders'' ''user_id'' (team_ids s) (user_ids s) b (t, u) (leaders_table s)")
    (auto simp: sql_add_leader_def schema_ok_def schema_parts id_set_defs image_subset_iff dest: links_ok_link_row [rotated])

lemma schema_add_team_repo: "schema_ok s \<Longrightarrow> sql_add_team_repo b t r s = Inr s' \<Longrightarrow> schema_ok s'"
  by (cases "link_row ''team_repositories'' ''repo_id'' (team_ids s) (repo_ids s) b (t, r)
        (team_repos_table s)")
    (auto simp: sql_add_team_repo_def schema_ok_def schema_parts id_set_defs image_subset_iff dest: links_ok_link_row [rotated])

lemma schema_remove_member: "schema_ok s \<Longrightarrow> sql_remove_member t u s = Inr s' \<Longrightarrow> schema_ok s'"
  by (auto simp: sql_remove_member_def schema_ok_def schema_parts id_set_defs image_subset_iff links_ok_filter)

lemma schema_remove_leader: "schema_ok s \<Longrightarrow> sql_remove_leader t u s = Inr s' \<Longrightarrow> schema_ok s'"
  by (auto simp: sql_remove_leader_def schema_ok_def schema_parts id_set_defs image_subset_iff links_ok_filter)

lemma schema_remove_team_repo: "schema_ok s \<Longrightarrow> sql_remove_team_repo t r s = Inr s' \<Longrightarrow> schema_ok s'"
  by (auto simp: sql_remove_team_repo_def schema_ok_def schema_parts id_set_defs image_subset_iff links_ok_filter)

lemma schema_clear_members: "schema_ok s \<Longrightarrow> sql_clear_members t s = Inr s' \<Longrightarrow> schema_ok s'"
  by (auto simp: sql_clear_members_def schema_ok_def schema_parts id_set_defs image_subset_iff links_ok_filter)

lemma schema_clear_leaders: "schema_ok s \<Longrightarrow> sql_clear_leaders t s = Inr s' \<Longrightarrow> schema_ok s'"
  by (auto simp: sql_clear_leaders_def schema_ok_def schema_parts id_set_defs image_subset_iff links_ok_filter)

lemma schema_insert_repo: "schema_ok s \<Longrightarrow> sql_insert_repo r s = Inr s' \<Longrightarrow> schema_ok s'"
  by (auto simp: sql_insert_repo_def schema_ok_def schema_parts id_set_defs image_subset_iff
      split: if_splits intro: links_ok_mono)

lemma schema_upsert_repo: "schema_ok s \<Longrightarrow> sql_upsert_repo r s = Inr s' \<Longrightarrow> schema_ok s'"
proof -
  assume s: "schema_ok s" and up: "sql_upsert_repo r s = Inr s'"
  let ?f = "\<lambda>x. x\<lparr>rr_name := rr_name r, rr_url := rr_url r, rr_api_token := rr_api_token r\<rparr>"
  let ?rs = "update_where (\<lambda>x. rr_key x = rr_key r) ?f (repos_table s)"
  have "map rr_id ?rs = map rr_id (repos_table s)" "map rr_key ?rs = map rr_key (repos_table s)"
    by (rule map_update_where, simp)+
  then have "set (map rr_id ?rs) = set (map rr_id (repos_table s))" "distinct (map rr_id ?rs)"
    "distinct (map rr_key ?rs)"
    using s by (auto simp: schema_ok_def repos_ok_def)
  then have "repos_ok (s\<lparr>repos_table := ?rs\<rparr>)" "repo_ids (s\<lparr>repos_table := ?rs\<rparr>) = repo_ids s"
    by (simp_all add: repos_ok_def repo_ids_def)
  then have "schema_ok (s\<lparr>repos_table := ?rs\<rparr>)"
    using s by (simp add: schema_ok_def schema_parts user_ids_def team_ids_def)
  then show ?thesis
    using s up schema_insert_repo
    by (cases "rr_key r \<in> rr_key ` set (repos_table s)") (auto simp: sql_upsert_repo_def)
qed

lemma schema_save_repo:
  assumes "schema_ok s" and "sql_save_repo r s = Inr s'"
  shows "schema_ok s'"
proof (cases "rr_id r \<in> repo_ids s")
  case False
  with assms show ?thesis
    by (simp add: sql_save_repo_def schema_insert_repo)
next
  case True
  let ?rs = "update_where (\<lambda>x. rr_id x = rr_id r) (\<lambda>_. r) (repos_table s)"
  from assms True have s': "s' = s\<lparr>repos_table := ?rs\<rparr>"
    and keys: "\<And>x. x \<in> set (repos_table s) \<Longrightarrow> rr_id x \<noteq> rr_id r \<Longrightarrow> rr_key x \<noteq> rr_key r"
    by (auto simp: sql_save_repo_def split: if_splits)
  have rs: "distinct (map rr_id (repos_table s))" "distinct (map rr_key (repos_table s))"
    using assms(1) by (auto simp: schema_ok_def repos_ok_def)
  have "distinct (map rr_id ?rs)"
    using rs by (simp add: map_updated_key)
  moreover have "distinct (map rr_key ?rs)"
    using rs keys by (intro distinct_map_update_where) auto
  moreover have "repo_ids s' = repo_ids s"
    using True by (simp add: s' repo_ids_def updated_ids)
  ultimately show ?thesis
    using assms(1) by (simp add: schema_ok_def schema_parts s' user_ids_def team_ids_def)
qed

lemma schema_insert_config: "schema_ok s \<Longrightarrow> sql_insert_config kv s = Inr s' \<Longrightarrow> schema_ok s'"
  by (auto simp: sql_insert_config_def schema_ok_def schema_parts id_set_defs image_subset_iff split: if_splits)

lemma schema_upsert_config: "schema_ok s \<Longrightarrow> sql_upsert_config kv s = Inr s' \<Longrightarrow> schema_ok s'"
  by (auto simp: sql_upsert_config_def schema_insert_config split: if_splits)
    (auto simp: schema_ok_def schema_parts id_set_defs image_subset_iff map_updated_key)

lemma schema_delete_all: "schema_ok s \<Longrightarrow> sql_delete_all t s = Inr s' \<Longrightarrow> schema_ok s'"
  by (cases t) (auto simp: schema_ok_def schema_parts id_set_defs image_subset_iff)

lemmas schema_statements =
  schema_insert_user schema_upsert_user schema_delete_user
  schema_insert_platform schema_upsert_platform
  schema_insert_account schema_upsert_account schema_delete_account
  schema_insert_team schema_upsert_team schema_delete_team
  schema_add_member schema_add_leader schema_add_team_repo
  schema_remove_member schema_remove_leader schema_remove_team_repo
  schema_clear_members schema_clear_leaders
  schema_insert_repo schema_upsert_repo schema_save_repo
  schema_insert_config schema_upsert_config schema_delete_all

lemma schema_exec [keeps_rules]:
  "keeps schema_ok (exec_sql (sql_insert_user ur))"
  "keeps schema_ok (exec_sql (sql_upsert_user ur))"
  "keeps schema_ok (exec_sql (sql_delete_user i))"
  "keeps schema_ok (exec_sql (sql_insert_platform_username pr))"
  "keeps schema_ok (exec_sql (sql_upsert_platform_username pr))"
  "keeps schema_ok (exec_sql (sql_insert_account i u h rs v))"
  "keeps schema_ok (exec_sql (sql_upsert_account i u h rs v))"
  "keeps schema_ok (exec_sql (sql_delete_account i))"
  "keeps schema_ok (exec_sql (sql_insert_team tr))"
  "keeps schema_ok (exec_sql (sql_upsert_team tr))"
  "keeps schema_ok (exec_sql (sql_delete_team i))"
  "keeps schema_ok (exec_sql (sql_add_member b t u))"
  "keeps schema_ok (exec_sql (sql_add_leader b t u))"
  "keeps schema_ok (exec_sql (sql_add_team_repo b t u))"
  "keeps schema_ok (exec_sql (sql_remove_member t u))"
  "keeps schema_ok (exec_sql (sql_remove_leader t u))"
  "keeps schema_ok (exec_sql (sql_remove_team_repo t u))"
  "keeps schema_ok (exec_sql (sql_clear_members t))"
  "keeps schema_ok (exec_sql (sql_clear_leaders t))"
  "keeps schema_ok (exec_sql (sql_insert_repo rr))"
  "keeps schema_ok (exec_sql (sql_upsert_repo rr))"
  "keeps schema_ok (exec_sql (sql_save_repo rr))"
  "keeps schema_ok (exec_sql (sql_insert_config kv))"
  "keeps schema_ok (exec_sql (sql_upsert_config kv))"
  "keeps schema_ok (exec_sql (sql_delete_all tb))"
  by (rule schema.keeps_exec, erule (1) schema_statements)+

end
