(* ===== verification/Stores.thy ===== *)
theory Stores
  imports Schema
begin

text \<open>
  The two interfaces through which the repositories see their tables. \<open>keyed_store\<close>: rows
  written by upsert and read by key. \<open>link_store\<close>: a junction table with an idempotent insert
  and a delete. The client lemmas are proved once inside the locales and interpreted on the
  statements for users, accounts, teams, repositories, platform usernames and configuration,
  and for the members, leaders and repositories of teams.
\<close>

section \<open>Statements leave the schedule alone\<close>

lemma sql_faults:
  "sql_insert_user r s = Inr s' \<Longrightarrow> faults s' = faults s"
  "sql_upsert_user r s = Inr s' \<Longrightarrow> faults s' = faults s"
  "sql_delete_user i s = Inr s' \<Longrightarrow> faults s' = faults s"
  "sql_insert_platform_username p s = Inr s' \<Longrightarrow> faults s' = faults s"
  "sql_upsert_platform_username p s = Inr s' \<Longrightarrow> faults s' = faults s"
  "sql_insert_account a u h rs i s = Inr s' \<Longrightarrow> faults s' = faults s"
  "sql_upsert_account a u h rs i s = Inr s' \<Longrightarrow> faults s' = faults s"
  "sql_delete_account i s = Inr s' \<Longrightarrow> faults s' = faults s"
  "sql_insert_team tr s = Inr s' \<Longrightarrow> faults s' = faults s"
  "sql_upsert_team tr s = Inr s' \<Longrightarrow> faults s' = faults s"
  "sql_delete_team i s = Inr s' \<Longrightarrow> faults s' = faults s"
  "sql_remove_member t u s = Inr s' \<Longrightarrow> faults s' = faults s"
  "sql_remove_leader t u s = Inr s' \<Longrightarrow> faults s' = faults s"
  "sql_remove_team_repo t u s = Inr s' \<Longrightarrow> faults s' = faults s"
  "sql_clear_members t s = Inr s' \<Longrightarrow> faults s' = faults s"
  "sql_clear_leaders t s = Inr s' \<Longrightarrow> faults s' = faults s"
  "sql_insert_repo rr s = Inr s' \<Longrightarrow> faults s' = faults s"
  "sql_save_repo rr s = Inr s' \<Longrightarrow> faults s' = faults s"
  "sql_upsert_repo rr s = Inr s' \<Longrightarrow> faults s' = faults s"
  "sql_insert_config kv s = Inr s' \<Longrightarrow> faults s' = faults s"
  "sql_upsert_config kv s = Inr s' \<Longrightarrow> faults s' = faults s"
  by (auto simp: sql_defs split: if_splits option.splits)

lemma map_sum_id_Inr [simp]: "map_sum id f x = Inr y \<longleftrightarrow> (\<exists>z. x = Inr z \<and> y = f z)"
  by (cases x) auto

lemma map_sum_id_Inl [simp]: "map_sum id f x = Inl e \<longleftrightarrow> x = Inl e"
  by (cases x) auto

lemma sql_link_faults:
  "sql_add_member b t u s = Inr s' \<Longrightarrow> faults s' = faults s"
  "sql_add_leader b t u s = Inr s' \<Longrightarrow> faults s' = faults s"
  "sql_add_team_repo b t u s = Inr s' \<Longrightarrow> faults s' = faults s"
  by (auto simp: sql_add_member_def sql_add_leader_def sql_add_team_repo_def)

lemma sql_delete_all_faults: "sql_delete_all tb s = Inr s' \<Longrightarrow> faults s' = faults s"
  by (cases tb) auto

lemma keeps_healthy_exec:
  assumes "\<And>s s'. f s = Inr s' \<Longrightarrow> faults s' = faults s"
  shows "keeps healthy (exec_sql f)"
  using assms by (auto simp: keeps_def run_exec_healthy healthy_def split: sum.splits)

interpretation healthy_reads: read_invariant healthy
  by unfold_locales (simp add: keeps_def run_rules)

lemma keeps_healthy_in_tx [keeps_rules]: "keeps healthy body \<Longrightarrow> keeps healthy (in_tx msg body)"
  unfolding keeps_def
proof (intro allI impI)
  fix s assume body: "\<forall>s. healthy s \<longrightarrow> healthy (snd (run_state body s))" and "healthy s"
  obtain r s' where run: "run_state body s = (r, s')" by fastforce
  with body \<open>healthy s\<close> have "healthy s'" by (metis snd_conv)
  with run_in_tx_healthy [OF \<open>healthy s\<close> run, of msg] \<open>healthy s\<close>
  show "healthy (snd (run_state (in_tx msg body) s))"
    by (cases r) simp_all
qed

lemma healthy_exec [keeps_rules]:
  "keeps healthy (exec_sql (sql_insert_user ur))"
  "keeps healthy (exec_sql (sql_upsert_user ur))"
  "keeps healthy (exec_sql (sql_delete_user i))"
  "keeps healthy (exec_sql (sql_insert_platform_username pr))"
  "keeps healthy (exec_sql (sql_upsert_platform_username pr))"
  "keeps healthy (exec_sql (sql_insert_account i u h rs v))"
  "keeps healthy (exec_sql (sql_upsert_account i u h rs v))"
  "keeps healthy (exec_sql (sql_delete_account i))"
  "keeps healthy (exec_sql (sql_insert_team tr))"
  "keeps healthy (exec_sql (sql_upsert_team tr))"
  "keeps healthy (exec_sql (sql_delete_team i))"
  "keeps healthy (exec_sql (sql_add_member b t u))"
  "keeps healthy (exec_sql (sql_add_leader b t u))"
  "keeps healthy (exec_sql (sql_add_team_repo b t u))"
  "keeps healthy (exec_sql (sql_remove_member t u))"
  "keeps healthy (exec_sql (sql_remove_leader t u))"
  "keeps healthy (exec_sql (sql_remove_team_repo t u))"
  "keeps healthy (exec_sql (sql_clear_members t))"
  "keeps healthy (exec_sql (sql_clear_leaders t))"
  "keeps healthy (exec_sql (sql_insert_repo rr))"
  "keeps healthy (exec_sql (sql_upsert_repo rr))"
  "keeps healthy (exec_sql (sql_save_repo rr))"
  "keeps healthy (exec_sql (sql_insert_config kv))"
  "keeps healthy (exec_sql (sql_upsert_config kv))"
  "keeps healthy (exec_sql (sql_delete_all tb))"
  by (rule keeps_healthy_exec, erule sql_faults sql_link_faults sql_delete_all_faults)+

section \<open>Rows by key\<close>

definition by_key :: "('r \<Rightarrow> 'k) \<Rightarrow> 'k \<Rightarrow> 'r list \<Rightarrow> 'r list" where
  "by_key key k rows = filter (\<lambda>r. key r = k) rows"

lemma by_key_update_same:
  "distinct (map key xs) \<Longrightarrow> k \<in> key ` set xs \<Longrightarrow> key r = k
   \<Longrightarrow> by_key key k (update_where (\<lambda>x. key x = k) (\<lambda>_. r) xs) = [r]"
proof (induction xs)
  case Nil
  then show ?case by simp
next
  case (Cons x xs)
  have rest: "by_key key k (update_where (\<lambda>x. key x = k) (\<lambda>_. r) xs) = []" if "key x = k"
    using Cons.prems(1) that by (auto simp: by_key_def update_where_def filter_empty_conv rev_image_eqI)
  show ?case
    using Cons rest by (cases "key x = k") (auto simp: by_key_def update_where_def)
qed

lemma by_key_update_other:
  "key r = i \<Longrightarrow> k \<noteq> i \<Longrightarrow> by_key key k (update_where (\<lambda>x. key x = i) (\<lambda>_. r) xs) = by_key key k xs"
  by (induction xs) (auto simp: by_key_def update_where_def)

lemma by_key_append: "by_key key k (xs @ ys) = by_key key k xs @ by_key key k ys"
  by (simp add: by_key_def)

lemma by_key_empty: "by_key key k xs = [] \<longleftrightarrow> k \<notin> key ` set xs"
  by (auto simp: by_key_def filter_empty_conv)

lemma by_key_single [simp]: "by_key key k [r] = (if key r = k then [r] else [])"
  by (simp add: by_key_def)

lemma by_key_distinct: "distinct (map key xs) \<Longrightarrow> r \<in> set xs \<Longrightarrow> by_key key (key r) xs = [r]"
  by (simp add: by_key_def filter_key_singleton)

lemma by_key_cases:
  assumes "distinct (map key xs)"
  obtains (absent) "by_key key k xs = []" "k \<notin> key ` set xs"
  | (present) r where "by_key key k xs = [r]" "r \<in> set xs" "key r = k"
  using assms by_key_distinct by_key_empty by (metis imageE)

section \<open>The interface of a table with a key\<close>

locale keyed_store =
  fixes put :: "'r \<Rightarrow> db \<Rightarrow> db_error + db"
    and sel :: "'k \<Rightarrow> db \<Rightarrow> 'r list"
    and key :: "'r \<Rightarrow> 'k"
  assumes put_faults: "put r s = Inr s' \<Longrightarrow> faults s' = faults s"
    and put_schema: "schema_ok s \<Longrightarrow> put r s = Inr s' \<Longrightarrow> schema_ok s'"
    and put_same: "schema_ok s \<Longrightarrow> put r s = Inr s' \<Longrightarrow> sel (key r) s' = [r]"
    and put_other: "schema_ok s \<Longrightarrow> put r s = Inr s' \<Longrightarrow> k \<noteq> key r \<Longrightarrow> sel k s' = sel k s"
begin

text \<open>A row that was written is the row that is read.\<close>

lemma read_your_write:
  assumes "schema_ok s" "healthy s" "run_state (exec_sql (put r)) s = (Inr u, s')"
  shows "run_state (query_row (sel (key r))) s' = (Inr r, s')"
proof -
  from assms have put: "put r s = Inr s'"
    by (auto simp: run_rules split: sum.splits)
  then have "healthy s'"
    using put_faults assms(2) by (simp add: healthy_def)
  then show ?thesis
    using put_same [OF assms(1) put] by (simp add: run_rules)
qed

text \<open>Rows under other keys are read as before.\<close>

lemma write_frame:
  assumes "schema_ok s" "healthy s" "run_state (exec_sql (put r)) s = (res, s')" "k \<noteq> key r"
  shows "fst (run_state (query_row (sel k)) s') = fst (run_state (query_row (sel k)) s)"
proof (cases "put r s")
  case (Inl e)
  with assms show ?thesis by (auto simp: run_rules)
next
  case (Inr s1)
  with assms have "s' = s1" by (simp add: run_rules)
  moreover have "healthy s1"
    using put_faults [OF Inr] assms(2) by (simp add: healthy_def)
  ultimately show ?thesis
    using put_other [OF assms(1) Inr assms(4)] assms(2) by (simp add: run_rules)
qed

text \<open>The last of two writes under one key wins.\<close>

lemma last_write_wins:
  "schema_ok s \<Longrightarrow> put r s = Inr s1 \<Longrightarrow> put r' s1 = Inr s2 \<Longrightarrow> key r' = key r \<Longrightarrow> sel (key r) s2 = [r']"
  using put_same put_schema by metis

end

text \<open>What an upsert on the key does to the rows, and how such rows are read.\<close>

definition upsert_rows :: "('r \<Rightarrow> 'k) \<Rightarrow> 'r \<Rightarrow> 'r list \<Rightarrow> 'r list" where
  "upsert_rows key r xs =
     (if key r \<in> key ` set xs then update_where (\<lambda>x. key x = key r) (\<lambda>_. r) xs else xs @ [r])"

lemma by_key_upsert_same: "distinct (map key xs) \<Longrightarrow> by_key key (key r) (upsert_rows key r xs) = [r]"
  by (simp add: upsert_rows_def by_key_update_same by_key_append by_key_empty)

lemma by_key_upsert_other: "k \<noteq> key r \<Longrightarrow> by_key key k (upsert_rows key r xs) = by_key key k xs"
  by (simp add: upsert_rows_def by_key_update_other by_key_append)

lemma upsert_statements:
  "sql_upsert_user ur s = Inr s' \<Longrightarrow> users_table s' = upsert_rows ur_id ur (users_table s)"
  "sql_upsert_platform_username pr s = Inr s' \<Longrightarrow> platform_table s' = upsert_rows pr_key pr (platform_table s)"
  "sql_upsert_team tr s = Inr s' \<Longrightarrow> teams_table s' = upsert_rows tr_id tr (teams_table s)"
  "sql_save_repo rr s = Inr s' \<Longrightarrow> repos_table s' = upsert_rows rr_id rr (repos_table s)"
  "sql_upsert_config kv s = Inr s' \<Longrightarrow> config_table s' = upsert_rows fst kv (config_table s)"
  unfolding sql_upsert_user_def sql_insert_user_def sql_upsert_platform_username_def
    sql_insert_platform_username_def sql_upsert_team_def sql_insert_team_def sql_save_repo_def
    sql_insert_repo_def sql_upsert_config_def sql_insert_config_def upsert_rows_def id_set_defs
  by (simp split: if_splits; drule sym; simp)+

lemma upsert_account_statement:
  fixes r :: account_row
  assumes "sql_upsert_account (ar_id r) (ar_username r) (ar_password_hash r)
      (Some (ar_roles r)) (ar_user_id r) s = Inr s'"
  shows "accounts_table s' = upsert_rows ar_id r (accounts_table s)"
  using assms unfolding sql_upsert_account_def sql_insert_account_def upsert_rows_def
  by (cases r) (auto split: if_splits)

lemma schema_keys:
  assumes "schema_ok s"
  shows "distinct (map ur_id (users_table s))" "distinct (map pr_key (platform_table s))"
    "distinct (map ar_id (accounts_table s))" "distinct (map tr_id (teams_table s))"
    "distinct (map rr_id (repos_table s))" "distinct (map fst (config_table s))"
  using assms by (simp_all add: schema_ok_def schema_parts)

interpretation users: keyed_store sql_upsert_user "\<lambda>k s. by_key ur_id k (users_table s)" ur_id
  by unfold_locales
    (simp_all add: sql_faults(2) upsert_statements by_key_upsert_same by_key_upsert_other schema_keys
      schema_upsert_user)

interpretation platform_names: keyed_store sql_upsert_platform_username
  "\<lambda>k s. by_key pr_key k (platform_table s)" pr_key
proof unfold_locales
  fix r s s' k
  assume ok: "schema_ok s" and up: "sql_upsert_platform_username r s = Inr s'"
  note rows = upsert_statements(2) [OF up]
  show "by_key pr_key (pr_key r) (platform_table s') = [r]"
    unfolding rows by (rule by_key_upsert_same [OF schema_keys(2) [OF ok]])
  show "by_key pr_key k (platform_table s') = by_key pr_key k (platform_table s)" if "k \<noteq> pr_key r"
    unfolding rows using that by (rule by_key_upsert_other)
qed (auto intro: schema_upsert_platform sql_faults)

interpretation accounts: keyed_store
  "\<lambda>r. sql_upsert_account (ar_id r) (ar_username r) (ar_password_hash r) (Some (ar_roles r)) (ar_user_id r)"
  "\<lambda>k s. by_key ar_id k (accounts_table s)" ar_id
  by unfold_locales
    (simp_all add: sql_faults(7) upsert_account_statement by_key_upsert_same by_key_upsert_other schema_keys
      schema_upsert_account)

interpretation teams: keyed_store sql_upsert_team "\<lambda>k s. by_key tr_id k (teams_table s)" tr_id
  by unfold_locales
    (simp_all add: sql_faults(10) upsert_statements by_key_upsert_same by_key_upsert_other schema_keys
      schema_upsert_team)

interpretation repos: keyed_store sql_save_repo "\<lambda>k s. by_key rr_id k (repos_table s)" rr_id
  by unfold_locales
    (simp_all add: sql_faults(18) upsert_statements by_key_upsert_same by_key_upsert_other schema_keys
      schema_save_repo)

interpretation configs: keyed_store sql_upsert_config "\<lambda>k s. by_key fst k (config_table s)" fst
  by unfold_locales
    (simp_all add: sql_faults(21) upsert_statements by_key_upsert_same by_key_upsert_other schema_keys
      schema_upsert_config)

section \<open>The interface of a junction table\<close>

lemma mem_linked [simp]: "u \<in> set (linked ls t) \<longleftrightarrow> (t, u) \<in> set ls"
  by (force simp: linked_def)

lemma distinct_linked: "distinct ls \<Longrightarrow> distinct (linked ls t)"
  by (auto simp: linked_def distinct_map inj_on_def intro!: distinct_filter)

locale link_store =
  fixes add :: "string \<Rightarrow> string \<Rightarrow> db \<Rightarrow> db_error + db"
    and remove :: "string \<Rightarrow> string \<Rightarrow> db \<Rightarrow> db_error + db"
    and links :: "db \<Rightarrow> (string \<times> string) list"
  assumes add_links: "add t u s = Inr s' \<Longrightarrow>
      links s' = (if (t, u) \<in> set (links s) then links s else links s @ [(t, u)])"
    and add_present: "(t, u) \<in> set (links s) \<Longrightarrow> add t u s = Inr s"
    and remove_links: "remove t u s = Inr s' \<Longrightarrow> links s' = filter (\<lambda>p. p \<noteq> (t, u)) (links s)"
    and remove_total: "\<exists>s'. remove t u s = Inr s'"
begin

lemma linked_add:
  "add t u s = Inr s' \<Longrightarrow> set (linked (links s') t') =
     (if t' = t then insert u (set (linked (links s) t')) else set (linked (links s) t'))"
  by (auto simp: add_links)

lemma linked_remove:
  "remove t u s = Inr s' \<Longrightarrow> set (linked (links s') t') =
     (if t' = t then set (linked (links s) t') - {u} else set (linked (links s) t'))"
  by (auto simp: remove_links)

lemma add_idem: "add t u s = Inr s' \<Longrightarrow> add t u s' = Inr s'"
  by (rule add_present) (simp add: add_links)

lemma add_then_remove:
  "(t, u) \<notin> set (links s) \<Longrightarrow> add t u s = Inr s1 \<Longrightarrow> remove t u s1 = Inr s2 \<Longrightarrow> links s2 = links s"
  by (auto simp: add_links remove_links intro!: filter_True)

lemma distinct_add: "distinct (links s) \<Longrightarrow> add t u s = Inr s' \<Longrightarrow> distinct (links s')"
  by (simp add: add_links)

end

interpretation member_links: link_store "sql_add_member False" sql_remove_member members_table
  by unfold_locales (auto simp: sql_add_member_def sql_remove_member_def link_row_def split: if_splits)

interpretation leader_links: link_store "sql_add_leader False" sql_remove_leader leaders_table
  by unfold_locales (auto simp: sql_add_leader_def sql_remove_leader_def link_row_def split: if_splits)

interpretation repo_links: link_store "sql_add_team_repo False" sql_remove_team_repo team_repos_table
  by unfold_locales (auto simp: sql_add_team_repo_def sql_remove_team_repo_def link_row_def split: if_splits)

section \<open>The interface of a bulk insert\<close>

text \<open>
  Plain \<open>INSERT\<close> statements in a loop: a row that fits the store is appended, and it leaves room
  for the rows that are apart from it. A loop over rows that fit and are pairwise apart succeeds
  and appends them all, in order.
\<close>

locale bulk_insert =
  fixes ins :: "'r \<Rightarrow> db \<Rightarrow> db_error + db"
    and app :: "'r list \<Rightarrow> db \<Rightarrow> db"
    and fits :: "db \<Rightarrow> 'r \<Rightarrow> bool"
    and apart :: "'r \<Rightarrow> 'r \<Rightarrow> bool"
  assumes ins_fits: "fits s r \<Longrightarrow> ins r s = Inr (app [r] s)"
    and app_Nil: "app [] s = s"
    and app_app: "app ys (app xs s) = app (xs @ ys) s"
    and fits_app: "fits s r' \<Longrightarrow> apart r r' \<Longrightarrow> fits (app [r] s) r'"
    and app_faults: "faults (app xs s) = faults s"
begin

lemma app_healthy: "healthy (app xs s) = healthy s"
  by (simp add: healthy_def app_faults)

lemma insert_all:
  assumes "healthy s" "\<And>r. r \<in> set xs \<Longrightarrow> fits s r" "sorted_wrt apart xs"
  shows "run_state (for_each (\<lambda>r. wrapf (msg r) (exec_sql (ins r))) xs) s = (Inr (), app xs s)"
  using assms
proof (induction xs arbitrary: s)
  case Nil
  then show ?case by (simp add: app_Nil)
next
  case (Cons r xs)
  have one: "run_state (wrapf (msg r) (exec_sql (ins r))) s = (Inr (), app [r] s)"
    using Cons.prems by (simp add: run_wrapf run_exec_healthy ins_fits)
  have "run_state (for_each (\<lambda>r. wrapf (msg r) (exec_sql (ins r))) xs) (app [r] s)
      = (Inr (), app xs (app [r] s))"
    using Cons.prems by (intro Cons.IH) (auto simp: app_healthy fits_app)
  with one show ?case by (simp add: app_app)
qed

end

lemma sorted_wrt_apart: "sorted_wrt (\<lambda>x y. k x \<noteq> k y) xs \<longleftrightarrow> distinct (map k xs)"
  by (induction xs) (auto simp: image_iff)

lemma sorted_wrt_apart2:
  "sorted_wrt (\<lambda>x y. k x \<noteq> k y \<and> j x \<noteq> j y) xs \<longleftrightarrow> distinct (map k xs) \<and> distinct (map j xs)"
  by (induction xs) (auto simp: image_iff)

abbreviation "link_fits parents children \<equiv> \<lambda>ls p. p \<notin> set ls \<and> fst p \<in> parents \<and> snd p \<in> children"

interpretation user_inserts: bulk_insert sql_insert_user
  "\<lambda>rs s. s\<lparr>users_table := users_table s @ rs\<rparr>"
  "\<lambda>s r. ur_id r \<notin> user_ids s \<and> ur_username r \<notin> ur_username ` set (users_table s)"
  "\<lambda>r r'. ur_id r \<noteq> ur_id r' \<and> ur_username r \<noteq> ur_username r'"
  by unfold_locales (auto simp: sql_insert_user_def id_set_defs)

interpretation platform_inserts: bulk_insert sql_insert_platform_username
  "\<lambda>rs s. s\<lparr>platform_table := platform_table s @ rs\<rparr>"
  "\<lambda>s r. pr_key r \<notin> pr_key ` set (platform_table s) \<and> pr_user_id r \<in> user_ids s"
  "\<lambda>r r'. pr_key r \<noteq> pr_key r'"
  by unfold_locales (auto simp: sql_insert_platform_username_def id_set_defs)

interpretation account_inserts: bulk_insert
  "\<lambda>r. sql_insert_account (ar_id r) (ar_username r) (ar_password_hash r) (Some (ar_roles r)) (ar_user_id r)"
  "\<lambda>rs s. s\<lparr>accounts_table := accounts_table s @ rs\<rparr>"
  "\<lambda>s r. ar_id r \<notin> ar_id ` set (accounts_table s) \<and> ar_username r \<notin> ar_username ` set (accounts_table s)
     \<and> ar_user_id r \<in> user_ids s"
  "\<lambda>r r'. ar_id r \<noteq> ar_id r' \<and> ar_username r \<noteq> ar_username r'"
  by unfold_locales (auto simp: sql_insert_account_def id_set_defs)

interpretation team_inserts: bulk_insert sql_insert_team
  "\<lambda>rs s. s\<lparr>teams_table := teams_table s @ rs\<rparr>" "\<lambda>s r. tr_id r \<notin> team_ids s"
  "\<lambda>r r'. tr_id r \<noteq> tr_id r'"
  by unfold_locales (auto simp: sql_insert_team_def id_set_defs)

interpretation repo_inserts: bulk_insert sql_insert_repo
  "\<lambda>rs s. s\<lparr>repos_table := repos_table s @ rs\<rparr>"
  "\<lambda>s r. rr_id r \<notin> repo_ids s \<and> rr_key r \<notin> rr_key ` set (repos_table s)"
  "\<lambda>r r'. rr_id r \<noteq> rr_id r' \<and> rr_key r \<noteq> rr_key r'"
  by unfold_locales (auto simp: sql_insert_repo_def id_set_defs)

interpretation config_inserts: bulk_insert sql_insert_config
  "\<lambda>rs s. s\<lparr>config_table := config_table s @ rs\<rparr>" "\<lambda>s r. fst r \<notin> fst ` set (config_table s)"
  "\<lambda>r r'. fst r \<noteq> fst r'"
  by unfold_locales (auto simp: sql_insert_config_def)

interpretation leader_inserts: bulk_insert "\<lambda>p. sql_add_leader True (fst p) (snd p)"
  "\<lambda>rs s. s\<lparr>leaders_table := leaders_table s @ rs\<rparr>"
  "\<lambda>s. link_fits (team_ids s) (user_ids s) (leaders_table s)" "(\<noteq>)"
  by unfold_locales (auto simp: sql_add_leader_def link_row_def id_set_defs)

interpretation member_inserts: bulk_insert "\<lambda>p. sql_add_member True (fst p) (snd p)"
  "\<lambda>rs s. s\<lparr>members_table := members_table s @ rs\<rparr>"
  "\<lambda>s. link_fits (team_ids s) (user_ids s) (members_table s)" "(\<noteq>)"
  by unfold_locales (auto simp: sql_add_member_def link_row_def id_set_defs)

interpretation team_repo_inserts: bulk_insert "\<lambda>p. sql_add_team_repo True (fst p) (snd p)"
  "\<lambda>rs s. s\<lparr>team_repos_table := team_repos_table s @ rs\<rparr>"
  "\<lambda>s. link_fits (team_ids s) (repo_ids s) (team_repos_table s)" "(\<noteq>)"
  by unfold_locales (auto simp: sql_add_team_repo_def link_row_def id_set_defs)

text \<open>The links of one team, inserted one by one.\<close>

lemma for_each_map: "for_each f (map h xs) = for_each (\<lambda>x. f (h x)) xs"
  by (induction xs) (auto intro!: arg_cong2 [where f = State_Monad.bind] simp: fun_eq_iff split: sum.splits)

lemma apart_links: "sorted_wrt (\<noteq>) (map (Pair t) us) \<longleftrightarrow> distinct us"
  by (induction us) auto

lemma run_insert_leaders:
  assumes "healthy s" "t \<in> team_ids s" "set us \<subseteq> user_ids s" "distinct us"
    "\<forall>u\<in>set us. (t, u) \<notin> set (leaders_table s)"
  shows "run_state (for_each (\<lambda>u. wrapf msg (exec_sql (sql_add_leader True t u))) us) s =
    (Inr (), s\<lparr>leaders_table := leaders_table s @ map (Pair t) us\<rparr>)"
proof -
  have "run_state (for_each (\<lambda>p. wrapf msg (exec_sql (sql_add_leader True (fst p) (snd p)))) (map (Pair t) us)) s =
    (Inr (), s\<lparr>leaders_table := leaders_table s @ map (Pair t) us\<rparr>)"
    using assms by (intro leader_inserts.insert_all) (auto simp: apart_links)
  then show ?thesis by (simp add: for_each_map)
qed

lemma run_insert_members:
  assumes "healthy s" "t \<in> team_ids s" "set us \<subseteq> user_ids s" "distinct us"
    "\<forall>u\<in>set us. (t, u) \<notin> set (members_table s)"
  shows "run_state (for_each (\<lambda>u. wrapf msg (exec_sql (sql_add_member True t u))) us) s =
    (Inr (), s\<lparr>members_table := members_table s @ map (Pair t) us\<rparr>)"
proof -
  have "run_state (for_each (\<lambda>p. wrapf msg (exec_sql (sql_add_member True (fst p) (snd p)))) (map (Pair t) us)) s =
    (Inr (), s\<lparr>members_table := members_table s @ map (Pair t) us\<rparr>)"
    using assms by (intro member_inserts.insert_all) (auto simp: apart_links)
  then show ?thesis by (simp add: for_each_map)
qed

lemma run_insert_team_repos:
  assumes "healthy s" "t \<in> team_ids s" "set rs \<subseteq> repo_ids s" "distinct rs"
    "\<forall>r\<in>set rs. (t, r) \<notin> set (team_repos_table s)"
  shows "run_state (for_each (\<lambda>r. wrapf msg (exec_sql (sql_add_team_repo True t r))) rs) s =
    (Inr (), s\<lparr>team_repos_table := team_repos_table s @ map (Pair t) rs\<rparr>)"
proof -
  have "run_state (for_each (\<lambda>p. wrapf msg (exec_sql (sql_add_team_repo True (fst p) (snd p)))) (map (Pair t) rs)) s =
    (Inr (), s\<lparr>team_repos_table := team_repos_table s @ map (Pair t) rs\<rparr>)"
    using assms by (intro team_repo_inserts.insert_all) (auto simp: apart_links)
  then show ?thesis by (simp add: for_each_map)
qed

end
