(* ===== verification/Application.thy ===== *)
theory Application
  imports Stores
begin

text \<open>
  The application layer's data (\<open>errors.go\<close>, \<open>dto.go\<close>, \<open>events.go\<close>) and the environment: what
  the program takes from packages and services that are not part of the repository. The
  environment is a record of functions, an argument of the operations that use it.
\<close>

section \<open>Application errors\<close>

record app_error =
  app_code :: nat
  app_message :: string
  app_err :: "go_error option"

definition NewNotFoundError :: "string \<Rightarrow> app_error" where
  "NewNotFoundError m = \<lparr>app_code = 404, app_message = m, app_err = None\<rparr>"

definition NewUnauthorizedError :: "string \<Rightarrow> app_error" where
  "NewUnauthorizedError m = \<lparr>app_code = 401, app_message = m, app_err = None\<rparr>"

definition NewForbiddenError :: "string \<Rightarrow> app_error" where
  "NewForbiddenError m = \<lparr>app_code = 403, app_message = m, app_err = None\<rparr>"

definition NewBadRequestError :: "string \<Rightarrow> app_error" where
  "NewBadRequestError m = \<lparr>app_code = 400, app_message = m, app_err = None\<rparr>"

definition NewInternalError :: "string \<Rightarrow> go_error option \<Rightarrow> app_error" where
  "NewInternalError m e = \<lparr>app_code = 500, app_message = m, app_err = e\<rparr>"

definition app_error_text :: "(db_error \<Rightarrow> string) \<Rightarrow> app_error \<Rightarrow> string" where
  "app_error_text drv e =
     (case app_err e of
        Some err \<Rightarrow> app_message e @ '': '' @ error_text drv err
      | None \<Rightarrow> app_message e)"

definition app_error_unwrap :: "app_error \<Rightarrow> go_error option" where
  "app_error_unwrap e = app_err e"

section \<open>Data transfer objects\<close>

record report_query =
  query_team_id :: string
  query_member_id :: string
  query_caller_id :: string
  query_caller_roles :: "(role, bool) go_map"
  query_since :: go_time
  query_until :: go_time
  query_types :: "activity_type list"
  query_report_type :: report_type

record activity_count =
  count_type :: activity_type
  count_count :: nat

record user_report =
  report_user :: user
  report_counts :: "activity_count list"
  report_activities :: "activity list"

record auth_token =
  token_text :: string
  token_expires_at :: int
  token_account_id :: string
  token_roles :: "(role, bool) go_map"

record auth_context =
  ctx_account_id :: string
  ctx_user_id :: string
  ctx_roles :: "(role, bool) go_map"

definition IsAdmin :: "auth_context \<Rightarrow> bool" where
  "IsAdmin ac = map_flag (ctx_roles ac) RoleAdmin"

definition IsTeamLeader :: "auth_context \<Rightarrow> bool" where
  "IsTeamLeader ac = map_flag (ctx_roles ac) RoleTeamLeader"

definition IsTeamMember :: "auth_context \<Rightarrow> bool" where
  "IsTeamMember ac = map_flag (ctx_roles ac) RoleTeamMember"

section \<open>Report events\<close>

datatype report_event =
    UserReportEvent user_report
  | ReportCompleteEvent
  | ReportErrorEvent string

fun event_GetType :: "report_event \<Rightarrow> string" where
  "event_GetType (UserReportEvent r) = ''USER_REPORT''"
| "event_GetType ReportCompleteEvent = ''COMPLETE''"
| "event_GetType (ReportErrorEvent m) = ''ERROR''"

section \<open>The environment\<close>

text \<open>
  The claims of a token as \<open>jwt.MapClaims\<close> holds them after parsing: \<open>None\<close> for a claim that is
  missing or of the wrong JSON type. The roles claim is a list whose entries need not be
  strings.
\<close>

record jwt_claims =
  claim_sub :: "string option"
  claim_roles :: "string option list option"
  claim_exp :: int
  claim_iat :: int

datatype signing_method = HMAC | Other_Method string

text \<open>
  \<^item> \<open>drv_text\<close>: the database driver's text of an error;
  \<^item> \<open>unicode_upper\<close>: \<open>strings.ToUpper\<close> beyond ASCII; \<open>collate\<close>: the database's order of texts;
  \<^item> \<open>iter\<close>: the order in which Go ranges over a map;
  \<^item> \<open>bcrypt_hash\<close>, \<open>bcrypt_compare\<close> (hash first): the package \<open>bcrypt\<close>; hashing can fail;
  \<^item> \<open>jwt_sign key claims\<close>: \<open>NewWithClaims(HS256, ...)\<close> and \<open>SignedString\<close>;
    \<open>jwt_parse text keyfunc now\<close>: \<open>jwt.Parse\<close> with the key chosen from the token's signing
    method, \<open>None\<close> when parsing fails or the token is not valid at \<open>now\<close>;
  \<^item> \<open>now\<close>: the clock, in seconds; \<open>jwt_secret\<close>: the configured secret.
\<close>

record env =
  drv_text :: "db_error \<Rightarrow> string"
  unicode_upper :: "string \<Rightarrow> string"
  collate :: "string \<Rightarrow> string \<Rightarrow> bool"
  iter :: iteration
  bcrypt_hash :: "string \<Rightarrow> string option"
  bcrypt_compare :: "string \<Rightarrow> string \<Rightarrow> bool"
  jwt_sign :: "string \<Rightarrow> jwt_claims \<Rightarrow> string result"
  jwt_parse :: "string \<Rightarrow> (signing_method \<Rightarrow> string option) \<Rightarrow> int \<Rightarrow> jwt_claims option"
  now :: int
  jwt_secret :: string

end
