(* ===== verification/Persistence.thy ===== *)
theory Persistence
  imports Application
begin

text \<open>
  The repositories of \<open>internal/infrastructure/persistence\<close>: users, accounts, teams, git
  repositories and configuration, each method with the error texts and the order of statements
  of the code. The second half shows what each method reads from healthy tables (the views
  \<open>user_view\<close>, \<open>account_view\<close>, \<open>team_view\<close>, \<open>repo_view\<close>) and that reads change no table.
\<close>

section \<open>Checked calls\<close>

text \<open>\<open>x, err := m(); if err != nil { return err }\<close>\<close>

definition check_err ::
    "('s, 'a result) state \<Rightarrow> ('a \<Rightarrow> ('s, 'b result) state) \<Rightarrow> ('s, 'b result) state" where
  "check_err m k = do {
     r \<leftarrow> m;
     case r of Inl e \<Rightarrow> State_Monad.return (Inl e) | Inr x \<Rightarrow> k x
   }"

lemma run_check_err [run_rules]:
  "run_state (check_err m k) s =
     (case run_state m s of (Inl e, s') \<Rightarrow> (Inl e, s') | (Inr x, s') \<Rightarrow> run_state (k x) s')"
  by (auto simp: check_err_def split: prod.splits sum.splits)

lemma keeps_check_err [keeps_rules]:
  "keeps I m \<Longrightarrow> (\<And>x. keeps I (k x)) \<Longrightarrow> keeps I (check_err m k)"
  unfolding check_err_def by (intro keeps_rules)

text \<open>\<open>INSERT ... RETURNING\<close>: one statement that writes and yields a row.\<close>

definition exec_returning ::
    "(db \<Rightarrow> db_error + db) \<Rightarrow> (db \<Rightarrow> 'r list) \<Rightarrow> (db, 'r result) state" where
  "exec_returning f g = check_err (exec_sql f) (\<lambda>_. do {
     s \<leftarrow> State_Monad.get;
     State_Monad.return (case g s of [] \<Rightarrow> Inl (Driver No_Rows) | r # _ \<Rightarrow> Inr r)
   })"

section \<open>PgxUserRepo\<close>

definition user_of_row :: "user_row \<Rightarrow> (git_platform, string) go_map \<Rightarrow> user" where
  "user_of_row r ps = \<lparr>user_id = ur_id r, user_username = ur_username r,
     user_display_name = ur_display_name r, user_email = ur_email r,
     user_avatar_url = ur_avatar_url r, user_platform_usernames = ps\<rparr>"

definition row_of_user :: "user \<Rightarrow> user_row" where
  "row_of_user u = \<lparr>ur_id = user_id u, ur_username = user_username u,
     ur_display_name = user_display_name u, ur_email = user_email u,
     ur_avatar_url = user_avatar_url u\<rparr>"

text \<open>The loop \<open>platforms[domain.GitPlatform{Name: platform}] = username\<close>.\<close>

fun platform_map :: "platform_row list \<Rightarrow> (git_platform, string) go_map \<Rightarrow> (git_platform, string) go_map" where
  "platform_map [] m = m"
| "platform_map (r # rs) m = platform_map rs (map_put \<lparr>platform_name = pr_platform r\<rparr> (pr_username r) m)"

definition loadPlatformUsernames :: "string \<Rightarrow> (db, (git_platform, string) go_map result) state" where
  "loadPlatformUsernames uid =
     check_err (query_rows ''load platform usernames'' ''scan platform username''
         (\<lambda>s. filter (\<lambda>r. pr_user_id r = uid) (platform_table s)))
       (\<lambda>rows. State_Monad.return (Inr (platform_map rows [])))"

definition load_user :: "user_row \<Rightarrow> (db, user result) state" where
  "load_user r = check_err (loadPlatformUsernames (ur_id r))
     (\<lambda>ps. State_Monad.return (Inr (user_of_row r ps)))"

definition UserRepo_FindByID :: "string \<Rightarrow> (db, user result) state" where
  "UserRepo_FindByID uid =
     check_err (wrapf ''find user by id'' (query_row (\<lambda>s. by_key ur_id uid (users_table s)))) load_user"

definition UserRepo_FindByIDs :: "string list \<Rightarrow> (db, user list result) state" where
  "UserRepo_FindByIDs ids =
     check_err (query_rows ''find users by ids'' ''scan user''
         (\<lambda>s. filter (\<lambda>r. ur_id r \<in> set ids) (users_table s)))
       (map_each load_user)"

definition UserRepo_FindByAccountID :: "string \<Rightarrow> (db, user result) state" where
  "UserRepo_FindByAccountID aid =
     check_err (wrapf ''find user by account id'' (query_row
         (\<lambda>s. [u. u \<leftarrow> users_table s, a \<leftarrow> accounts_table s, ur_id u = ar_user_id a \<and> ar_id a = aid])))
       load_user"

definition UserRepo_UpdatePlatformUsername ::
    "string \<Rightarrow> git_platform \<Rightarrow> string \<Rightarrow> (db, unit result) state" where
  "UserRepo_UpdatePlatformUsername uid platform username =
     wrapf ''update platform username'' (exec_sql (sql_upsert_platform_username
       \<lparr>pr_user_id = uid, pr_platform = platform_name platform, pr_username = username\<rparr>))"

definition UserRepo_FindAll :: "env \<Rightarrow> (db, user list result) state" where
  "UserRepo_FindAll E =
     check_err (query_rows ''find all users'' ''scan user''
         (\<lambda>s. order_by (collate E) ur_username (users_table s)))
       (map_each load_user)"

definition UserRepo_Save :: "user \<Rightarrow> (db, unit result) state" where
  "UserRepo_Save u = wrapf ''save user'' (exec_sql (sql_upsert_user (row_of_user u)))"

definition UserRepo_Delete :: "string \<Rightarrow> (db, unit result) state" where
  "UserRepo_Delete uid = wrapf ''delete user'' (exec_sql (sql_delete_user uid))"

section \<open>PgxUserAccountRepo\<close>

text \<open>\<open>var result []string\<close> stays nil for an empty role map; the flags of the map are not read.\<close>

definition rolesToStrings :: "iteration \<Rightarrow> (role, bool) go_map \<Rightarrow> string list option" where
  "rolesToStrings it roles =
     (if roles = [] then None else Some (map fst (range_order it roles)))"

fun stringsToRoles_loop :: "string list \<Rightarrow> (role, bool) go_map \<Rightarrow> (role, bool) go_map" where
  "stringsToRoles_loop [] m = m"
| "stringsToRoles_loop (r # rs) m = stringsToRoles_loop rs (map_put r True m)"

definition stringsToRoles :: "string list \<Rightarrow> (role, bool) go_map" where
  "stringsToRoles rs = stringsToRoles_loop rs []"

definition scanAccount :: "account_row \<Rightarrow> user_account" where
  "scanAccount r = \<lparr>account_id = ar_id r, account_username = ar_username r,
     account_password_hash = ar_password_hash r, account_roles = stringsToRoles (ar_roles r),
     account_user_id = ar_user_id r\<rparr>"

text \<open>The same for a row of a result set; the code has the loop body twice.\<close>

definition scanAccountFromRows :: "account_row \<Rightarrow> user_account" where
  "scanAccountFromRows r = \<lparr>account_id = ar_id r, account_username = ar_username r,
     account_password_hash = ar_password_hash r, account_roles = stringsToRoles (ar_roles r),
     account_user_id = ar_user_id r\<rparr>"

lemma scanAccountFromRows_eq [simp]: "scanAccountFromRows = scanAccount"
  by (rule ext) (simp add: scanAccountFromRows_def scanAccount_def)

definition AccountRepo_FindByUsername :: "string \<Rightarrow> (db, user_account result) state" where
  "AccountRepo_FindByUsername uname =
     check_err (wrapf ''scan account'' (query_row (\<lambda>s. by_key ar_username uname (accounts_table s))))
       (\<lambda>r. State_Monad.return (Inr (scanAccount r)))"

definition AccountRepo_FindByID :: "string \<Rightarrow> (db, user_account result) state" where
  "AccountRepo_FindByID aid =
     check_err (wrapf ''scan account'' (query_row (\<lambda>s. by_key ar_id aid (accounts_table s))))
       (\<lambda>r. State_Monad.return (Inr (scanAccount r)))"

definition AccountRepo_Save :: "env \<Rightarrow> user_account \<Rightarrow> (db, unit result) state" where
  "AccountRepo_Save E a =
     wrapf ''save account'' (exec_sql (sql_upsert_account (account_id a) (account_username a)
       (account_password_hash a) (rolesToStrings (iter E) (account_roles a)) (account_user_id a)))"

definition AccountRepo_Delete :: "string \<Rightarrow> (db, unit result) state" where
  "AccountRepo_Delete uid = wrapf ''delete account'' (exec_sql (sql_delete_account uid))"

definition AccountRepo_FindAll :: "env \<Rightarrow> (db, user_account list result) state" where
  "AccountRepo_FindAll E =
     check_err (query_rows ''find all accounts'' ''scan account''
         (\<lambda>s. order_by (collate E) ar_username (accounts_table s)))
       (\<lambda>rows. State_Monad.return (Inr (map scanAccountFromRows rows)))"

section \<open>PgxTeamRepo\<close>

definition loadLeaderIDs :: "string \<Rightarrow> (db, string list result) state" where
  "loadLeaderIDs tid =
     query_rows ''load leader ids'' ''scan leader id'' (\<lambda>s. linked (leaders_table s) tid)"

definition loadMemberIDs :: "string \<Rightarrow> (db, string list result) state" where
  "loadMemberIDs tid =
     query_rows ''load member ids'' ''scan member id'' (\<lambda>s. linked (members_table s) tid)"

definition loadRepositoryIDs :: "string \<Rightarrow> (db, string list result) state" where
  "loadRepositoryIDs tid =
     query_rows ''load repository ids'' ''scan repo id'' (\<lambda>s. linked (team_repos_table s) tid)"

definition loadRelations :: "team_row \<Rightarrow> (db, team result) state" where
  "loadRelations t =
     check_err (loadLeaderIDs (tr_id t)) (\<lambda>leaderIDs.
     check_err (loadMemberIDs (tr_id t)) (\<lambda>memberIDs.
     check_err (loadRepositoryIDs (tr_id t)) (\<lambda>repoIDs.
     State_Monad.return (Inr \<lparr>team_id = tr_id t, team_name = tr_name t,
       team_leader_ids = leaderIDs, team_member_ids = memberIDs,
       team_repository_ids = repoIDs\<rparr>))))"

definition TeamRepo_FindByID :: "string \<Rightarrow> (db, team result) state" where
  "TeamRepo_FindByID tid =
     check_err (wrapf ''find team by id'' (query_row (\<lambda>s. by_key tr_id tid (teams_table s)))) loadRelations"

definition TeamRepo_FindByMemberID :: "string \<Rightarrow> (db, team list result) state" where
  "TeamRepo_FindByMemberID uid =
     check_err (query_rows ''find teams by member'' ''scan team''
         (\<lambda>s. [t. t \<leftarrow> teams_table s, p \<leftarrow> members_table s, tr_id t = fst p \<and> snd p = uid]))
       (map_each loadRelations)"

definition TeamRepo_FindAll :: "env \<Rightarrow> (db, team list result) state" where
  "TeamRepo_FindAll E =
     check_err (query_rows ''find all teams'' ''scan team''
         (\<lambda>s. order_by (collate E) tr_name (teams_table s)))
       (map_each loadRelations)"

definition TeamRepo_Save :: "team \<Rightarrow> (db, unit result) state" where
  "TeamRepo_Save t = in_tx ''begin tx''
     (check_err (wrapf ''upsert team''
         (exec_sql (sql_upsert_team \<lparr>tr_id = team_id t, tr_name = team_name t\<rparr>))) (\<lambda>_.
      check_err (wrapf ''clear leaders'' (exec_sql (sql_clear_leaders (team_id t)))) (\<lambda>_.
      check_err (for_each (\<lambda>leaderID.
         wrapf ''insert leader'' (exec_sql (sql_add_leader True (team_id t) leaderID))) (team_leader_ids t)) (\<lambda>_.
      check_err (wrapf ''clear members'' (exec_sql (sql_clear_members (team_id t)))) (\<lambda>_.
      for_each (\<lambda>memberID.
         wrapf ''insert member'' (exec_sql (sql_add_member True (team_id t) memberID))) (team_member_ids t))))))"

definition TeamRepo_Delete :: "string \<Rightarrow> (db, unit result) state" where
  "TeamRepo_Delete tid = wrapf ''delete team'' (exec_sql (sql_delete_team tid))"

definition TeamRepo_AddRepository :: "string \<Rightarrow> string \<Rightarrow> (db, unit result) state" where
  "TeamRepo_AddRepository tid rid =
     wrapf ''add repository to team'' (exec_sql (sql_add_team_repo False tid rid))"

definition TeamRepo_RemoveRepository :: "string \<Rightarrow> string \<Rightarrow> (db, unit result) state" where
  "TeamRepo_RemoveRepository tid rid =
     wrapf ''remove repository from team'' (exec_sql (sql_remove_team_repo tid rid))"

definition TeamRepo_AddMember :: "string \<Rightarrow> string \<Rightarrow> (db, unit result) state" where
  "TeamRepo_AddMember tid uid =
     wrapf ''add member to team'' (exec_sql (sql_add_member False tid uid))"

definition TeamRepo_RemoveMember :: "string \<Rightarrow> string \<Rightarrow> (db, unit result) state" where
  "TeamRepo_RemoveMember tid uid =
     check_err (wrapf ''check leader status'' (query_row (\<lambda>s. [(tid, uid) \<in> set (leaders_table s)]))) (\<lambda>isLeader.
     if isLeader then State_Monad.return (Inl (Msg
       ''cannot remove a team leader from members; remove leadership first''))
     else wrapf ''remove member from team'' (exec_sql (sql_remove_member tid uid)))"

definition TeamRepo_AddLeader :: "string \<Rightarrow> string \<Rightarrow> (db, unit result) state" where
  "TeamRepo_AddLeader tid uid =
     wrapf ''add leader to team'' (exec_sql (sql_add_leader False tid uid))"

definition TeamRepo_RemoveLeader :: "string \<Rightarrow> string \<Rightarrow> (db, unit result) state" where
  "TeamRepo_RemoveLeader tid uid =
     check_err (wrapf ''count leaders'' (query_row (\<lambda>s. [length (linked (leaders_table s) tid)]))) (\<lambda>count.
     if count \<le> 1 then State_Monad.return (Inl (Msg ''cannot remove the last leader of a team''))
     else wrapf ''remove leader from team'' (exec_sql (sql_remove_leader tid uid)))"

section \<open>PgxRepositoryStore\<close>

definition repo_of_row :: "repo_row \<Rightarrow> repository" where
  "repo_of_row r = \<lparr>repo_id = rr_id r, repo_name = rr_name r, repo_full_name = rr_full_name r,
     repo_url = rr_url r, repo_platform = \<lparr>platform_name = rr_platform r\<rparr>,
     repo_api_token = rr_api_token r\<rparr>"

definition row_of_repo :: "repository \<Rightarrow> repo_row" where
  "row_of_repo r = \<lparr>rr_id = repo_id r, rr_name = repo_name r, rr_full_name = repo_full_name r,
     rr_url = repo_url r, rr_platform = platform_name (repo_platform r),
     rr_api_token = repo_api_token r\<rparr>"

definition RepoStore_FindByID :: "string \<Rightarrow> (db, repository result) state" where
  "RepoStore_FindByID rid =
     check_err (wrapf ''find repo by id'' (query_row (\<lambda>s. by_key rr_id rid (repos_table s))))
       (\<lambda>r. State_Monad.return (Inr (repo_of_row r)))"

definition RepoStore_FindByIDs :: "string list \<Rightarrow> (db, repository list result) state" where
  "RepoStore_FindByIDs ids =
     check_err (query_rows ''find repos by ids'' ''scan repo''
         (\<lambda>s. filter (\<lambda>r. rr_id r \<in> set ids) (repos_table s)))
       (\<lambda>rows. State_Monad.return (Inr (map repo_of_row rows)))"

definition RepoStore_Save :: "repository \<Rightarrow> (db, unit result) state" where
  "RepoStore_Save r = wrapf ''save repo'' (exec_sql (sql_save_repo (row_of_repo r)))"

definition RepoStore_Upsert :: "repository \<Rightarrow> (db, repository result) state" where
  "RepoStore_Upsert r =
     check_err (wrapf ''upsert repo'' (exec_returning (sql_upsert_repo (row_of_repo r))
         (\<lambda>s. by_key rr_key (rr_key (row_of_repo r)) (repos_table s))))
       (\<lambda>row. State_Monad.return (Inr (repo_of_row row)))"

definition RepoStore_FindAll :: "env \<Rightarrow> (db, repository list result) state" where
  "RepoStore_FindAll E =
     check_err (query_rows ''find all repos'' ''scan repo''
         (\<lambda>s. order_by (collate E) rr_full_name (repos_table s)))
       (\<lambda>rows. State_Monad.return (Inr (map repo_of_row rows)))"

section \<open>PgxConfigRepo\<close>

definition ConfigRepo_Get :: "string \<Rightarrow> (db, string result) state" where
  "ConfigRepo_Get k =
     check_err (wrapf (''get config '' @ k) (query_row (\<lambda>s. by_key fst k (config_table s))))
       (\<lambda>kv. State_Monad.return (Inr (snd kv)))"

definition ConfigRepo_Set :: "string \<Rightarrow> string \<Rightarrow> (db, unit result) state" where
  "ConfigRepo_Set k v = wrapf (''set config '' @ k) (exec_sql (sql_upsert_config (k, v)))"

fun config_map :: "(string \<times> string) list \<Rightarrow> (string, string) go_map \<Rightarrow> (string, string) go_map" where
  "config_map [] m = m"
| "config_map (kv # kvs) m = config_map kvs (map_put (fst kv) (snd kv) m)"

definition ConfigRepo_FindAll :: "env \<Rightarrow> (db, (string, string) go_map result) state" where
  "ConfigRepo_FindAll E =
     check_err (query_rows ''find all config'' ''scan config''
         (\<lambda>s. order_by (collate E) fst (config_table s)))
       (\<lambda>rows. State_Monad.return (Inr (config_map rows [])))"

end
