(* ===== verification/Persistence_Facts.thy ===== *)
theory Persistence_Facts
  imports Persistence
begin

text \<open>
  What the repositories read and keep. The views (\<open>user_view\<close>, \<open>team_view\<close>) are the entities a
  row stands for; with an empty fault schedule every \<open>Find\<close> method returns the views of the
  rows its query selects and leaves the store alone. Every \<open>Find\<close> method keeps every invariant
  of the tables, whatever the schedule.
\<close>

section \<open>Views\<close>

definition platforms_of :: "db \<Rightarrow> string \<Rightarrow> (git_platform, string) go_map" where
  "platforms_of s uid = platform_map (filter (\<lambda>r. pr_user_id r = uid) (platform_table s)) []"

definition user_view :: "db \<Rightarrow> user_row \<Rightarrow> user" where
  "user_view s r = user_of_row r (platforms_of s (ur_id r))"

definition team_view :: "db \<Rightarrow> team_row \<Rightarrow> team" where
  "team_view s t = \<lparr>team_id = tr_id t, team_name = tr_name t,
     team_leader_ids = linked (leaders_table s) (tr_id t),
     team_member_ids = linked (members_table s) (tr_id t),
     team_repository_ids = linked (team_repos_table s) (tr_id t)\<rparr>"

lemma user_view_simps [simp]:
  "user_id (user_view s r) = ur_id r"
  "user_username (user_view s r) = ur_username r"
  "user_platform_usernames (user_view s r) = platforms_of s (ur_id r)"
  by (simp_all add: user_view_def user_of_row_def)

lemma team_view_simps [simp]:
  "team_id (team_view s t) = tr_id t"
  "team_name (team_view s t) = tr_name t"
  "team_leader_ids (team_view s t) = linked (leaders_table s) (tr_id t)"
  "team_member_ids (team_view s t) = linked (members_table s) (tr_id t)"
  "team_repository_ids (team_view s t) = linked (team_repos_table s) (tr_id t)"
  by (simp_all add: team_view_def)

lemma scanAccount_simps [simp]:
  "account_id (scanAccount r) = ar_id r"
  "account_username (scanAccount r) = ar_username r"
  "account_password_hash (scanAccount r) = ar_password_hash r"
  "account_roles (scanAccount r) = stringsToRoles (ar_roles r)"
  "account_user_id (scanAccount r) = ar_user_id r"
  by (simp_all add: scanAccount_def)

lemma row_of_user_simps [simp]:
  "ur_id (row_of_user u) = user_id u" "ur_username (row_of_user u) = user_username u"
  by (simp_all add: row_of_user_def)

lemma repo_of_row_of_repo [simp]: "repo_of_row (row_of_repo r) = r"
  by (cases r) (simp add: repo_of_row_def row_of_repo_def git_platform.equality)

lemma row_of_repo_of_row [simp]: "row_of_repo (repo_of_row r) = r"
  by (cases r) (simp add: repo_of_row_def row_of_repo_def)

section \<open>Role lists\<close>

lemma map_of_stringsToRoles_loop:
  "map_of (stringsToRoles_loop rs m) r = (if r \<in> set rs then Some True else map_of m r)"
  by (induction rs arbitrary: m) auto

lemma map_flag_stringsToRoles [simp]: "map_flag (stringsToRoles rs) r \<longleftrightarrow> r \<in> set rs"
  by (simp add: map_flag_def stringsToRoles_def map_of_stringsToRoles_loop)

lemma distinct_stringsToRoles_loop:
  "distinct (map fst m) \<Longrightarrow> distinct (map fst (stringsToRoles_loop rs m))"
  by (induction rs arbitrary: m) (auto simp: distinct_map_put)

lemma distinct_stringsToRoles [simp]: "distinct (map fst (stringsToRoles rs))"
  by (simp add: stringsToRoles_def distinct_stringsToRoles_loop)

lemma keys_stringsToRoles_loop:
  "set (map fst (stringsToRoles_loop rs m)) = set rs \<union> set (map fst m)"
  by (induction rs arbitrary: m) (auto simp: keys_map_put simp del: set_map)

lemma keys_stringsToRoles [simp]: "fst ` set (stringsToRoles rs) = set rs"
  using keys_stringsToRoles_loop [of rs "[]"] by (simp add: stringsToRoles_def)

lemma stringsToRoles_Nil [simp]: "stringsToRoles rs = [] \<longleftrightarrow> rs = []"
  using keys_stringsToRoles [of rs] by (cases rs) (auto simp: stringsToRoles_def)

lemma set_RoleList [simp]: "iteration_ok it \<Longrightarrow> set (RoleList it (scanAccount a)) = set (ar_roles a)"
  by (simp add: RoleList_def)

lemma rolesToStrings_set:
  "iteration_ok it \<Longrightarrow> rolesToStrings it m = Some rs \<Longrightarrow> set rs = fst ` set m"
  by (simp add: rolesToStrings_def split: if_splits) (metis list.set_map set_range_order)

text \<open>Writing the roles of an account and reading them back gives the same set of roles.\<close>

lemma roles_roundtrip:
  assumes "iteration_ok it" "rolesToStrings it m = Some rs"
  shows "map_flag (stringsToRoles rs) r \<longleftrightarrow> r \<in> fst ` set m"
  using rolesToStrings_set [OF assms] by simp

section \<open>Platform usernames\<close>

lemma map_of_platform_map:
  "map_of (platform_map rs m) p =
     (case map_of (rev (map (\<lambda>r. (pr_platform r, pr_username r)) rs)) (platform_name p) of
        Some n \<Rightarrow> Some n
      | None \<Rightarrow> map_of m p)"
  by (induction rs arbitrary: m) (auto simp: map_add_def split: option.splits)

section \<open>Reading healthy tables\<close>

lemma run_map_each_reads:
  assumes "\<And>x. x \<in> set xs \<Longrightarrow> run_state (f x) s = (Inr (g x), s)"
  shows "run_state (map_each f xs) s = (Inr (map g xs), s)"
  using assms by (induction xs) auto

lemma run_load_user [run_rules]:
  "healthy s \<Longrightarrow> run_state (load_user r) s = (Inr (user_view s r), s)"
  by (simp add: load_user_def loadPlatformUsernames_def run_rules user_view_def platforms_of_def)

lemma run_loadRelations [run_rules]:
  "healthy s \<Longrightarrow> run_state (loadRelations t) s = (Inr (team_view s t), s)"
  by (simp add: loadRelations_def loadLeaderIDs_def loadMemberIDs_def loadRepositoryIDs_def
      run_rules team_view_def)

text \<open>A read of one row: the view of the first row, or the wrapped \<open>ErrNoRows\<close>.\<close>

definition first_or :: "string \<Rightarrow> ('r \<Rightarrow> 'a) \<Rightarrow> 'r list \<Rightarrow> 'a result" where
  "first_or msg f rows = (case rows of [] \<Rightarrow> Inl (Errorf msg (Driver No_Rows)) | r # _ \<Rightarrow> Inr (f r))"

lemma first_or_simps [simp]:
  "first_or msg f [] = Inl (Errorf msg (Driver No_Rows))"
  "first_or msg f (r # rs) = Inr (f r)"
  by (simp_all add: first_or_def)

lemma run_checked_row:
  assumes "healthy s" and "\<And>r. run_state (k r) s = (Inr (g r), s)"
  shows "run_state (check_err (wrapf msg (query_row f)) k) s = (first_or msg g (f s), s)"
  using assms by (cases "f s") (simp_all add: run_rules)

lemma run_user_reads [run_rules]:
  assumes "healthy s"
  shows "run_state (UserRepo_FindByID i) s =
           (first_or ''find user by id'' (user_view s) (by_key ur_id i (users_table s)), s)"
    and "run_state (UserRepo_FindByIDs ids) s =
           (Inr (map (user_view s) (filter (\<lambda>r. ur_id r \<in> set ids) (users_table s))), s)"
    and "run_state (UserRepo_FindByAccountID a) s =
           (first_or ''find user by account id'' (user_view s)
             [u. u \<leftarrow> users_table s, x \<leftarrow> accounts_table s, ur_id u = ar_user_id x \<and> ar_id x = a], s)"
    and "run_state (UserRepo_FindAll E) s =
           (Inr (map (user_view s) (order_by (collate E) ur_username (users_table s))), s)"
  unfolding UserRepo_FindByID_def UserRepo_FindByIDs_def UserRepo_FindByAccountID_def
    UserRepo_FindAll_def
  by (rule run_checked_row run_load_user assms
    | simp add: assms run_check_err run_query_rows_healthy run_map_each_reads [where g = "user_view s"] run_load_user)+

lemma run_account_reads [run_rules]:
  assumes "healthy s"
  shows "run_state (AccountRepo_FindByUsername u) s =
           (first_or ''scan account'' scanAccount (by_key ar_username u (accounts_table s)), s)"
    and "run_state (AccountRepo_FindByID i) s =
           (first_or ''scan account'' scanAccount (by_key ar_id i (accounts_table s)), s)"
    and "run_state (AccountRepo_FindAll E) s =
           (Inr (map scanAccount (order_by (collate E) ar_username (accounts_table s))), s)"
  using assms
  by (auto simp: AccountRepo_FindByUsername_def AccountRepo_FindByID_def AccountRepo_FindAll_def
      first_or_def run_rules split: list.splits)

lemma run_team_reads [run_rules]:
  assumes "healthy s"
  shows "run_state (TeamRepo_FindByID i) s =
           (first_or ''find team by id'' (team_view s) (by_key tr_id i (teams_table s)), s)"
    and "run_state (TeamRepo_FindByMemberID u) s =
           (Inr (map (team_view s)
             [t. t \<leftarrow> teams_table s, p \<leftarrow> members_table s, tr_id t = fst p \<and> snd p = u]), s)"
    and "run_state (TeamRepo_FindAll E) s =
           (Inr (map (team_view s) (order_by (collate E) tr_name (teams_table s))), s)"
  unfolding TeamRepo_FindByID_def TeamRepo_FindByMemberID_def TeamRepo_FindAll_def
  by (rule run_checked_row run_loadRelations assms
    | simp add: assms run_check_err run_query_rows_healthy run_map_each_reads [where g = "team_view s"] run_loadRelations)+

lemma run_repo_reads [run_rules]:
  assumes "healthy s"
  shows "run_state (RepoStore_FindByID i) s =
           (first_or ''find repo by id'' repo_of_row (by_key rr_id i (repos_table s)), s)"
    and "run_state (RepoStore_FindByIDs ids) s =
           (Inr (map repo_of_row (filter (\<lambda>r. rr_id r \<in> set ids) (repos_table s))), s)"
    and "run_state (RepoStore_FindAll E) s =
           (Inr (map repo_of_row (order_by (collate E) rr_full_name (repos_table s))), s)"
  using assms
  by (auto simp: RepoStore_FindByID_def RepoStore_FindByIDs_def RepoStore_FindAll_def
      first_or_def run_rules split: list.splits)

lemma run_config_reads [run_rules]:
  assumes "healthy s"
  shows "run_state (ConfigRepo_Get k) s =
           (first_or (''get config '' @ k) snd (by_key fst k (config_table s)), s)"
    and "run_state (ConfigRepo_FindAll E) s =
           (Inr (config_map (order_by (collate E) fst (config_table s)) []), s)"
  using assms
  by (auto simp: ConfigRepo_Get_def ConfigRepo_FindAll_def first_or_def run_rules split: list.splits)

section \<open>Reads keep every invariant\<close>

lemmas read_defs =
  UserRepo_FindByID_def UserRepo_FindByIDs_def UserRepo_FindByAccountID_def UserRepo_FindAll_def
  load_user_def loadPlatformUsernames_def
  AccountRepo_FindByUsername_def AccountRepo_FindByID_def AccountRepo_FindAll_def
  TeamRepo_FindByID_def TeamRepo_FindByMemberID_def TeamRepo_FindAll_def
  loadRelations_def loadLeaderIDs_def loadMemberIDs_def loadRepositoryIDs_def
  RepoStore_FindByID_def RepoStore_FindByIDs_def RepoStore_FindAll_def
  ConfigRepo_Get_def ConfigRepo_FindAll_def

context read_invariant
begin

lemma keeps_load_user [keeps_rules]: "keeps I (load_user r)"
  unfolding read_defs by (intro keeps_rules)

lemma keeps_loadRelations [keeps_rules]: "keeps I (loadRelations t)"
  unfolding read_defs by (intro keeps_rules)

lemma keeps_user_reads [keeps_rules]:
  "keeps I (UserRepo_FindByID i)" "keeps I (UserRepo_FindByIDs ids)"
  "keeps I (UserRepo_FindByAccountID a)" "keeps I (UserRepo_FindAll E)"
  unfolding UserRepo_FindByID_def UserRepo_FindByIDs_def UserRepo_FindByAccountID_def
    UserRepo_FindAll_def
  by (intro keeps_rules)+

lemma keeps_account_reads [keeps_rules]:
  "keeps I (AccountRepo_FindByUsername u)" "keeps I (AccountRepo_FindByID i)"
  "keeps I (AccountRepo_FindAll E)"
  unfolding read_defs by (intro keeps_rules)+

lemma keeps_team_reads [keeps_rules]:
  "keeps I (TeamRepo_FindByID i)" "keeps I (TeamRepo_FindByMemberID u)" "keeps I (TeamRepo_FindAll E)"
  unfolding TeamRepo_FindByID_def TeamRepo_FindByMemberID_def TeamRepo_FindAll_def
  by (intro keeps_rules)+

lemma keeps_repo_reads [keeps_rules]:
  "keeps I (RepoStore_FindByID i)" "keeps I (RepoStore_FindByIDs ids)" "keeps I (RepoStore_FindAll E)"
  unfolding read_defs by (intro keeps_rules)+

lemma keeps_config_reads [keeps_rules]:
  "keeps I (ConfigRepo_Get k)" "keeps I (ConfigRepo_FindAll E)"
  unfolding read_defs by (intro keeps_rules)+

end

section \<open>Writes of healthy tables\<close>

text \<open>A write method is one wrapped statement.\<close>

lemma run_write_healthy:
  "healthy s \<Longrightarrow> run_state (wrapf msg (exec_sql f)) s =
     (case f s of Inl e \<Rightarrow> (Inl (Errorf msg (Driver e)), s) | Inr s' \<Rightarrow> (Inr (), s'))"
  by (simp add: run_rules split: sum.splits)

lemma run_write_ok: "healthy s \<Longrightarrow> f s = Inr s' \<Longrightarrow> run_state (wrapf msg (exec_sql f)) s = (Inr (), s')"
  by (simp add: run_write_healthy)

lemma tables_write_error:
  "run_state (wrapf msg (exec_sql f)) s = (Inl e, s') \<Longrightarrow> tables s' = tables s"
  by (auto simp: run_wrapf split: prod.splits sum.splits dest: tables_exec_error)

lemma write_ok_changes:
  "run_state (wrapf msg (exec_sql f)) s = (Inr u, s') \<Longrightarrow> \<exists>s0. tables s0 = tables s \<and> f s0 = Inr s'"
  by (auto simp: run_wrapf split: prod.splits sum.splits dest: exec_ok_changes)

lemmas write_defs =
  UserRepo_UpdatePlatformUsername_def UserRepo_Save_def UserRepo_Delete_def
  AccountRepo_Save_def AccountRepo_Delete_def
  TeamRepo_Delete_def TeamRepo_AddRepository_def TeamRepo_RemoveRepository_def
  TeamRepo_AddMember_def TeamRepo_AddLeader_def
  RepoStore_Save_def ConfigRepo_Set_def

text \<open>No role at all is stored as \<open>NULL\<close>, which the table refuses.\<close>

lemma save_without_roles:
  assumes "healthy s"
  shows "run_state (AccountRepo_Save E (a\<lparr>account_roles := []\<rparr>)) s =
    (Inl (Errorf ''save account'' (Driver (Not_Null_Violation ''roles''))), s)"
  using assms by (simp add: AccountRepo_Save_def run_write_healthy rolesToStrings_def sql_upsert_account_def)

end
