(* ===== verification/Auth.thy ===== *)
theory Auth
  imports Persistence_Facts
begin

text \<open>
  The authentication service (\<open>application/auth_service.go\<close>): \<open>Login\<close> checks a password and signs
  a token that carries the account's id and roles; \<open>Validate\<close> checks a token and looks the
  account and its user up. The token library and bcrypt are functions of the environment; what
  is used of them is \<open>jwt_law\<close>: a token signed with a key parses, before it expires and not
  later, to the claims it was signed with.
\<close>

section \<open>The service\<close>

definition token_lifetime :: int where
  "token_lifetime = 24 * 60 * 60"

definition AuthService_Login :: "env \<Rightarrow> string \<Rightarrow> string \<Rightarrow> (db, app_error + auth_token) state" where
  "AuthService_Login E username password = do {
     r \<leftarrow> AccountRepo_FindByUsername username;
     State_Monad.return (case r of
       Inl err \<Rightarrow> Inl (NewUnauthorizedError ''invalid credentials'')
     | Inr account \<Rightarrow>
         if \<not> bcrypt_compare E (account_password_hash account) password
         then Inl (NewUnauthorizedError ''invalid credentials'')
         else
           let expiresAt = now E + token_lifetime;
               roleStrings = RoleList (iter E) account;
               claims = \<lparr>claim_sub = Some (account_id account),
                 claim_roles = Some (map Some roleStrings),
                 claim_exp = expiresAt, claim_iat = now E\<rparr>
           in (case jwt_sign E (jwt_secret E) claims of
                 Inl err \<Rightarrow> Inl (NewInternalError ''failed to sign token'' (Some err))
               | Inr tokenStr \<Rightarrow> Inr \<lparr>token_text = tokenStr, token_expires_at = expiresAt,
                   token_account_id = account_id account, token_roles = account_roles account\<rparr>))
   }"

text \<open>The key function of \<open>jwt.Parse\<close>: only HMAC methods get the secret.\<close>

definition validate_key :: "env \<Rightarrow> signing_method \<Rightarrow> string option" where
  "validate_key E m = (case m of HMAC \<Rightarrow> Some (jwt_secret E) | Other_Method x \<Rightarrow> None)"

text \<open>The loop over the claim \<open>roles\<close>: entries that are not strings are skipped.\<close>

fun claimed_roles_loop :: "string option list \<Rightarrow> (role, bool) go_map \<Rightarrow> (role, bool) go_map" where
  "claimed_roles_loop [] m = m"
| "claimed_roles_loop (None # rs) m = claimed_roles_loop rs m"
| "claimed_roles_loop (Some r # rs) m = claimed_roles_loop rs (map_put r True m)"

definition claimed_roles :: "jwt_claims \<Rightarrow> (role, bool) go_map" where
  "claimed_roles c = (case claim_roles c of None \<Rightarrow> [] | Some rl \<Rightarrow> claimed_roles_loop rl [])"

definition AuthService_Validate :: "env \<Rightarrow> string \<Rightarrow> (db, app_error + auth_context) state" where
  "AuthService_Validate E tokenStr =
     (case jwt_parse E tokenStr (validate_key E) (now E) of
        None \<Rightarrow> State_Monad.return (Inl (NewUnauthorizedError ''invalid token''))
      | Some claims \<Rightarrow>
          let accountID = (case claim_sub claims of None \<Rightarrow> [] | Some sub \<Rightarrow> sub) in
          if accountID = [] then State_Monad.return (Inl (NewUnauthorizedError ''missing subject''))
          else do {
            r \<leftarrow> AccountRepo_FindByID accountID;
            case r of
              Inl err \<Rightarrow> State_Monad.return (Inl (NewUnauthorizedError ''account not found''))
            | Inr account \<Rightarrow> do {
                ru \<leftarrow> UserRepo_FindByAccountID accountID;
                State_Monad.return (case ru of
                  Inl err \<Rightarrow> Inl (NewUnauthorizedError ''user not found'')
                | Inr user \<Rightarrow> Inr \<lparr>ctx_account_id = account_id account, ctx_user_id = user_id user,
                    ctx_roles = claimed_roles claims\<rparr>)
              }
          })"

section \<open>What the service keeps and returns\<close>

context read_invariant
begin

lemma keeps_auth [keeps_rules]:
  "keeps I (AuthService_Login E u p)" "keeps I (AuthService_Validate E t)"
  unfolding AuthService_Login_def AuthService_Validate_def by (intro keeps_rules)+

end

lemma map_of_claimed_roles_loop:
  "map_of (claimed_roles_loop rl m) r = (if Some r \<in> set rl then Some True else map_of m r)"
  by (induction rl m rule: claimed_roles_loop.induct) auto

text \<open>A role is claimed exactly if the token lists it; no token turns a flag off.\<close>

lemma map_flag_claimed_roles:
  "map_flag (claimed_roles c) r \<longleftrightarrow> (\<exists>rl. claim_roles c = Some rl \<and> Some r \<in> set rl)"
  by (auto simp: claimed_roles_def map_flag_def map_of_claimed_roles_loop split: option.splits)

definition jwt_law :: "env \<Rightarrow> bool" where
  "jwt_law E \<longleftrightarrow> (\<forall>k c t kf time.
     jwt_sign E k c = Inr t \<and> kf HMAC = Some k \<longrightarrow>
     jwt_parse E t kf time = (if time < claim_exp c then Some c else None))"

text \<open>The row of an account's user, as the join of \<open>FindByAccountID\<close> finds it.\<close>

lemma account_user_row:
  assumes ok: "schema_ok s" and a: "a \<in> set (accounts_table s)"
  obtains u where "u \<in> set (users_table s)" "ur_id u = ar_user_id a"
    "[u. u \<leftarrow> users_table s, x \<leftarrow> accounts_table s, ur_id u = ar_user_id x \<and> ar_id x = ar_id a] = [u]"
proof -
  have da: "distinct (map ar_id (accounts_table s))" and du: "distinct (map ur_id (users_table s))"
    using ok by (simp_all add: schema_keys)
  have "ar_user_id a \<in> user_ids s"
    using ok a by (auto simp: schema_ok_def accounts_ok_def)
  then obtain u where u: "u \<in> set (users_table s)" "ur_id u = ar_user_id a"
    by (auto simp: user_ids_def)
  have inner: "concat (map (\<lambda>x. if ur_id v = ar_user_id x \<and> ar_id x = ar_id a then [v] else []) xs)
      = (if ur_id v = ar_user_id a \<and> a \<in> set xs then [v] else [])"
    if "set xs \<subseteq> set (accounts_table s)" "distinct (map ar_id xs)" for v :: user_row and xs
    using that
  proof (induction xs)
    case Nil
    then show ?case by simp
  next
    case (Cons x xs)
    have "x = a" if "ar_id x = ar_id a"
      using Cons.prems(1) a da that by (auto simp: distinct_map dest: inj_onD)
    moreover have "a \<notin> set xs" if "ar_id x = ar_id a"
      using Cons.prems(2) that by (auto simp: rev_image_eqI)
    ultimately show ?case using Cons by auto
  qed
  have outer: "concat (map (\<lambda>v. if ur_id v = ar_user_id a then [v] else []) vs) = [u]"
    if "set vs \<subseteq> set (users_table s)" "distinct (map ur_id vs)" "u \<in> set vs" for vs
    using that
  proof (induction vs)
    case Nil
    then show ?case by simp
  next
    case (Cons v vs)
    show ?case
    proof (cases "v = u")
      case True
      then have "ur_id w \<noteq> ar_user_id a" if "w \<in> set vs" for w
        using Cons.prems(2) u(2) that by (metis distinct.simps(2) image_eqI list.simps(9) set_map)
      with True u show ?thesis by (auto simp: concat_eq_Nil_conv)
    next
      case False
      then have "ur_id v \<noteq> ar_user_id a"
        using Cons.prems(1) u du by (metis distinct_map inj_onD list.set_intros(1) subsetD)
      with False Cons show ?thesis by auto
    qed
  qed
  have "[v. v \<leftarrow> users_table s, x \<leftarrow> accounts_table s, ur_id v = ar_user_id x \<and> ar_id x = ar_id a]
      = concat (map (\<lambda>v. if ur_id v = ar_user_id a then [v] else []) (users_table s))"
    using inner [OF order_refl da] a by simp
  also have "\<dots> = [u]"
    using outer [OF order_refl du u(1)] .
  finally show thesis
    using that u by blast
qed

text \<open>Login succeeds for a stored account with a matching password; any other account is refused.\<close>

lemma Login_ok:
  assumes "healthy s" "schema_ok s" "a \<in> set (accounts_table s)"
    "bcrypt_compare E (ar_password_hash a) password"
    "jwt_sign E (jwt_secret E) \<lparr>claim_sub = Some (ar_id a),
       claim_roles = Some (map Some (RoleList (iter E) (scanAccount a))),
       claim_exp = now E + token_lifetime, claim_iat = now E\<rparr> = Inr tok"
  shows "run_state (AuthService_Login E (ar_username a) password) s =
    (Inr \<lparr>token_text = tok, token_expires_at = now E + token_lifetime,
       token_account_id = ar_id a, token_roles = stringsToRoles (ar_roles a)\<rparr>, s)"
proof -
  have "by_key ar_username (ar_username a) (accounts_table s) = [a]"
    using assms by (intro by_key_distinct) (auto simp: schema_ok_def accounts_ok_def)
  with assms show ?thesis
    by (simp add: AuthService_Login_def run_rules Let_def)
qed

lemma Login_refused:
  assumes "healthy s"
    and "\<And>a. a \<in> set (accounts_table s) \<Longrightarrow> ar_username a = u \<Longrightarrow>
           \<not> bcrypt_compare E (ar_password_hash a) password"
  shows "run_state (AuthService_Login E u password) s =
    (Inl (NewUnauthorizedError ''invalid credentials''), s)"
proof (cases "by_key ar_username u (accounts_table s)")
  case Nil
  then show ?thesis using assms(1) by (simp add: AuthService_Login_def run_rules)
next
  case (Cons a rest)
  then have "a \<in> set (by_key ar_username u (accounts_table s))" by simp
  then have "a \<in> set (accounts_table s)" "ar_username a = u"
    by (auto simp: by_key_def)
  with assms Cons show ?thesis by (simp add: AuthService_Login_def run_rules)
qed

text \<open>A token whose claims name a stored account yields that account's user, with the roles of
  the token (not those of the table).\<close>

lemma Validate_ok:
  assumes "healthy s" "schema_ok s" "a \<in> set (accounts_table s)" "ar_id a \<noteq> []"
    and "jwt_parse E tok (validate_key E) (now E) = Some c" "claim_sub c = Some (ar_id a)"
  shows "run_state (AuthService_Validate E tok) s =
    (Inr \<lparr>ctx_account_id = ar_id a, ctx_user_id = ar_user_id a, ctx_roles = claimed_roles c\<rparr>, s)"
proof -
  have "by_key ar_id (ar_id a) (accounts_table s) = [a]"
    using assms by (intro by_key_distinct) (auto simp: schema_keys)
  moreover obtain u where "ur_id u = ar_user_id a"
    "[u. u \<leftarrow> users_table s, x \<leftarrow> accounts_table s, ur_id u = ar_user_id x \<and> ar_id x = ar_id a] = [u]"
    using account_user_row [OF assms(2,3)] by blast
  ultimately show ?thesis
    using assms by (simp add: AuthService_Validate_def run_rules Let_def)
qed

lemma Validate_context:
  assumes "run_state (AuthService_Validate E tok) s = (Inr ctx, s')"
  obtains c where "jwt_parse E tok (validate_key E) (now E) = Some c" "ctx_roles ctx = claimed_roles c"
  using assms
  by (auto simp: AuthService_Validate_def Let_def split: option.splits sum.splits prod.splits if_splits)

end
