(* ===== verification/Go_Time.thy ===== *)
theory Go_Time
  imports Domain
begin

text \<open>
  What the program uses of Go's package \<open>time\<close>: the calendar date and the clock of an instant in
  its location, the layouts \<open>2006-01-02\<close>, \<open>2006-01-02T15:04:05Z\<close> and \<open>RFC3339\<close> for printing, and
  \<open>time.Parse("2006-01-02", s)\<close>. Days are counted from 1 January of the year 0 of the proleptic
  Gregorian calendar. The conversions between days and dates are inverse to each other, and so
  are printing and parsing of dates.
\<close>

section \<open>Years\<close>

definition leap :: "int \<Rightarrow> bool" where
  "leap y \<longleftrightarrow> y mod 4 = 0 \<and> y mod 100 \<noteq> 0 \<or> y mod 400 = 0"

definition days_before_year :: "int \<Rightarrow> int" where
  "days_before_year y = 365 * y + (y + 3) div 4 - (y + 99) div 100 + (y + 399) div 400"

text \<open>The year of a day, by an estimate from the mean length of a year that is at most one off.\<close>

definition year_of_day :: "int \<Rightarrow> int" where
  "year_of_day d =
     (let y = 400 * d div 146097 in
      if days_before_year (y + 1) \<le> d then y + 1 else if d < days_before_year y then y - 1 else y)"

lemma ceiling_step:
  fixes y n :: int
  assumes "0 < n"
  shows "(y + 1 + (n - 1)) div n = (y + (n - 1)) div n + (if y mod n = 0 then 1 else 0)"
proof -
  obtain q r where y: "y = n * q + r" "0 \<le> r" "r < n"
    using assms by (metis mod_mult_div_eq pos_mod_bound pos_mod_sign add.commute)
  have m: "y mod n = r"
    using y by simp
  have a: "(y + 1 + (n - 1)) div n = q + 1"
  proof -
    have "y + 1 + (n - 1) = r + n * (q + 1)" using y by (simp add: algebra_simps)
    then have "(y + 1 + (n - 1)) div n = r div n + (q + 1)" using assms by (simp only: div_mult_self2)
    with y show ?thesis by simp
  qed
  have b: "(y + (n - 1)) div n = (if r = 0 then q else q + 1)"
  proof (cases "r = 0")
    case True
    have "y + (n - 1) = (n - 1) + n * q" using y True by simp
    then have "(y + (n - 1)) div n = (n - 1) div n + q" using assms by (simp only: div_mult_self2)
    with True assms show ?thesis by simp
  next
    case False
    have "y + (n - 1) = (r - 1) + n * (q + 1)" using y by (simp add: algebra_simps)
    then have "(y + (n - 1)) div n = (r - 1) div n + (q + 1)" using assms by (simp only: div_mult_self2)
    moreover have "(r - 1) div n = 0" using y False by simp
    ultimately show ?thesis using False by simp
  qed
  show ?thesis using a b m by simp
qed

lemma ceiling_step':
  fixes y n k :: int
  assumes "0 < n" "k = n - 1"
  shows "(y + 1 + k) div n = (y + k) div n + (if y mod n = 0 then 1 else 0)"
  unfolding assms(2) by (rule ceiling_step [OF assms(1)])

lemma leap_days: "(if leap y then 1 else 0) = (if y mod 4 = 0 then 1 else 0)
    - (if y mod 100 = 0 then 1 else 0) + (if y mod 400 = 0 then 1 else (0 :: int))"
proof -
  have "y mod 100 = 0 \<Longrightarrow> y mod 4 = 0" "y mod 400 = 0 \<Longrightarrow> y mod 100 = 0"
    by presburger+
  then show ?thesis
    unfolding leap_def by (cases "y mod 4 = 0"; cases "y mod 100 = 0"; cases "y mod 400 = 0") simp_all
qed

lemma days_before_next: "days_before_year (y + 1) = days_before_year y + (if leap y then 366 else 365)"
proof -
  have steps: "(y + 1 + 3) div 4 = (y + 3) div 4 + (if y mod 4 = 0 then 1 else 0)"
    "(y + 1 + 99) div 100 = (y + 99) div 100 + (if y mod 100 = 0 then 1 else 0)"
    "(y + 1 + 399) div 400 = (y + 399) div 400 + (if y mod 400 = 0 then 1 else 0)"
    by (rule ceiling_step'; simp)+
  have "days_before_year (y + 1) = days_before_year y + 365 + (if leap y then 1 else 0)"
    unfolding days_before_year_def steps leap_days by simp
  then show ?thesis by simp
qed

lemma days_before_bounds:
  "146097 * y - 396 \<le> 400 * days_before_year y" "400 * days_before_year y \<le> 146097 * y + 699"
proof -
  define a b c where abc: "a = (y + 3) div 4" "b = (y + 99) div 100" "c = (y + 399) div 400"
  have "4 * a \<le> y + 3" "y \<le> 4 * a" "100 * b \<le> y + 99" "y \<le> 100 * b" "400 * c \<le> y + 399" "y \<le> 400 * c"
    unfolding abc by linarith+
  moreover have "days_before_year y = 365 * y + a - b + c"
    by (simp add: days_before_year_def abc)
  ultimately show "146097 * y - 396 \<le> 400 * days_before_year y" "400 * days_before_year y \<le> 146097 * y + 699"
    by linarith+
qed

lemma year_of_day_bounds: "days_before_year (year_of_day d) \<le> d \<and> d < days_before_year (year_of_day d + 1)"
proof -
  define y where "y = 400 * d div 146097"
  have "146097 * y \<le> 400 * d" "400 * d < 146097 * y + 146097"
  proof -
    have "400 * d = 146097 * y + 400 * d mod 146097"
      by (simp add: y_def)
    moreover have "0 \<le> 400 * d mod 146097" "400 * d mod 146097 < 146097"
      by simp_all
    ultimately show "146097 * y \<le> 400 * d" "400 * d < 146097 * y + 146097" by linarith+
  qed
  note y = this
  have "146097 * y + 146097 \<le> 400 * days_before_year (y + 2)"
    using days_before_bounds(1) [of "y + 2"] by (simp add: algebra_simps)
  then have "400 * d < 400 * days_before_year (y + 2)"
    using y(2) by (rule order_less_le_trans [rotated])
  moreover have "400 * days_before_year (y - 1) \<le> 146097 * y"
    using days_before_bounds(2) [of "y - 1"] by simp
  then have "400 * days_before_year (y - 1) \<le> 400 * d"
    using y(1) by (rule order_trans)
  ultimately have "d < days_before_year (y + 2) \<and> days_before_year (y - 1) \<le> d"
    by simp
  then show ?thesis
    unfolding year_of_day_def y_def [symmetric] Let_def by (auto simp: add.commute)
qed

lemma days_before_mono: "y \<le> z \<Longrightarrow> days_before_year y \<le> days_before_year z"
proof (induction z rule: int_ge_induct)
  case (step z)
  then show ?case using days_before_next [of z] by (simp split: if_splits)
qed simp

lemma year_of_day_unique:
  assumes "days_before_year y \<le> d" "d < days_before_year (y + 1)"
  shows "year_of_day d = y"
  using assms year_of_day_bounds [of d] days_before_mono [of "y + 1" "year_of_day d"]
    days_before_mono [of "year_of_day d + 1" y] by linarith

section \<open>Months and days\<close>

definition month_lengths :: "int \<Rightarrow> int list" where
  "month_lengths y = [31, if leap y then 29 else 28, 31, 30, 31, 30, 31, 31, 30, 31, 30, 31]"

text \<open>The month (from 1) and the day in it (from 1) of the day \<open>d\<close> of a year (from 0).\<close>

fun month_of_day :: "int list \<Rightarrow> int \<Rightarrow> nat \<times> int" where
  "month_of_day [] d = (1, d + 1)"
| "month_of_day (l # ls) d =
     (if d < l then (1, d + 1) else (let (m, k) = month_of_day ls (d - l) in (Suc m, k)))"

definition days_before_month :: "int list \<Rightarrow> nat \<Rightarrow> int" where
  "days_before_month ls m = sum_list (take (m - 1) ls)"

record date =
  year :: int
  month :: nat
  day :: int

definition valid_date :: "date \<Rightarrow> bool" where
  "valid_date c \<longleftrightarrow> 1 \<le> month c \<and> month c \<le> 12 \<and> 1 \<le> day c \<and> day c \<le> month_lengths (year c) ! (month c - 1)"

definition date_of_day :: "int \<Rightarrow> date" where
  "date_of_day d =
     (let y = year_of_day d; (m, k) = month_of_day (month_lengths y) (d - days_before_year y)
      in \<lparr>year = y, month = m, day = k\<rparr>)"

definition day_of_date :: "date \<Rightarrow> int" where
  "day_of_date c = days_before_year (year c) + days_before_month (month_lengths (year c)) (month c) + day c - 1"

lemma sum_take_nonneg: "\<forall>l\<in>set ls. 0 < l \<Longrightarrow> 0 \<le> sum_list (take n ls)" for ls :: "int list"
  by (induction ls arbitrary: n) (auto simp: take_Cons' intro: less_imp_le add_nonneg_nonneg)

lemma sum_drop_nonneg: "\<forall>l\<in>set ls. 0 < l \<Longrightarrow> 0 \<le> sum_list (drop n ls)" for ls :: "int list"
  by (intro sum_list_nonneg) (meson in_set_dropD less_imp_le)

lemma month_of_day_correct:
  assumes "0 \<le> d" "d < sum_list ls" "\<forall>l\<in>set ls. 0 < l" "month_of_day ls d = (m, k)"
  shows "1 \<le> m \<and> m \<le> length ls \<and> 1 \<le> k \<and> k \<le> ls ! (m - 1) \<and> days_before_month ls m + k - 1 = d"
  using assms
proof (induction ls arbitrary: d m)
  case Nil
  then show ?case by simp
next
  case (Cons l ls)
  show ?case
  proof (cases "d < l")
    case True
    with Cons.prems show ?thesis by (auto simp: days_before_month_def)
  next
    case False
    then obtain m' where m': "month_of_day ls (d - l) = (m', k)" "m = Suc m'"
      using Cons.prems(4) by (auto split: prod.splits)
    have "1 \<le> m' \<and> m' \<le> length ls \<and> 1 \<le> k \<and> k \<le> ls ! (m' - 1) \<and> days_before_month ls m' + k - 1 = d - l"
      using Cons.prems False by (intro Cons.IH [OF _ _ _ m'(1)]) auto
    with m'(2) show ?thesis
      by (cases m') (auto simp: days_before_month_def)
  qed
qed

lemma month_of_day_unique:
  assumes "1 \<le> m" "m \<le> length ls" "1 \<le> k" "k \<le> ls ! (m - 1)" "\<forall>l\<in>set ls. 0 < l"
  shows "month_of_day ls (days_before_month ls m + k - 1) = (m, k)"
  using assms
proof (induction ls arbitrary: m)
  case Nil
  then show ?case by simp
next
  case (Cons l ls)
  show ?case
  proof (cases "m = 1")
    case True
    with Cons.prems show ?thesis by (auto simp: days_before_month_def)
  next
    case False
    then obtain m' where m': "m = Suc m'" "1 \<le> m'"
      using Cons.prems(1) by (cases m) auto
    have "month_of_day ls (days_before_month ls m' + k - 1) = (m', k)"
      using Cons.prems m' by (intro Cons.IH) (auto simp: nth_Cons')
    moreover have "days_before_month (l # ls) m = l + days_before_month ls m'"
      using m' by (cases m') (auto simp: days_before_month_def)
    moreover have "0 \<le> days_before_month ls m'"
      using Cons.prems(5) by (simp add: days_before_month_def sum_take_nonneg)
    moreover have "l + days_before_month ls m' + k - 1 - l = days_before_month ls m' + k - 1"
      by simp
    ultimately show ?thesis
      using m' Cons.prems(3) by (simp only: month_of_day.simps Let_def prod.case) simp
  qed
qed

lemma month_lengths_facts:
  "length (month_lengths y) = 12" "\<forall>l\<in>set (month_lengths y). 0 < l"
  "sum_list (month_lengths y) = (if leap y then 366 else 365)"
  by (simp_all add: month_lengths_def)

lemma month_length_bounds:
  assumes "m < 12"
  shows "28 \<le> month_lengths y ! m \<and> month_lengths y ! m \<le> 31"
proof -
  have "\<forall>l\<in>set (month_lengths y). 28 \<le> l \<and> l \<le> 31"
    by (simp add: month_lengths_def)
  moreover have "month_lengths y ! m \<in> set (month_lengths y)"
    using assms by (intro nth_mem) (simp add: month_lengths_facts)
  ultimately show ?thesis by blast
qed

text \<open>The two conversions are inverse to each other.\<close>

lemma date_of_day_correct: "valid_date (date_of_day d) \<and> day_of_date (date_of_day d) = d"
proof -
  let ?y = "year_of_day d"
  obtain m k where mk: "month_of_day (month_lengths ?y) (d - days_before_year ?y) = (m, k)"
    by fastforce
  have "0 \<le> d - days_before_year ?y" "d - days_before_year ?y < sum_list (month_lengths ?y)"
    using year_of_day_bounds [of d] days_before_next [of ?y] by (auto simp: month_lengths_facts)
  from month_of_day_correct [OF this month_lengths_facts(2) mk] mk show ?thesis
    by (simp add: date_of_day_def valid_date_def day_of_date_def month_lengths_facts)
qed

lemma day_of_date_bounds:
  assumes "valid_date c"
  shows "days_before_year (year c) \<le> day_of_date c \<and> day_of_date c < days_before_year (year c + 1)"
proof -
  let ?ls = "month_lengths (year c)"
  have v: "1 \<le> month c" "month c \<le> 12" "1 \<le> day c" "day c \<le> ?ls ! (month c - 1)"
    using assms by (simp_all add: valid_date_def)
  have "sum_list ?ls = sum_list (take (month c - 1) ?ls) + sum_list (drop (month c - 1) ?ls)"
    by (metis append_take_drop_id sum_list_append)
  moreover have "drop (month c - 1) ?ls = ?ls ! (month c - 1) # drop (month c) ?ls"
    using v by (subst Cons_nth_drop_Suc [symmetric]) (auto simp: month_lengths_facts)
  moreover have "0 \<le> sum_list (drop (month c) ?ls)" "0 \<le> sum_list (take (month c - 1) ?ls)"
    using month_lengths_facts(2) [of "year c"] by (simp_all add: sum_take_nonneg sum_drop_nonneg)
  ultimately show ?thesis
    using v days_before_next [of "year c"] month_lengths_facts(3) [of "year c"]
    by (simp add: day_of_date_def days_before_month_def)
qed

lemma date_of_day_of_date: "valid_date c \<Longrightarrow> date_of_day (day_of_date c) = c"
proof -
  assume v: "valid_date c"
  have y: "year_of_day (day_of_date c) = year c"
    using day_of_date_bounds [OF v] by (intro year_of_day_unique) auto
  have "month_of_day (month_lengths (year c))
      (days_before_month (month_lengths (year c)) (month c) + day c - 1) = (month c, day c)"
    using v by (intro month_of_day_unique) (auto simp: valid_date_def month_lengths_facts)
  moreover have "day_of_date c - days_before_year (year c) =
      days_before_month (month_lengths (year c)) (month c) + day c - 1"
    by (simp add: day_of_date_def)
  ultimately show ?thesis
    unfolding date_of_day_def y Let_def by simp
qed

section \<open>Clock and layouts\<close>

text \<open>Days from 1 January of the year 0 to 1 January 1970.\<close>

definition unix_epoch_day :: int where
  "unix_epoch_day = 719528"

lemma unix_epoch_day_ok: "day_of_date \<lparr>year = 1970, month = 1, day = 1\<rparr> = unix_epoch_day"
  by (simp add: day_of_date_def days_before_year_def days_before_month_def unix_epoch_day_def)

definition local_seconds :: "go_time \<Rightarrow> int" where
  "local_seconds t = time_unix t + time_offset t"

definition time_date :: "go_time \<Rightarrow> date" where
  "time_date t = date_of_day (local_seconds t div 86400 + unix_epoch_day)"

definition time_clock :: "go_time \<Rightarrow> int \<times> int \<times> int" where
  "time_clock t = (let s = local_seconds t mod 86400 in (s div 3600, s mod 3600 div 60, s mod 60))"

text \<open>\<open>appendInt\<close>: decimal digits, filled with zeros to a width.\<close>

definition appendInt :: "int \<Rightarrow> nat \<Rightarrow> string" where
  "appendInt n w = (if n < 0 then ''-'' else []) @
     (let ds = decimal (nat \<bar>n\<bar>) in replicate (w - length ds) (CHR ''0'') @ ds)"

definition format_date :: "date \<Rightarrow> string" where
  "format_date c = appendInt (year c) 4 @ ''-'' @ appendInt (int (month c)) 2 @ ''-'' @ appendInt (day c) 2"

definition format_clock :: "int \<times> int \<times> int \<Rightarrow> string" where
  "format_clock hms = (case hms of (h, m, s) \<Rightarrow>
     appendInt h 2 @ '':'' @ appendInt m 2 @ '':'' @ appendInt s 2)"

text \<open>The zone of \<open>RFC3339\<close>: \<open>Z\<close> for UTC, otherwise sign, hours and minutes.\<close>

definition format_zone :: "int \<Rightarrow> string" where
  "format_zone off =
     (if off = 0 then ''Z''
      else let z = \<bar>off\<bar> div 60
        in (if off < 0 then ''-'' else ''+'') @ appendInt (z div 60) 2 @ '':'' @ appendInt (z mod 60) 2)"

definition Format_Date :: "go_time \<Rightarrow> string" where
  "Format_Date t = format_date (time_date t)"

definition Format_RFC3339 :: "go_time \<Rightarrow> string" where
  "Format_RFC3339 t = format_date (time_date t) @ ''T'' @ format_clock (time_clock t) @ format_zone (time_offset t)"

text \<open>The layout \<open>2006-01-02T15:04:05Z\<close>: its \<open>Z\<close> is not a zone but the letter.\<close>

definition Format_Z :: "go_time \<Rightarrow> string" where
  "Format_Z t = format_date (time_date t) @ ''T'' @ format_clock (time_clock t) @ ''Z''"

section \<open>Parsing a date\<close>

definition is_digit :: "char \<Rightarrow> bool" where
  "is_digit c \<longleftrightarrow> 48 \<le> (of_char c :: nat) \<and> (of_char c :: nat) \<le> 57"

definition digits_value :: "string \<Rightarrow> nat" where
  "digits_value ds = foldl (\<lambda>n c. 10 * n + (of_char c - 48)) 0 ds"

definition Date_UTC :: "date \<Rightarrow> go_time" where
  "Date_UTC c = \<lparr>time_unix = 86400 * (day_of_date c - unix_epoch_day), time_offset = 0\<rparr>"

text \<open>\<open>time.Parse("2006-01-02", s)\<close>: four digits, two, two, with dashes, nothing after them, and a
  day that exists.\<close>

definition Parse_Date :: "string \<Rightarrow> go_time option" where
  "Parse_Date s =
     (case s of
        [y1, y2, y3, y4, s1, m1, m2, s2, d1, d2] \<Rightarrow>
          if s1 = CHR ''-'' \<and> s2 = CHR ''-'' \<and> list_all is_digit [y1, y2, y3, y4, m1, m2, d1, d2]
          then let c = \<lparr>year = int (digits_value [y1, y2, y3, y4]), month = digits_value [m1, m2],
                 day = int (digits_value [d1, d2])\<rparr>
            in if valid_date c then Some (Date_UTC c) else None
          else None
      | _ \<Rightarrow> None)"

section \<open>Round trips\<close>

lemma digit_char_0: "digit_char 0 = CHR ''0''"
  by (simp add: digit_char_def char_of_eq_iff take_bit_eq_mod)

lemma split_digit: "y < k \<Longrightarrow> (k * x + y) div k = x \<and> (k * x + y) mod k = y" for x y k :: nat
  by simp

lemma pad_zeros: "replicate 3 x = [x, x, x]" "replicate 2 x = [x, x]" "replicate (Suc 0) x = [x]"
  by (simp_all add: numeral_eq_Suc)

lemma decimal_small: "n < 10 \<Longrightarrow> decimal n = [digit_char n]"
  by (subst decimal.simps) simp

lemma decimal_large: "10 \<le> n \<Longrightarrow> decimal n = decimal (n div 10) @ [digit_char (n mod 10)]"
  by (subst decimal.simps) simp

lemma appendInt_2:
  assumes "n < 100"
  shows "appendInt (int n) 2 = [digit_char (n div 10), digit_char (n mod 10)]"
proof (cases "n < 10")
  case True
  then show ?thesis by (simp add: appendInt_def decimal_small digit_char_0)
next
  case False
  with assms show ?thesis
    by (simp add: appendInt_def decimal_large decimal_small)
qed

lemma appendInt_4:
  assumes "n < 10000"
  shows "appendInt (int n) 4 =
    [digit_char (n div 1000), digit_char (n div 100 mod 10), digit_char (n div 10 mod 10), digit_char (n mod 10)]"
proof -
  define a b c where abc: "a = n div 10" "b = a div 10" "c = b div 10"
  have div: "n div 100 = b" "n div 1000 = c"
    unfolding abc using div_mult2_eq [of n 10 10] div_mult2_eq [of n 100 10] by simp_all
  have lt: "c < 10" using assms unfolding div [symmetric] by simp
  have md: "n div 10 mod 10 = a mod 10" by (simp add: abc)
  have small: "n < 10 \<Longrightarrow> a = 0" "a < 10 \<Longrightarrow> b = 0" "b < 10 \<Longrightarrow> c = 0"
    by (simp_all add: abc)
  consider "n < 10" | "\<not> n < 10" "a < 10" | "\<not> n < 10" "\<not> a < 10" "b < 10"
    | "\<not> n < 10" "\<not> a < 10" "\<not> b < 10" by blast
  then have "appendInt (int n) 4 = [digit_char c, digit_char (b mod 10), digit_char (a mod 10), digit_char (n mod 10)]"
  proof cases
    case 1
    then have "b = 0" "c = 0" "a = 0" using small by simp_all
    with 1 show ?thesis by (simp add: appendInt_def decimal_small pad_zeros digit_char_0)
  next
    case 2
    then have "decimal n = [digit_char a, digit_char (n mod 10)]"
      by (simp add: decimal_large [of n] decimal_small abc(1) [symmetric])
    moreover have "b = 0" "c = 0" using 2 small by simp_all
    ultimately show ?thesis using 2 by (simp add: appendInt_def pad_zeros digit_char_0)
  next
    case 3
    then have "decimal n = [digit_char b, digit_char (a mod 10), digit_char (n mod 10)]"
      by (simp add: decimal_large [of n] decimal_large [of a] decimal_small abc(1,2) [symmetric])
    moreover have "c = 0" using 3 small by simp
    ultimately show ?thesis using 3 by (simp add: appendInt_def pad_zeros digit_char_0)
  next
    case 4
    then have "decimal n = [digit_char c, digit_char (b mod 10), digit_char (a mod 10), digit_char (n mod 10)]"
      using lt by (simp add: decimal_large [of n] decimal_large [of a] decimal_large [of b] decimal_small abc [symmetric])
    then show ?thesis by (simp add: appendInt_def)
  qed
  then show ?thesis unfolding div md .
qed

lemma is_digit_digit_char [simp]: "n < 10 \<Longrightarrow> is_digit (digit_char n)"
  by (simp add: is_digit_def)

lemma digit_char_of_digit: "is_digit c \<Longrightarrow> digit_char (of_char c - 48) = c"
  by (simp add: is_digit_def digit_char_def)

lemma is_digit_bound: "is_digit c \<Longrightarrow> of_char c - 48 < (10 :: nat)"
  by (auto simp: is_digit_def)

lemma digits_value_2: "digits_value [a, b] = 10 * (of_char a - 48) + (of_char b - 48)"
  by (simp add: digits_value_def)

lemma digits_value_4: "digits_value [a, b, c, d] =
  1000 * (of_char a - 48) + 100 * (of_char b - 48) + 10 * (of_char c - 48) + (of_char d - 48)"
  by (simp add: digits_value_def)

lemma digits_value_appendInt_2: "n < 100 \<Longrightarrow> digits_value (appendInt (int n) 2) = n"
  by (simp add: appendInt_2 digits_value_2)

lemma digits_value_appendInt_4: "n < 10000 \<Longrightarrow> digits_value (appendInt (int n) 4) = n"
proof -
  assume n: "n < 10000"
  have "n = 10 * (n div 10) + n mod 10" "n div 10 = 10 * (n div 100) + n div 10 mod 10"
    "n div 100 = 10 * (n div 1000) + n div 100 mod 10"
    using div_mult2_eq [of n 10 10] div_mult2_eq [of n 100 10] by simp_all
  then have "n = 1000 * (n div 1000) + 100 * (n div 100 mod 10) + 10 * (n div 10 mod 10) + n mod 10"
    by linarith
  with n show ?thesis by (simp add: appendInt_4 digits_value_4)
qed

lemma appendInt_digits_value_2:
  assumes "is_digit a" "is_digit b"
  shows "digits_value [a, b] < 100 \<and> appendInt (int (digits_value [a, b])) 2 = [a, b]"
proof -
  define a' b' :: nat where ab: "a' = of_char a - 48" "b' = of_char b - 48"
  have lt: "a' < 10" "b' < 10" using assms ab by (simp_all add: is_digit_bound)
  have c: "digit_char a' = a" "digit_char b' = b" using assms ab by (simp_all add: digit_char_of_digit)
  have v: "digits_value [a, b] = 10 * a' + b'" by (simp add: digits_value_2 ab)
  have "10 * a' + b' < 100" using lt by simp
  from appendInt_2 [OF this] this show ?thesis
    unfolding v using c split_digit [OF lt(2), of a'] by simp
qed

lemma appendInt_digits_value_4:
  assumes "is_digit a" "is_digit b" "is_digit c" "is_digit d"
  shows "digits_value [a, b, c, d] < 10000 \<and> appendInt (int (digits_value [a, b, c, d])) 4 = [a, b, c, d]"
proof -
  define a' b' c' d' :: nat where
    abcd: "a' = of_char a - 48" "b' = of_char b - 48" "c' = of_char c - 48" "d' = of_char d - 48"
  have lt: "a' < 10" "b' < 10" "c' < 10" "d' < 10" using assms abcd by (simp_all add: is_digit_bound)
  have ch: "digit_char a' = a" "digit_char b' = b" "digit_char c' = c" "digit_char d' = d"
    using assms abcd by (simp_all add: digit_char_of_digit)
  define n where "n = 10 * (10 * (10 * a' + b') + c') + d'"
  have v: "digits_value [a, b, c, d] = n" by (simp add: digits_value_4 abcd n_def)
  have "n div 10 = 10 * (10 * a' + b') + c'" "n mod 10 = d'"
    unfolding n_def using split_digit [OF lt(4)] by blast+
  moreover from this have "n div 100 = 10 * a' + b'" "n div 10 mod 10 = c'"
    using split_digit [OF lt(3), of "10 * a' + b'"] div_mult2_eq [of n 10 10] by simp_all
  moreover from this have "n div 1000 = a'" "n div 100 mod 10 = b'"
    using split_digit [OF lt(2), of a'] div_mult2_eq [of n 100 10] by simp_all
  moreover have "n < 10000" unfolding n_def using lt by simp
  ultimately show ?thesis unfolding v using ch by (simp add: appendInt_4)
qed

text \<open>Printing a date and reading it back gives the instant of its midnight in UTC.\<close>

definition is_midnight :: "go_time \<Rightarrow> bool" where
  "is_midnight t \<longleftrightarrow> time_offset t = 0 \<and> time_unix t mod 86400 = 0"

lemma length_appendInt_cases:
  "n < 100 \<Longrightarrow> \<exists>a b. appendInt (int n) 2 = [a, b] \<and> is_digit a \<and> is_digit b"
  "n < 10000 \<Longrightarrow> \<exists>a b c d. appendInt (int n) 4 = [a, b, c, d] \<and> is_digit a \<and> is_digit b \<and> is_digit c \<and> is_digit d"
  by (simp_all add: appendInt_2 appendInt_4)

lemma Parse_format_date:
  assumes "valid_date c" "0 \<le> year c" "year c \<le> 9999"
  shows "Parse_Date (format_date c) = Some (Date_UTC c)"
proof -
  have d: "1 \<le> day c" "day c \<le> 31" "month c \<le> 12"
    using assms(1) month_length_bounds [of "month c - 1" "year c"] by (simp_all add: valid_date_def) linarith
  define y k where "y = nat (year c)" and "k = nat (day c)"
  have y: "year c = int y" "y < 10000" and k: "day c = int k" "k < 100" and m: "month c < 100"
    using assms d by (simp_all add: y_def k_def)
  obtain y1 y2 y3 y4 where Y: "appendInt (int y) 4 = [y1, y2, y3, y4]"
    "is_digit y1" "is_digit y2" "is_digit y3" "is_digit y4"
    using length_appendInt_cases(2) [OF y(2)] by blast
  obtain m1 m2 where M: "appendInt (int (month c)) 2 = [m1, m2]" "is_digit m1" "is_digit m2"
    using length_appendInt_cases(1) [OF m] by blast
  obtain k1 k2 where K: "appendInt (int k) 2 = [k1, k2]" "is_digit k1" "is_digit k2"
    using length_appendInt_cases(1) [OF k(2)] by blast
  have "digits_value [y1, y2, y3, y4] = y" "digits_value [m1, m2] = month c" "digits_value [k1, k2] = k"
    using digits_value_appendInt_4 [OF y(2)] digits_value_appendInt_2 [OF m] digits_value_appendInt_2 [OF k(2)]
    by (simp_all add: Y M K)
  moreover have c: "\<lparr>year = int y, month = month c, day = int k\<rparr> = c"
    using y(1) k(1) by (cases c) simp
  ultimately show ?thesis
    using Y M K assms(1) y(1) k(1) by (simp add: Parse_Date_def format_date_def Let_def c)
qed

lemma time_date_UTC: "valid_date c \<Longrightarrow> time_date (Date_UTC c) = c"
  by (simp add: time_date_def Date_UTC_def local_seconds_def date_of_day_of_date)

lemma Date_UTC_time_date: "is_midnight t \<Longrightarrow> Date_UTC (time_date t) = t"
  using date_of_day_correct
  by (cases t) (auto simp: is_midnight_def time_date_def Date_UTC_def local_seconds_def)

lemma Parse_Format_Date:
  assumes "is_midnight t" "0 \<le> year (time_date t)" "year (time_date t) \<le> 9999"
  shows "Parse_Date (Format_Date t) = Some t"
  using Parse_format_date [of "time_date t"] assms date_of_day_correct
  by (simp add: Format_Date_def Date_UTC_time_date) (simp add: time_date_def)

lemma Format_Parse_Date:
  assumes "Parse_Date s = Some t"
  shows "Format_Date t = s \<and> is_midnight t \<and> 0 \<le> year (time_date t) \<and> year (time_date t) \<le> 9999"
proof -
  obtain y1 y2 y3 y4 m1 m2 d1 d2 where s: "s = [y1, y2, y3, y4, CHR ''-'', m1, m2, CHR ''-'', d1, d2]"
    and dg: "is_digit y1" "is_digit y2" "is_digit y3" "is_digit y4" "is_digit m1" "is_digit m2" "is_digit d1" "is_digit d2"
    using assms by (auto simp: Parse_Date_def Let_def split: list.splits if_splits)
  define c where "c = \<lparr>year = int (digits_value [y1, y2, y3, y4]), month = digits_value [m1, m2],
    day = int (digits_value [d1, d2])\<rparr>"
  have t: "t = Date_UTC c" and v: "valid_date c"
    using assms unfolding s c_def by (auto simp: Parse_Date_def Let_def split: if_splits)
  have "format_date c = s"
    using appendInt_digits_value_4 [OF dg(1-4)] appendInt_digits_value_2 [OF dg(5-6)]
      appendInt_digits_value_2 [OF dg(7-8)] by (simp add: format_date_def c_def s)
  moreover have "0 \<le> year c" "year c \<le> 9999"
    using appendInt_digits_value_4 [OF dg(1-4)] by (simp_all add: c_def)
  ultimately show ?thesis
    using v by (simp add: t Format_Date_def time_date_UTC) (simp add: is_midnight_def Date_UTC_def)
qed

text \<open>The texts that \<open>Parse_Date\<close> accepts are those of the days of the years 0 to 9999.\<close>

definition date_text :: "string \<Rightarrow> bool" where
  "date_text s \<longleftrightarrow> (\<exists>t. is_midnight t \<and> 0 \<le> year (time_date t) \<and> year (time_date t) \<le> 9999 \<and> Format_Date t = s)"

lemma Parse_Date_iff: "Parse_Date s = None \<longleftrightarrow> \<not> date_text s"
proof
  assume "Parse_Date s = None"
  then show "\<not> date_text s" by (auto simp: date_text_def Parse_Format_Date)
next
  assume no: "\<not> date_text s"
  show "Parse_Date s = None"
  proof (rule ccontr)
    assume "Parse_Date s \<noteq> None"
    then obtain t where "Parse_Date s = Some t" by auto
    from Format_Parse_Date [OF this] no show False by (auto simp: date_text_def)
  qed
qed

text \<open>The layout with a literal \<open>Z\<close> prints the local time of day of the zone as if it were UTC.\<close>

lemma Format_Z_shift:
  "Format_Z t = Format_RFC3339 \<lparr>time_unix = time_unix t + time_offset t, time_offset = 0\<rparr>"
  by (simp add: Format_Z_def Format_RFC3339_def format_zone_def time_date_def time_clock_def local_seconds_def)

end
