(* ===== verification/Dto.thy ===== *)
theory Dto
  imports Auth Go_Time
begin

text \<open>
  The presentation layer's data (\<open>presentation/dto.go\<close>, \<open>helpers.go\<close>, \<open>sse.go\<close>): requests as
  \<open>encoding/json\<close> decodes them (a missing field is the zero value), the objects of the
  responses, and responses themselves, a status with a body. A request body is an option:
  \<open>None\<close> when \<open>decodeJSON\<close> reports an error.
\<close>

section \<open>Requests\<close>

record login_request =
  lr_username :: string
  lr_password :: string

record report_request =
  rq_team_id :: string
  rq_member_id :: string
  rq_since :: string
  rq_until :: string
  rq_types :: "string list"
  rq_report_type :: string

record platform_username_request =
  pu_platform :: string
  pu_username :: string

record add_repo_request =
  ar_full_name :: string
  ar_platform :: string
  ar_api_token :: string

record config_set_request =
  cs_key :: string
  cs_setting :: string

record create_user_request =
  cu_username :: string
  cu_display_name :: string
  cu_email :: string
  cu_password :: string
  cu_roles :: "string list"

record create_team_request =
  ct_name :: string
  ct_leader_id :: string

section \<open>Responses\<close>

record user_dto =
  ud_id :: string
  ud_username :: string
  ud_display_name :: string
  ud_avatar_url :: string
  ud_platform_usernames :: "(string, string) go_map"

record login_response =
  login_token :: string
  login_roles :: "string list"
  login_user :: user_dto

record activity_dto =
  ad_type :: string
  ad_display_name :: string
  ad_title :: string
  ad_url :: string
  ad_created_at :: string
  ad_summary :: string

record activity_count_dto =
  ac_type :: string
  ac_display_name :: string
  ac_count :: nat

record user_report_dto =
  ur_dto_user :: user_dto
  ur_dto_counts :: "activity_count_dto list"
  ur_dto_activities :: "activity_dto list"

record member_dto =
  md_id :: string
  md_username :: string
  md_display_name :: string

record repo_dto =
  rd_id :: string
  rd_full_name :: string
  rd_platform :: string

record team_dto =
  td_id :: string
  td_name :: string
  td_leader_ids :: "string list"
  td_leaders :: "member_dto list"
  td_member_ids :: "string list"
  td_members :: "member_dto list"
  td_repository_ids :: "string list"
  td_repositories :: "repo_dto list"

record team_summary_dto =
  ts_id :: string
  ts_name :: string
  ts_leader_ids :: "string list"

record admin_user_dto =
  au_id :: string
  au_username :: string
  au_display_name :: string
  au_email :: string
  au_roles :: "string list"
  au_teams :: "team_summary_dto list"

record sse_event_data =
  sse_type :: string
  sse_report :: "user_report_dto option"
  sse_error :: string

text \<open>The body of a response; \<open>EventStream\<close> is the sequence of events written to it, each with
  its event name, and how the stream ends: the handler returns, the process dies of a panic
  outside the handler's goroutine, or the handler waits forever. The last four are what the file
  server writes: the content of a file, the entries of a directory, a line of text, and a redirect
  to a location.\<close>

datatype ending = Closed | Crashed | Hangs

datatype body =
    ErrorBody string
  | FieldsBody "(string \<times> string) list"
  | LoginBody login_response
  | UserBody user_dto
  | TeamsBody "team_dto list"
  | TeamSummaryBody team_summary_dto
  | AdminUsersBody "admin_user_dto list"
  | AdminUserBody admin_user_dto
  | ConfigBody "(string, string) go_map"
  | BackupBody backup_file
  | EventStream "(string \<times> sse_event_data) list" ending
  | FileBody string
  | ListingBody string
  | TextBody string
  | LocationBody string

record response =
  status :: nat
  resp_body :: body

definition writeJSON :: "nat \<Rightarrow> body \<Rightarrow> response" where
  "writeJSON st b = \<lparr>status = st, resp_body = b\<rparr>"

definition writeError :: "nat \<Rightarrow> string \<Rightarrow> response" where
  "writeError st m = writeJSON st (ErrorBody m)"

definition write_status :: "string \<Rightarrow> response" where
  "write_status m = writeJSON 200 (FieldsBody [(''status'', m)])"

lemma response_simps [simp]:
  "status (writeJSON st b) = st" "resp_body (writeJSON st b) = b"
  "status (writeError st m) = st" "resp_body (writeError st m) = ErrorBody m"
  "status (write_status m) = 200" "resp_body (write_status m) = FieldsBody [(''status'', m)]"
  by (simp_all add: writeJSON_def writeError_def write_status_def)

section \<open>Conversions\<close>

text \<open>The loop \<open>pu[p.Name] = name\<close> over the user's platform usernames.\<close>

fun dto_platform_names :: "(git_platform \<times> string) list \<Rightarrow> (string, string) go_map \<Rightarrow> (string, string) go_map" where
  "dto_platform_names [] m = m"
| "dto_platform_names ((p, n) # ps) m = dto_platform_names ps (map_put (platform_name p) n m)"

definition UserToDTO :: "iteration \<Rightarrow> user \<Rightarrow> user_dto" where
  "UserToDTO it u = \<lparr>ud_id = user_id u, ud_username = user_username u,
     ud_display_name = user_display_name u, ud_avatar_url = user_avatar_url u,
     ud_platform_usernames = dto_platform_names (range_order it (user_platform_usernames u)) []\<rparr>"

lemma map_of_dto_platform_names:
  "map_of (dto_platform_names ps m) k =
     (case map_of (rev (map (\<lambda>(p, n). (platform_name p, n)) ps)) k of
        Some n \<Rightarrow> Some n
      | None \<Rightarrow> map_of m k)"
  by (induction ps m rule: dto_platform_names.induct) (auto simp: map_add_def split: option.splits)

definition ActivityToDTO :: "activity \<Rightarrow> activity_dto" where
  "ActivityToDTO a =
     (let data = GetData a; t = GetType a
      in \<lparr>ad_type = type_name t, ad_display_name = type_display_name t, ad_title = data_title data,
        ad_url = data_url data, ad_created_at = Format_Z (data_created_at data), ad_summary = GetSummary a\<rparr>)"

definition count_to_dto :: "activity_count \<Rightarrow> activity_count_dto" where
  "count_to_dto c = \<lparr>ac_type = type_name (count_type c),
     ac_display_name = type_display_name (count_type c), ac_count = count_count c\<rparr>"

definition UserReportToDTO :: "iteration \<Rightarrow> user_report \<Rightarrow> user_report_dto" where
  "UserReportToDTO it r = \<lparr>ur_dto_user = UserToDTO it (report_user r),
     ur_dto_counts = map count_to_dto (report_counts r),
     ur_dto_activities = map ActivityToDTO (report_activities r)\<rparr>"

lemma time_text_UTC: "time_offset t = 0 \<Longrightarrow> Format_Z t = Format_RFC3339 t"
  by (simp add: Format_Z_def Format_RFC3339_def format_zone_def)

text \<open>The letter \<open>Z\<close> of the layout is printed for every zone: a time two hours east of UTC is sent
  to the client as an instant two hours later.\<close>

lemma activity_time_wrong_zone:
  "Format_Z \<lparr>time_unix = 0, time_offset = 7200\<rparr> = ''1970-01-01T02:00:00Z''"
  "Format_Z \<lparr>time_unix = 7200, time_offset = 0\<rparr> = ''1970-01-01T02:00:00Z''"
  "Format_RFC3339 \<lparr>time_unix = 0, time_offset = 7200\<rparr> = ''1970-01-01T02:00:00+02:00''"
  by code_simp+

end
