(* ===== verification/Fetching.thy ===== *)
theory Fetching
  imports Dto
begin

text \<open>
  The ports of \<open>application/ports.go\<close> for reading activity from a platform, and the registry of
  \<open>application/registry.go\<close>. A call to a platform may return a value or an error, it may panic, or
  it may never return (the client has no timeout and follows pages as long as the server names a
  next one): this is the type \<open>outcome\<close>. The three methods that ask the platform are functions of
  their arguments; the platform gives the same answers for the duration of one report.
\<close>

section \<open>Outcomes\<close>

datatype 'a outcome = Returned 'a | Panicked | Diverged

text \<open>\<open>x, err := m; if err != nil { return nil, err }\<close> and the same with a wrapped error.\<close>

fun and_then :: "'a result outcome \<Rightarrow> ('a \<Rightarrow> 'b result outcome) \<Rightarrow> 'b result outcome" where
  "and_then (Returned (Inl e)) k = Returned (Inl e)"
| "and_then (Returned (Inr x)) k = k x"
| "and_then Panicked k = Panicked"
| "and_then Diverged k = Diverged"

fun wrap_err :: "string \<Rightarrow> 'a result outcome \<Rightarrow> 'a result outcome" where
  "wrap_err msg (Returned (Inl e)) = Returned (Inl (Errorf msg e))"
| "wrap_err msg r = r"

text \<open>A loop that appends what each round yields and stops at the first error.\<close>

fun append_each :: "('a \<Rightarrow> 'b list result outcome) \<Rightarrow> 'a list \<Rightarrow> 'b list result outcome" where
  "append_each f [] = Returned (Inr [])"
| "append_each f (x # xs) =
     and_then (f x) (\<lambda>ys. and_then (append_each f xs) (\<lambda>zs. Returned (Inr (ys @ zs))))"

lemma and_then_ok: "and_then m k = Returned (Inr y) \<longleftrightarrow> (\<exists>x. m = Returned (Inr x) \<and> k x = Returned (Inr y))"
  by (cases "(m, k)" rule: and_then.cases) auto

lemma and_then_Panicked: "and_then m k = Panicked \<longleftrightarrow> m = Panicked \<or> (\<exists>x. m = Returned (Inr x) \<and> k x = Panicked)"
  by (cases "(m, k)" rule: and_then.cases) auto

lemma wrap_err_ok [simp]: "wrap_err msg m = Returned (Inr y) \<longleftrightarrow> m = Returned (Inr y)"
  by (cases "(msg, m)" rule: wrap_err.cases) auto

lemma wrap_err_Panicked [simp]: "wrap_err msg m = Panicked \<longleftrightarrow> m = Panicked"
  by (cases "(msg, m)" rule: wrap_err.cases) auto

lemma append_each_ok:
  "append_each f xs = Returned (Inr ys) \<longleftrightarrow>
     (\<exists>yss. list_all2 (\<lambda>x zs. f x = Returned (Inr zs)) xs yss \<and> ys = concat yss)"
proof (induction xs arbitrary: ys)
  case Nil
  then show ?case by auto
next
  case (Cons x xs)
  show ?case
    by (force simp: and_then_ok Cons.IH list_all2_Cons1)
qed

lemma append_each_value:
  assumes "\<And>x. x \<in> set xs \<Longrightarrow> f x = Returned (Inr (g x))"
  shows "append_each f xs = Returned (Inr (concat (map g xs)))"
  using assms by (induction xs) auto

lemma append_each_no_panic:
  assumes "\<And>x. x \<in> set xs \<Longrightarrow> f x \<noteq> Panicked"
  shows "append_each f xs \<noteq> Panicked"
  using assms by (induction xs) (auto simp: and_then_Panicked)

lemma append_each_set:
  assumes "append_each f xs = Returned (Inr ys)" "y \<in> set ys"
  obtains x zs where "x \<in> set xs" "f x = Returned (Inr zs)" "y \<in> set zs"
proof -
  obtain yss where yss: "list_all2 (\<lambda>x zs. f x = Returned (Inr zs)) xs yss" "ys = concat yss"
    using assms(1) by (auto simp: append_each_ok)
  then obtain zs where "zs \<in> set yss" "y \<in> set zs"
    using assms(2) by auto
  then obtain i where i: "i < length yss" "y \<in> set (yss ! i)"
    by (metis in_set_conv_nth)
  with yss(1) have "xs ! i \<in> set xs" "f (xs ! i) = Returned (Inr (yss ! i))"
    by (auto simp: list_all2_conv_all_nth)
  then show thesis using i(2) by (rule that)
qed

section \<open>Fetchers\<close>

type_synonym activities_call =
  "go_time \<Rightarrow> go_time \<Rightarrow> activity_type list \<Rightarrow> activity list result outcome"

text \<open>A value of the interface \<open>ActivityFetcher\<close>; \<open>f_discover\<close> is \<open>None\<close> for a fetcher that is not
  also a \<open>RepoDiscoverer\<close>.\<close>

record fetcher =
  f_platforms :: "git_platform list"
  f_types :: "activity_type list"
  f_fetch :: "string \<Rightarrow> repository \<Rightarrow> activities_call"
  f_search :: "string \<Rightarrow> repository list \<Rightarrow> activities_call"
  f_discover :: "(string \<Rightarrow> repository list result outcome) option"

type_synonym fetcher_factory = "string \<Rightarrow> fetcher"

text \<open>What the report service relies on: a fetcher returns activities of requested types only, a
  review only from the period asked for, and the repositories it discovers are on its own
  platform and carry no token.\<close>

definition in_period :: "go_time \<Rightarrow> go_time \<Rightarrow> go_time \<Rightarrow> bool" where
  "in_period since until t \<longleftrightarrow> \<not> time_Before t since \<and> \<not> time_After t until"

definition as_requested :: "go_time \<Rightarrow> go_time \<Rightarrow> activity_type list \<Rightarrow> activity \<Rightarrow> bool" where
  "as_requested since until types a \<longleftrightarrow> type_name (GetType a) \<in> type_name ` set types \<and>
     (case a of PullRequestReview r \<Rightarrow> in_period since until (review_submitted_at r) | _ \<Rightarrow> True)"

locale activity_fetcher =
  fixes F :: fetcher and p :: git_platform
  assumes fetch_requested:
      "f_fetch F username repo since until types = Returned (Inr as) \<Longrightarrow> a \<in> set as \<Longrightarrow>
       as_requested since until types a"
    and search_requested:
      "f_search F username repos since until types = Returned (Inr as) \<Longrightarrow> a \<in> set as \<Longrightarrow>
       as_requested since until types a"
    and discovered_plain:
      "f_discover F = Some discover \<Longrightarrow> discover username = Returned (Inr rs) \<Longrightarrow> r \<in> set rs \<Longrightarrow>
       repo_platform r = p \<and> repo_api_token r = []"

section \<open>The registry\<close>

type_synonym fetcher_registry = "(git_platform, fetcher_factory) go_map"

definition NewActivityFetcherRegistry :: fetcher_registry where
  "NewActivityFetcherRegistry = []"

definition Register :: "git_platform \<Rightarrow> fetcher_factory \<Rightarrow> fetcher_registry \<Rightarrow> fetcher_registry" where
  "Register platform factory r = map_put platform factory r"

definition registry_Build :: "fetcher_registry \<Rightarrow> git_platform \<Rightarrow> string \<Rightarrow> fetcher result" where
  "registry_Build r platform apiKey =
     (case map_of r platform of
        None \<Rightarrow> Inl (Msg (''no fetcher registered for platform '' @ platform_name platform))
      | Some factory \<Rightarrow> Inr (factory apiKey))"

definition Platforms :: "iteration \<Rightarrow> fetcher_registry \<Rightarrow> git_platform list" where
  "Platforms it r = map fst (range_order it r)"

text \<open>The last factory registered for a platform is the one that builds its fetchers.\<close>

lemma Build_Register:
  "registry_Build (Register p f r) q key = (if q = p then Inr (f key) else registry_Build r q key)"
  by (simp add: registry_Build_def Register_def)

lemma Build_empty: "registry_Build NewActivityFetcherRegistry p key =
    Inl (Msg (''no fetcher registered for platform '' @ platform_name p))"
  by (simp add: registry_Build_def NewActivityFetcherRegistry_def)

lemma Platforms_Register:
  "iteration_ok it \<Longrightarrow> set (Platforms it (Register p f r)) = insert p (set (Platforms it r))"
  using keys_map_put [of p f r] by (simp add: Platforms_def Register_def)

lemma Platforms_Build:
  assumes "iteration_ok it"
  shows "p \<in> set (Platforms it r) \<longleftrightarrow> (\<exists>f. registry_Build r p key = Inr f)"
  using assms by (auto simp: Platforms_def registry_Build_def map_of_eq_None_iff split: option.splits)
     (metis image_iff map_of_eq_None_iff option.distinct(1))

end
