(* ===== verification/Goroutines.thy ===== *)
theory Goroutines
  imports Fetching
begin

text \<open>
  The goroutines of \<open>fetchMemberReport\<close> (\<open>application/report_service.go\<close>): each makes its calls
  one after the other, and appends what a call returns to one shared slice, under a mutex; the
  caller waits for all of them. The steps of the goroutines interleave freely: \<open>gstep\<close> is one step
  of goroutine \<open>i\<close>, \<open>step_thread\<close> the same as a function, and \<open>wait_all\<close> follows a given schedule
  and then runs whatever can still run. Reading and writing the slice are two steps, so that the
  mutex matters. Shown: the mutex excludes (\<open>mutex_ok\<close>), nothing is lost or invented
  (\<open>conserved\<close>), every run ends, and nothing blocks but a call that never returns.
\<close>

section \<open>States and steps\<close>

type_synonym 'a call = "'a list result outcome"

datatype 'a goroutine =
    Calls "'a call list"
  | Locking "'a list" "'a call list"
  | Loading "'a list" "'a call list"
  | Storing "'a list" "'a list" "'a call list"
  | Unlocking "'a call list"
  | Finished

record 'a pool =
  shared :: "'a list"
  holder :: "nat option"
  threads :: "'a goroutine list"
  panicked :: bool

definition set_thread :: "nat \<Rightarrow> 'a goroutine \<Rightarrow> 'a pool \<Rightarrow> 'a pool" where
  "set_thread i g p = p\<lparr>threads := (threads p)[i := g]\<rparr>"

inductive gstep :: "nat \<Rightarrow> 'a pool \<Rightarrow> 'a pool \<Rightarrow> bool" for i :: nat where
  call_error: "\<lbrakk>\<not> panicked p; i < length (threads p); threads p ! i = Calls (Returned (Inl e) # cs)\<rbrakk>
    \<Longrightarrow> gstep i p (set_thread i (Calls cs) p)"
| call_ok: "\<lbrakk>\<not> panicked p; i < length (threads p); threads p ! i = Calls (Returned (Inr xs) # cs)\<rbrakk>
    \<Longrightarrow> gstep i p (set_thread i (Locking xs cs) p)"
| call_panic: "\<lbrakk>\<not> panicked p; i < length (threads p); threads p ! i = Calls (Panicked # cs)\<rbrakk>
    \<Longrightarrow> gstep i p (p\<lparr>panicked := True\<rparr>)"
| finish: "\<lbrakk>\<not> panicked p; i < length (threads p); threads p ! i = Calls []\<rbrakk>
    \<Longrightarrow> gstep i p (set_thread i Finished p)"
| lock: "\<lbrakk>\<not> panicked p; i < length (threads p); threads p ! i = Locking xs cs; holder p = None\<rbrakk>
    \<Longrightarrow> gstep i p (set_thread i (Loading xs cs) p\<lparr>holder := Some i\<rparr>)"
| load: "\<lbrakk>\<not> panicked p; i < length (threads p); threads p ! i = Loading xs cs\<rbrakk>
    \<Longrightarrow> gstep i p (set_thread i (Storing xs (shared p) cs) p)"
| store: "\<lbrakk>\<not> panicked p; i < length (threads p); threads p ! i = Storing xs old cs\<rbrakk>
    \<Longrightarrow> gstep i p (set_thread i (Unlocking cs) p\<lparr>shared := old @ xs\<rparr>)"
| unlock: "\<lbrakk>\<not> panicked p; i < length (threads p); threads p ! i = Unlocking cs\<rbrakk>
    \<Longrightarrow> gstep i p (set_thread i (Calls cs) p\<lparr>holder := None\<rparr>)"

inductive_cases gstep_cases: "gstep i p p'"

lemmas gstepE = gstep_cases [consumes 1, case_names call_error call_ok call_panic finish lock load store unlock]

definition pool_step :: "'a pool \<Rightarrow> 'a pool \<Rightarrow> bool" where
  "pool_step p p' \<longleftrightarrow> (\<exists>i. gstep i p p')"

text \<open>The step of a goroutine as a function, \<open>None\<close> when it cannot move.\<close>

definition step_thread :: "nat \<Rightarrow> 'a pool \<Rightarrow> 'a pool option" where
  "step_thread i p =
     (if panicked p \<or> i \<ge> length (threads p) then None
      else case threads p ! i of
        Calls [] \<Rightarrow> Some (set_thread i Finished p)
      | Calls (Returned (Inl e) # cs) \<Rightarrow> Some (set_thread i (Calls cs) p)
      | Calls (Returned (Inr xs) # cs) \<Rightarrow> Some (set_thread i (Locking xs cs) p)
      | Calls (Panicked # cs) \<Rightarrow> Some (p\<lparr>panicked := True\<rparr>)
      | Calls (Diverged # cs) \<Rightarrow> None
      | Locking xs cs \<Rightarrow>
          (if holder p = None then Some (set_thread i (Loading xs cs) p\<lparr>holder := Some i\<rparr>) else None)
      | Loading xs cs \<Rightarrow> Some (set_thread i (Storing xs (shared p) cs) p)
      | Storing xs old cs \<Rightarrow> Some (set_thread i (Unlocking cs) p\<lparr>shared := old @ xs\<rparr>)
      | Unlocking cs \<Rightarrow> Some (set_thread i (Calls cs) p\<lparr>holder := None\<rparr>)
      | Finished \<Rightarrow> None)"

lemma step_thread_iff: "step_thread i p = Some p' \<longleftrightarrow> gstep i p p'"
proof
  assume "step_thread i p = Some p'"
  then show "gstep i p p'"
    by (auto simp: step_thread_def split: if_splits goroutine.splits list.splits outcome.splits sum.splits
        intro: gstep.intros)
next
  assume "gstep i p p'"
  then show "step_thread i p = Some p'"
    by (cases rule: gstepE) (auto simp: step_thread_def)
qed

lemma set_thread_simps [simp]:
  "shared (set_thread i g p) = shared p" "holder (set_thread i g p) = holder p"
  "panicked (set_thread i g p) = panicked p" "threads (set_thread i g p) = (threads p)[i := g]"
  by (simp_all add: set_thread_def)

section \<open>Every run ends\<close>

fun work :: "'a goroutine \<Rightarrow> nat" where
  "work (Calls cs) = 5 * length cs + 1"
| "work (Locking xs cs) = 5 * length cs + 5"
| "work (Loading xs cs) = 5 * length cs + 4"
| "work (Storing xs old cs) = 5 * length cs + 3"
| "work (Unlocking cs) = 5 * length cs + 2"
| "work Finished = 0"

definition pool_work :: "'a pool \<Rightarrow> nat" where
  "pool_work p = (\<Sum>g\<leftarrow>threads p. work g) + (if panicked p then 0 else 1)"

lemma sum_list_update_less:
  fixes f :: "'b \<Rightarrow> nat"
  assumes "i < length gs" "f g < f (gs ! i)"
  shows "(\<Sum>g\<leftarrow>gs[i := g]. f g) < (\<Sum>g\<leftarrow>gs. f g)"
  using assms
proof (induction gs arbitrary: i)
  case (Cons h gs)
  then show ?case by (cases i) auto
qed simp

lemma gstep_work:
  assumes "gstep i p p'"
  shows "pool_work p' < pool_work p"
  using assms by (cases rule: gstepE) (auto simp: pool_work_def intro!: sum_list_update_less)

lemma wf_pool_step: "wfP (\<lambda>p' p. pool_step p p')"
proof -
  have "{(p', p). pool_step p p'} \<subseteq> measure pool_work"
    by (auto simp: pool_step_def gstep_work)
  then show ?thesis
    unfolding wfp_def by (rule wf_subset [OF wf_measure])
qed

section \<open>Schedules\<close>

text \<open>A schedule is a list of goroutines; one that cannot move is passed over. After the schedule
  the first goroutine that can move does, until none can: this is where \<open>wg.Wait\<close> returns, or the
  program is stuck.\<close>

fun run_schedule :: "nat list \<Rightarrow> 'a pool \<Rightarrow> 'a pool" where
  "run_schedule [] p = p"
| "run_schedule (i # is) p = run_schedule is (case step_thread i p of None \<Rightarrow> p | Some p' \<Rightarrow> p')"

definition pick :: "'a pool \<Rightarrow> nat option" where
  "pick p = List.find (\<lambda>i. step_thread i p \<noteq> None) [0..<length (threads p)]"

function drain :: "'a pool \<Rightarrow> 'a pool" where
  "drain p = (case pick p of None \<Rightarrow> p
     | Some i \<Rightarrow> (case step_thread i p of None \<Rightarrow> p | Some p' \<Rightarrow> drain p'))"
  by auto
termination
  by (relation "measure pool_work") (auto simp: step_thread_iff gstep_work)

declare drain.simps [simp del]

definition wait_all :: "nat list \<Rightarrow> 'a pool \<Rightarrow> 'a pool" where
  "wait_all sched p = drain (run_schedule sched p)"

definition spawn :: "'a call list list \<Rightarrow> 'a pool" where
  "spawn cs = \<lparr>shared = [], holder = None, threads = map Calls cs, panicked = False\<rparr>"

definition all_finished :: "'a pool \<Rightarrow> bool" where
  "all_finished p \<longleftrightarrow> list_all (\<lambda>g. g = Finished) (threads p)"

text \<open>What the waiting caller sees.\<close>

definition pool_outcome :: "'a pool \<Rightarrow> 'a list outcome" where
  "pool_outcome p =
     (if panicked p then Panicked else if all_finished p then Returned (shared p) else Diverged)"

lemma schedule_reachable: "pool_step\<^sup>*\<^sup>* p (run_schedule is p)"
proof (induction "is" p rule: run_schedule.induct)
  case (2 i "is" p)
  show ?case
  proof (cases "step_thread i p")
    case (Some p')
    then have "pool_step p p'" by (auto simp: pool_step_def step_thread_iff)
    with Some 2 show ?thesis by (auto intro: converse_rtranclp_into_rtranclp)
  qed (use 2 in auto)
qed simp

lemma drain_reachable: "pool_step\<^sup>*\<^sup>* p (drain p)"
proof (induction p rule: drain.induct)
  case (1 p)
  show ?case
  proof (cases "pick p")
    case (Some i)
    then obtain p' where p': "step_thread i p = Some p'"
      by (auto simp: pick_def find_Some_iff)
    then have "pool_step p p'" by (auto simp: pool_step_def step_thread_iff)
    with 1 [OF Some p'] show ?thesis
      by (subst drain.simps) (auto simp: Some p' intro: converse_rtranclp_into_rtranclp)
  qed (subst drain.simps, simp)
qed

lemma wait_all_reachable: "pool_step\<^sup>*\<^sup>* p (wait_all sched p)"
  unfolding wait_all_def using schedule_reachable drain_reachable by (rule rtranclp_trans)

definition stuck :: "'a pool \<Rightarrow> bool" where
  "stuck p \<longleftrightarrow> (\<nexists>p'. pool_step p p')"

lemma pick_None: "pick p = None \<longleftrightarrow> stuck p"
proof -
  have "pick p = None \<longleftrightarrow> (\<forall>i < length (threads p). step_thread i p = None)"
    by (auto simp: pick_def find_None_iff)
  also have "\<dots> \<longleftrightarrow> (\<forall>i. step_thread i p = None)"
    by (auto simp: step_thread_def)
  also have "\<dots> \<longleftrightarrow> (\<forall>i p'. step_thread i p \<noteq> Some p')"
    by simp
  also have "\<dots> \<longleftrightarrow> stuck p"
    unfolding stuck_def pool_step_def step_thread_iff [symmetric] by metis
  finally show ?thesis .
qed

lemma drain_stuck: "stuck (drain p)"
proof (induction p rule: drain.induct)
  case (1 p)
  show ?case
  proof (cases "pick p")
    case (Some i)
    then obtain p' where p': "step_thread i p = Some p'"
      by (auto simp: pick_def find_Some_iff)
    from 1 [OF Some p'] show ?thesis
      by (subst drain.simps) (simp add: Some p')
  next
    case None
    then have "drain p = p" by (subst drain.simps) simp
    with None show ?thesis by (simp add: pick_None)
  qed
qed

lemma wait_all_stuck: "stuck (wait_all sched p)"
  by (simp add: wait_all_def drain_stuck)

section \<open>Mutual exclusion\<close>

fun in_section :: "'a goroutine \<Rightarrow> bool" where
  "in_section (Loading xs cs) = True"
| "in_section (Storing xs old cs) = True"
| "in_section (Unlocking cs) = True"
| "in_section _ = False"

text \<open>Only the holder of the mutex is between \<open>Lock\<close> and \<open>Unlock\<close>, and what it has read is what
  the slice still holds.\<close>

definition mutex_ok :: "'a pool \<Rightarrow> bool" where
  "mutex_ok p \<longleftrightarrow>
     (\<forall>j < length (threads p). in_section (threads p ! j) \<longleftrightarrow> holder p = Some j) \<and>
     (\<forall>j < length (threads p). \<forall>xs old cs. threads p ! j = Storing xs old cs \<longrightarrow> old = shared p) \<and>
     (\<forall>j. holder p = Some j \<longrightarrow> j < length (threads p))"

lemma mutex_ok_spawn: "mutex_ok (spawn cs)"
  by (simp add: mutex_ok_def spawn_def)

lemma mutex_ok_outside:
  assumes "mutex_ok p" "i < length (threads p)" "\<not> in_section (threads p ! i)" "\<not> in_section g"
    and "threads p' = (threads p)[i := g]" "holder p' = holder p" "shared p' = shared p"
  shows "mutex_ok p'"
proof -
  have "threads p' ! j = Storing xs old cs \<Longrightarrow> threads p ! j = Storing xs old cs"
    if "j < length (threads p)" for j xs old cs
    using assms(2,4,5) that by (cases "j = i") auto
  moreover have "in_section (threads p' ! j) \<longleftrightarrow> in_section (threads p ! j)"
    if "j < length (threads p)" for j
    using assms(2-5) that by (cases "j = i") auto
  ultimately show ?thesis
    using assms(1,5-7) by (simp add: mutex_ok_def)
qed

lemma mutex_ok_inside:
  assumes "mutex_ok p" "i < length (threads p)" "holder p = None \<or> holder p = Some i"
    and "threads p' = (threads p)[i := g]" "holder p' = (if in_section g then Some i else None)"
    and "\<And>xs old cs. g = Storing xs old cs \<Longrightarrow> old = shared p'"
  shows "mutex_ok p'"
proof -
  have other: "\<not> in_section (threads p ! j)" if "j < length (threads p)" "j \<noteq> i" for j
    using assms(1,3) that by (auto simp: mutex_ok_def)
  have "in_section (threads p' ! j) \<longleftrightarrow> holder p' = Some j" if "j < length (threads p)" for j
    using other [OF that] assms(2,4,5) that by (cases "j = i") auto
  moreover have "old = shared p'"
    if "j < length (threads p)" "threads p' ! j = Storing xs old cs" for j xs old cs
    using other [OF that(1)] assms(2,4,6) that by (cases "j = i") auto
  ultimately show ?thesis
    using assms(2,4,5) by (simp add: mutex_ok_def)
qed

lemma mutex_ok_gstep:
  assumes "mutex_ok p" "gstep i p p'"
  shows "mutex_ok p'"
proof -
  have held: "i < length (threads p) \<Longrightarrow> in_section (threads p ! i) \<Longrightarrow> holder p = Some i"
    using assms(1) by (simp add: mutex_ok_def)
  from assms(2) show ?thesis
  proof (cases rule: gstepE)
    case (call_error e cs)
    then show ?thesis by (intro mutex_ok_outside [OF assms(1), of i "Calls cs"]) auto
  next
    case (call_ok xs cs)
    then show ?thesis by (intro mutex_ok_outside [OF assms(1), of i "Locking xs cs"]) auto
  next
    case (call_panic cs)
    then show ?thesis using assms(1) by (simp add: mutex_ok_def)
  next
    case finish
    then show ?thesis by (intro mutex_ok_outside [OF assms(1), of i Finished]) auto
  next
    case (lock xs cs)
    then show ?thesis by (intro mutex_ok_inside [OF assms(1), of i _ "Loading xs cs"]) auto
  next
    case (load xs cs)
    then show ?thesis
      using held by (intro mutex_ok_inside [OF assms(1), of i _ "Storing xs (shared p) cs"]) auto
  next
    case (store xs old cs)
    then show ?thesis using held by (intro mutex_ok_inside [OF assms(1), of i _ "Unlocking cs"]) auto
  next
    case (unlock cs)
    then show ?thesis using held by (intro mutex_ok_inside [OF assms(1), of i _ "Calls cs"]) auto
  qed
qed

lemma mutex_ok_reachable: "pool_step\<^sup>*\<^sup>* p p' \<Longrightarrow> mutex_ok p \<Longrightarrow> mutex_ok p'"
  by (induction rule: rtranclp_induct) (auto simp: pool_step_def mutex_ok_gstep)

section \<open>Nothing is lost\<close>

fun result_mset :: "'a call \<Rightarrow> 'a multiset" where
  "result_mset (Returned (Inr xs)) = mset xs"
| "result_mset _ = {#}"

definition results_mset :: "'a call list \<Rightarrow> 'a multiset" where
  "results_mset cs = (\<Sum>c\<leftarrow>cs. result_mset c)"

text \<open>What a goroutine has yet to write.\<close>

fun pending :: "'a goroutine \<Rightarrow> 'a multiset" where
  "pending (Calls cs) = results_mset cs"
| "pending (Locking xs cs) = mset xs + results_mset cs"
| "pending (Loading xs cs) = mset xs + results_mset cs"
| "pending (Storing xs old cs) = mset xs + results_mset cs"
| "pending (Unlocking cs) = results_mset cs"
| "pending Finished = {#}"

definition pool_total :: "'a pool \<Rightarrow> 'a multiset" where
  "pool_total p = mset (shared p) + (\<Sum>g\<leftarrow>threads p. pending g)"

lemma sum_list_replace:
  fixes f :: "'b \<Rightarrow> 'a multiset"
  assumes "i < length gs" "f (gs ! i) = f g + d"
  shows "(\<Sum>g\<leftarrow>gs. f g) = (\<Sum>g\<leftarrow>gs[i := g]. f g) + d"
  using assms
proof (induction gs arbitrary: i)
  case (Cons h gs)
  then show ?case by (cases i) (auto simp: ac_simps)
qed simp

lemma results_mset_simps [simp]:
  "results_mset [] = {#}" "results_mset (c # cs) = result_mset c + results_mset cs"
  by (simp_all add: results_mset_def)

lemma pool_total_gstep:
  assumes "gstep i p p'" "mutex_ok p"
  shows "pool_total p' = pool_total p"
  using assms(1)
proof (cases rule: gstepE)
  case (store xs old cs)
  moreover have "old = shared p"
    using store assms(2) by (auto simp: mutex_ok_def)
  moreover have "(\<Sum>g\<leftarrow>threads p. pending g) = (\<Sum>g\<leftarrow>(threads p)[i := Unlocking cs]. pending g) + mset xs"
    using store by (intro sum_list_replace) (auto simp: ac_simps)
  ultimately show ?thesis
    by (simp add: pool_total_def ac_simps)
next
  case (call_error e cs)
  then show ?thesis
    using sum_list_replace [of i "threads p" pending "Calls cs" "{#}"] by (simp add: pool_total_def)
next
  case (call_ok xs cs)
  then show ?thesis
    using sum_list_replace [of i "threads p" pending "Locking xs cs" "{#}"] by (simp add: pool_total_def)
next
  case finish
  then show ?thesis
    using sum_list_replace [of i "threads p" pending Finished "{#}"] by (simp add: pool_total_def)
next
  case (lock xs cs)
  then show ?thesis
    using sum_list_replace [of i "threads p" pending "Loading xs cs" "{#}"] by (simp add: pool_total_def)
next
  case (load xs cs)
  then show ?thesis
    using sum_list_replace [of i "threads p" pending "Storing xs (shared p) cs" "{#}"] by (simp add: pool_total_def)
next
  case (unlock cs)
  then show ?thesis
    using sum_list_replace [of i "threads p" pending "Calls cs" "{#}"] by (simp add: pool_total_def)
qed (simp add: pool_total_def)

lemma pool_total_reachable:
  assumes "pool_step\<^sup>*\<^sup>* p p'" "mutex_ok p"
  shows "pool_total p' = pool_total p"
  using assms
proof (induction rule: rtranclp_induct)
  case (step q r)
  then show ?case
    using mutex_ok_reachable [OF step.hyps(1)] by (auto simp: pool_step_def pool_total_gstep)
qed simp

lemma pending_finished: "list_all (\<lambda>g. g = Finished) gs \<Longrightarrow> (\<Sum>g\<leftarrow>gs. pending g) = {#}"
  by (induction gs) auto

lemma all_finished_total: "all_finished p \<Longrightarrow> pool_total p = mset (shared p)"
  by (simp add: all_finished_def pool_total_def pending_finished)

section \<open>Nothing blocks but a call that never returns\<close>

definition quiet :: "'a call \<Rightarrow> bool" where
  "quiet c \<longleftrightarrow> c \<noteq> Panicked \<and> c \<noteq> Diverged"

fun calls_left :: "'a goroutine \<Rightarrow> 'a call list" where
  "calls_left (Calls cs) = cs"
| "calls_left (Locking xs cs) = cs"
| "calls_left (Loading xs cs) = cs"
| "calls_left (Storing xs old cs) = cs"
| "calls_left (Unlocking cs) = cs"
| "calls_left Finished = []"

definition all_quiet :: "'a pool \<Rightarrow> bool" where
  "all_quiet p \<longleftrightarrow> \<not> panicked p \<and> (\<forall>g\<in>set (threads p). \<forall>c\<in>set (calls_left g). quiet c)"

lemma all_quiet_gstep:
  assumes "all_quiet p" "gstep i p p'"
  shows "all_quiet p'"
proof -
  have g: "\<And>c. i < length (threads p) \<Longrightarrow> c \<in> set (calls_left (threads p ! i)) \<Longrightarrow> quiet c"
    using assms(1) nth_mem by (auto simp: all_quiet_def)
  have upd: "all_quiet (set_thread i h p)" if "i < length (threads p)"
    "set (calls_left h) \<subseteq> set (calls_left (threads p ! i))" for h
    using assms(1) that g set_update_subset_insert [of "threads p" i h] by (fastforce simp: all_quiet_def)
  have frame: "all_quiet (q\<lparr>holder := h\<rparr>) = all_quiet q" "all_quiet (q\<lparr>shared := xs\<rparr>) = all_quiet q"
    for q :: "'a pool" and h xs by (simp_all add: all_quiet_def)
  from assms(2) show ?thesis
  proof (cases rule: gstepE)
    case (call_panic cs)
    then show ?thesis using g [of Panicked] by (simp add: quiet_def)
  qed (auto simp: frame intro!: upd)
qed

lemma all_quiet_reachable: "pool_step\<^sup>*\<^sup>* p p' \<Longrightarrow> all_quiet p \<Longrightarrow> all_quiet p'"
  by (induction rule: rtranclp_induct) (auto simp: pool_step_def all_quiet_gstep)

text \<open>A goroutine that is not finished can move, unless it waits for the mutex; the holder of the
  mutex can always move.\<close>

lemma quiet_step:
  assumes "all_quiet p" "i < length (threads p)" "threads p ! i \<noteq> Finished"
    "holder p = None \<or> in_section (threads p ! i)"
  shows "\<exists>p'. pool_step p p'"
proof -
  have np: "\<not> panicked p" using assms(1) by (simp add: all_quiet_def)
  have quiet: "quiet c" if "c \<in> set (calls_left (threads p ! i))" for c
    using assms(1,2) that nth_mem by (auto simp: all_quiet_def)
  have "\<exists>p'. step_thread i p = Some p'"
  proof (cases "threads p ! i")
    case (Calls cs)
    then show ?thesis
      using np assms(2) quiet
      by (cases cs) (force simp: step_thread_def quiet_def split: outcome.splits sum.splits)+
  qed (use np assms in \<open>auto simp: step_thread_def\<close>)
  then show ?thesis by (auto simp: pool_step_def step_thread_iff)
qed

lemma stuck_finished:
  assumes "stuck p" "mutex_ok p" "all_quiet p"
  shows "all_finished p"
proof (rule ccontr)
  assume "\<not> all_finished p"
  then obtain i where i: "i < length (threads p)" "threads p ! i \<noteq> Finished"
    by (auto simp: all_finished_def list_all_length)
  show False
  proof (cases "holder p")
    case None
    with quiet_step [OF assms(3) i] assms(1) show False by (auto simp: stuck_def)
  next
    case (Some j)
    then have "j < length (threads p)" "in_section (threads p ! j)"
      using assms(2) by (auto simp: mutex_ok_def)
    moreover from this have "threads p ! j \<noteq> Finished" by auto
    ultimately show False
      using quiet_step [OF assms(3), of j] assms(1) by (auto simp: stuck_def)
  qed
qed

text \<open>Whatever the schedule, the caller gets all results, each as often as it was returned.\<close>

lemma total_spawn: "pool_total (spawn css) = (\<Sum>cs\<leftarrow>css. results_mset cs)"
  by (simp add: pool_total_def spawn_def comp_def)

lemma all_quiet_spawn: "all_quiet (spawn css) \<longleftrightarrow> (\<forall>cs\<in>set css. \<forall>c\<in>set cs. quiet c)"
  by (auto simp: all_quiet_def spawn_def)

lemma final_pool:
  assumes "pool_step\<^sup>*\<^sup>* (spawn css) p" "stuck p" "\<forall>cs\<in>set css. \<forall>c\<in>set cs. quiet c"
  shows "all_finished p \<and> \<not> panicked p \<and> mset (shared p) = (\<Sum>cs\<leftarrow>css. results_mset cs)"
proof -
  have "mutex_ok p" "all_quiet p"
    using mutex_ok_reachable [OF assms(1) mutex_ok_spawn] all_quiet_reachable [OF assms(1)] assms(3)
    by (auto simp: all_quiet_spawn)
  then have "all_finished p" "\<not> panicked p"
    using assms(2) stuck_finished by (auto simp: all_quiet_def)
  moreover have "pool_total p = pool_total (spawn css)"
    using assms(1) mutex_ok_spawn by (rule pool_total_reachable)
  ultimately show ?thesis
    by (simp add: all_finished_total total_spawn)
qed

lemma wait_all_results:
  assumes "\<forall>cs\<in>set css. \<forall>c\<in>set cs. quiet c"
  obtains xs where "pool_outcome (wait_all sched (spawn css)) = Returned xs"
    "mset xs = (\<Sum>cs\<leftarrow>css. results_mset cs)"
  using final_pool [OF wait_all_reachable wait_all_stuck assms] by (auto simp: pool_outcome_def)

text \<open>A result comes only from a call that returned it.\<close>

lemma pool_total_subset:
  assumes "pool_step\<^sup>*\<^sup>* (spawn css) p" "x \<in> set (shared p)"
  shows "\<exists>cs\<in>set css. \<exists>xs. Returned (Inr xs) \<in> set cs \<and> x \<in> set xs"
proof -
  have res: "\<exists>xs. Returned (Inr xs) \<in> set cs \<and> x \<in> set xs" if "x \<in># results_mset cs" for cs
    using that
  proof (induction cs)
    case (Cons c cs)
    then show ?case by (cases c rule: result_mset.cases) auto
  qed simp
  have "x \<in># pool_total p"
    using assms(2) by (simp add: pool_total_def)
  then have "x \<in># (\<Sum>cs\<leftarrow>css. results_mset cs)"
    using pool_total_reachable [OF assms(1) mutex_ok_spawn] by (simp add: total_spawn)
  then obtain cs where "cs \<in> set css" "x \<in># results_mset cs"
    by (induction css) auto
  with res show ?thesis by blast
qed

text \<open>The caller gets a result exactly if every call returns, and then it is everything that was
  returned.\<close>

definition executed :: "'a call list list \<Rightarrow> 'a pool \<Rightarrow> bool" where
  "executed css p \<longleftrightarrow> length (threads p) = length css \<and>
     (\<forall>j < length css. \<exists>d. css ! j = d @ calls_left (threads p ! j) \<and> (\<forall>c\<in>set d. quiet c))"

lemma executed_gstep:
  assumes "executed css p" "gstep i p p'"
  shows "executed css p'"
proof -
  have upd: "executed css p'" if "i < length (threads p)" "threads p' = (threads p)[i := g]"
    "calls_left (threads p ! i) = d @ calls_left g" "\<forall>c\<in>set d. quiet c" for g d
    unfolding executed_def
  proof (intro conjI allI impI)
    show "length (threads p') = length css" using assms(1) that by (simp add: executed_def)
    fix j assume "j < length css"
    then obtain d0 where d0: "css ! j = d0 @ calls_left (threads p ! j)" "\<forall>c\<in>set d0. quiet c"
      using assms(1) by (auto simp: executed_def)
    show "\<exists>d. css ! j = d @ calls_left (threads p' ! j) \<and> (\<forall>c\<in>set d. quiet c)"
    proof (cases "j = i")
      case True
      with d0 that show ?thesis by (intro exI [of _ "d0 @ d"]) auto
    next
      case False
      with d0 that show ?thesis by (intro exI [of _ d0]) auto
    qed
  qed
  from assms(2) show ?thesis
  proof (cases rule: gstepE)
    case (call_error e cs)
    then show ?thesis by (intro upd [of "Calls cs" "[Returned (Inl e)]"]) (auto simp: quiet_def)
  next
    case (call_ok xs cs)
    then show ?thesis by (intro upd [of "Locking xs cs" "[Returned (Inr xs)]"]) (auto simp: quiet_def)
  next
    case (call_panic cs)
    then show ?thesis using assms(1) by (simp add: executed_def)
  next
    case finish
    then show ?thesis by (intro upd [of Finished "[]"]) auto
  next
    case (lock xs cs)
    then show ?thesis by (intro upd [of "Loading xs cs" "[]"]) auto
  next
    case (load xs cs)
    then show ?thesis by (intro upd [of "Storing xs (shared p) cs" "[]"]) auto
  next
    case (store xs old cs)
    then show ?thesis by (intro upd [of "Unlocking cs" "[]"]) auto
  next
    case (unlock cs)
    then show ?thesis by (intro upd [of "Calls cs" "[]"]) auto
  qed
qed

lemma executed_reachable: "pool_step\<^sup>*\<^sup>* (spawn css) p \<Longrightarrow> executed css p"
proof (induction rule: rtranclp_induct)
  case base
  then show ?case by (auto simp: executed_def spawn_def)
next
  case (step p q)
  then show ?case by (auto simp: pool_step_def intro: executed_gstep)
qed

lemma finished_all_quiet:
  assumes "pool_step\<^sup>*\<^sup>* (spawn css) p" "all_finished p"
  shows "\<forall>cs\<in>set css. \<forall>c\<in>set cs. quiet c"
proof
  fix cs assume "cs \<in> set css"
  then obtain j where j: "j < length css" "css ! j = cs" by (auto simp: in_set_conv_nth)
  have "threads p ! j = Finished"
    using executed_reachable [OF assms(1)] assms(2) j(1) by (auto simp: executed_def all_finished_def list_all_length)
  with executed_reachable [OF assms(1)] j show "\<forall>c\<in>set cs. quiet c" by (force simp: executed_def)
qed

lemma pool_outcome_Returned:
  assumes "pool_outcome (wait_all sched (spawn css)) = Returned xs"
  shows "mset xs = (\<Sum>cs\<leftarrow>css. results_mset cs) \<and> (\<forall>cs\<in>set css. \<forall>c\<in>set cs. quiet c)"
proof -
  have fin: "all_finished (wait_all sched (spawn css))" and xs: "xs = shared (wait_all sched (spawn css))"
    using assms by (auto simp: pool_outcome_def split: if_splits)
  from wait_all_results [OF finished_all_quiet [OF wait_all_reachable fin]] assms show ?thesis
    using finished_all_quiet [OF wait_all_reachable fin] by (metis outcome.inject)
qed

end
