(* ===== verification/Report.thy ===== *)
theory Report
  imports Goroutines
begin

text \<open>
  The report service (\<open>application/report_service.go\<close>). \<open>GenerateReport\<close> loads a team, decides
  whose activity the caller may see, groups the team's repositories by platform and token, and
  sends one report per member followed by a completion event; the events and the way the stream
  ends are its result. \<open>fetchMemberReport\<close> builds a fetcher per group, upserts the repositories a
  fetcher discovers, starts a goroutine per group and waits for all of them. The goroutines
  touch only the shared slice, so the order of their steps relative to the statements of the
  loop that starts them does not matter; the model lets them run once all are started.
\<close>

section \<open>Grouping the repositories\<close>

record fetcher_group =
  group_platform :: git_platform
  group_token :: string
  group_repos :: "repository list"

definition group_key :: "repository \<Rightarrow> string" where
  "group_key r = platform_name (repo_platform r) @ [char_of (0 :: nat)] @ repo_api_token r"

text \<open>The loop over the team's repositories; one without a token is skipped.\<close>

fun group_repositories ::
    "repository list \<Rightarrow> (string, fetcher_group) go_map \<Rightarrow> (string, fetcher_group) go_map" where
  "group_repositories [] m = m"
| "group_repositories (r # rs) m =
     (if repo_api_token r = [] then group_repositories rs m
      else case map_of m (group_key r) of
        Some g \<Rightarrow> group_repositories rs (map_put (group_key r) (g\<lparr>group_repos := group_repos g @ [r]\<rparr>) m)
      | None \<Rightarrow> group_repositories rs (map_put (group_key r)
          \<lparr>group_platform = repo_platform r, group_token = repo_api_token r, group_repos = [r]\<rparr> m))"

definition report_groups :: "iteration \<Rightarrow> repository list \<Rightarrow> fetcher_group list" where
  "report_groups it rs = map snd (range_order it (group_repositories rs []))"

section \<open>Counting\<close>

fun count_types :: "activity list \<Rightarrow> (activity_type, nat) go_map \<Rightarrow> (activity_type, nat) go_map" where
  "count_types [] m = m"
| "count_types (a # as) m =
     count_types as (map_put (GetType a) (Suc (case map_of m (GetType a) of None \<Rightarrow> 0 | Some n \<Rightarrow> n)) m)"

definition buildActivityCounts :: "iteration \<Rightarrow> activity list \<Rightarrow> activity_count list" where
  "buildActivityCounts it activities =
     map (\<lambda>(t, c). \<lparr>count_type = t, count_count = c\<rparr>) (range_order it (count_types activities []))"

section \<open>One member\<close>

text \<open>The body of a goroutine: its calls in order, the error of any of them only logged.\<close>

definition member_calls ::
    "fetcher \<Rightarrow> repository list \<Rightarrow> string \<Rightarrow> report_query \<Rightarrow> activity call list" where
  "member_calls f repos username q =
     map (\<lambda>repo. f_fetch f username repo (query_since q) (query_until q) (query_types q)) repos @
     [f_search f username repos (query_since q) (query_until q) (query_types q)]"

text \<open>Discovery: the result and the error of \<open>Upsert\<close> are thrown away.\<close>

definition upsert_discovered :: "fetcher \<Rightarrow> string \<Rightarrow> (db, unit outcome) state" where
  "upsert_discovered f username =
     (case f_discover f of
        None \<Rightarrow> State_Monad.return (Returned ())
      | Some discover \<Rightarrow>
          (case discover username of
             Panicked \<Rightarrow> State_Monad.return Panicked
           | Diverged \<Rightarrow> State_Monad.return Diverged
           | Returned (Inl err) \<Rightarrow> State_Monad.return (Returned ())
           | Returned (Inr discovered) \<Rightarrow> do {
               _ \<leftarrow> do_each RepoStore_Upsert discovered;
               State_Monad.return (Returned ())
             }))"

text \<open>The loop over the groups: the goroutines it starts.\<close>

fun start_groups ::
    "fetcher_registry \<Rightarrow> user \<Rightarrow> report_query \<Rightarrow> fetcher_group list
      \<Rightarrow> (db, activity call list list outcome) state" where
  "start_groups reg member q [] = State_Monad.return (Returned [])"
| "start_groups reg member q (g # gs) =
     (case registry_Build reg (group_platform g) (group_token g) of
        Inl err \<Rightarrow> start_groups reg member q gs
      | Inr f \<Rightarrow> do {
          let username = GetPlatformUsername member (group_platform g);
          d \<leftarrow> upsert_discovered f username;
          case d of
            Panicked \<Rightarrow> State_Monad.return Panicked
          | Diverged \<Rightarrow> State_Monad.return Diverged
          | Returned _ \<Rightarrow> do {
              rest \<leftarrow> start_groups reg member q gs;
              State_Monad.return (case rest of
                Returned calls \<Rightarrow> Returned (member_calls f (group_repos g) username q # calls)
              | Panicked \<Rightarrow> Panicked
              | Diverged \<Rightarrow> Diverged)
            }
        })"

definition fetchMemberReport ::
    "env \<Rightarrow> fetcher_registry \<Rightarrow> nat list \<Rightarrow> user \<Rightarrow> fetcher_group list \<Rightarrow> report_query
      \<Rightarrow> (db, user_report outcome) state" where
  "fetchMemberReport E reg sched member groups q = do {
     started \<leftarrow> start_groups reg member q groups;
     State_Monad.return (case started of
       Panicked \<Rightarrow> Panicked
     | Diverged \<Rightarrow> Diverged
     | Returned calls \<Rightarrow>
         (case pool_outcome (wait_all sched (spawn calls)) of
            Panicked \<Rightarrow> Panicked
          | Diverged \<Rightarrow> Diverged
          | Returned activities \<Rightarrow> Returned \<lparr>report_user = member,
              report_counts = buildActivityCounts (iter E) activities,
              report_activities = activities\<rparr>))
   }"

section \<open>The report\<close>

text \<open>The members a caller may ask about.\<close>

definition report_member_ids :: "report_query \<Rightarrow> team \<Rightarrow> string list" where
  "report_member_ids q t =
     (let isLeaderOfThisTeam = query_caller_id q \<in> set (team_leader_ids t);
          isOnlyMember = \<not> map_flag (query_caller_roles q) RoleAdmin \<and> \<not> isLeaderOfThisTeam
      in if isOnlyMember then [query_caller_id q]
         else if query_member_id q \<noteq> [] then [query_member_id q]
         else team_member_ids t)"

text \<open>The loop over the members, and the completion event. A report that panics or never returns
  leaves the events sent before it; \<open>n\<close> counts the members, \<open>scheds n\<close> is the schedule of the
  \<open>n\<close>-th report's goroutines.\<close>

fun send_reports ::
    "env \<Rightarrow> fetcher_registry \<Rightarrow> (nat \<Rightarrow> nat list) \<Rightarrow> nat \<Rightarrow> fetcher_group list \<Rightarrow> report_query
      \<Rightarrow> user list \<Rightarrow> (db, report_event list \<times> ending) state" where
  "send_reports E reg scheds n groups q [] = State_Monad.return ([ReportCompleteEvent], Closed)"
| "send_reports E reg scheds n groups q (m # ms) = do {
     r \<leftarrow> fetchMemberReport E reg (scheds n) m groups q;
     case r of
       Panicked \<Rightarrow> State_Monad.return ([], Crashed)
     | Diverged \<Rightarrow> State_Monad.return ([], Hangs)
     | Returned report \<Rightarrow> do {
         (events, e) \<leftarrow> send_reports E reg scheds (Suc n) groups q ms;
         State_Monad.return (UserReportEvent report # events, e)
       }
   }"

definition error_event :: "env \<Rightarrow> string \<Rightarrow> go_error \<Rightarrow> report_event list \<times> ending" where
  "error_event E msg err = ([ReportErrorEvent (msg @ '': '' @ error_text (drv_text E) err)], Closed)"

definition GenerateReport ::
    "env \<Rightarrow> fetcher_registry \<Rightarrow> (nat \<Rightarrow> nat list) \<Rightarrow> report_query
      \<Rightarrow> (db, report_event list \<times> ending) state" where
  "GenerateReport E reg scheds q = do {
     rt \<leftarrow> TeamRepo_FindByID (query_team_id q);
     case rt of
       Inl err \<Rightarrow> State_Monad.return (error_event E ''team not found'' err)
     | Inr team \<Rightarrow> do {
         rm \<leftarrow> UserRepo_FindByIDs (report_member_ids q team);
         case rm of
           Inl err \<Rightarrow> State_Monad.return (error_event E ''failed to load members'' err)
         | Inr members \<Rightarrow> do {
             rr \<leftarrow> RepoStore_FindByIDs (team_repository_ids team);
             case rr of
               Inl err \<Rightarrow> State_Monad.return (error_event E ''failed to load repos'' err)
             | Inr repos \<Rightarrow>
                 send_reports E reg scheds 0 (report_groups (iter E) repos) q members
           }
       }
   }"

end
