(* ===== verification/Report_Facts.thy ===== *)
theory Report_Facts
  imports Report
begin

text \<open>
  What a report shows: the groups partition the repositories that have a token, the counts count,
  a member's report holds every activity that a platform returned, whatever the schedule of the
  goroutines, and a caller who is neither administrator nor leader of the team sees only the
  caller's own activity, whatever the database does.
\<close>

section \<open>Groups\<close>

definition group_ok :: "fetcher_group \<Rightarrow> bool" where
  "group_ok g \<longleftrightarrow> group_token g \<noteq> [] \<and> group_repos g \<noteq> [] \<and>
     (\<forall>r\<in>set (group_repos g). repo_platform r = group_platform g \<and> repo_api_token r = group_token g)"

text \<open>The key of a repository determines its platform and token, unless a platform's name holds a
  zero byte, which no text of the database does.\<close>

definition no_zero_byte :: "repository \<Rightarrow> bool" where
  "no_zero_byte r \<longleftrightarrow> char_of (0 :: nat) \<notin> set (platform_name (repo_platform r))"

lemma append_sep_inj: "c \<notin> set xs \<Longrightarrow> c \<notin> set ys \<Longrightarrow> xs @ c # as = ys @ c # bs \<longleftrightarrow> xs = ys \<and> as = bs"
proof (induction xs arbitrary: ys)
  case Nil
  then show ?case by (cases ys) auto
next
  case (Cons x xs)
  then show ?case by (cases ys) auto
qed

lemma group_key_inj:
  assumes "no_zero_byte r" "no_zero_byte r'" "group_key r = group_key r'"
  shows "repo_platform r = repo_platform r' \<and> repo_api_token r = repo_api_token r'"
  using assms unfolding group_key_def no_zero_byte_def
  by (simp add: append_sep_inj)

text \<open>The state of the grouping loop: every entry is filed under the key of its repositories.\<close>

definition groups_ok :: "(string, fetcher_group) go_map \<Rightarrow> bool" where
  "groups_ok m \<longleftrightarrow> distinct (map fst m) \<and>
     (\<forall>(k, g)\<in>set m. group_ok g \<and> (\<forall>r\<in>set (group_repos g). no_zero_byte r \<and> group_key r = k))"

definition grouped :: "(string, fetcher_group) go_map \<Rightarrow> repository multiset" where
  "grouped m = (\<Sum>(k, g)\<leftarrow>m. mset (group_repos g))"

lemma set_map_put: "distinct (map fst m) \<Longrightarrow> set (map_put k v m) = insert (k, v) {e \<in> set m. fst e \<noteq> k}"
  by (induction k v m rule: map_put.induct) (auto simp: rev_image_eqI)

lemma grouped_put:
  "grouped (map_put k g m) + (case map_of m k of None \<Rightarrow> {#} | Some h \<Rightarrow> mset (group_repos h))
    = grouped m + mset (group_repos g)"
  by (induction k g m rule: map_put.induct) (auto simp: grouped_def ac_simps split: option.splits)

lemma group_repositories_ok:
  assumes "\<forall>r\<in>set rs. no_zero_byte r" "groups_ok m"
  shows "groups_ok (group_repositories rs m) \<and>
    grouped (group_repositories rs m) = grouped m + mset (filter (\<lambda>r. repo_api_token r \<noteq> []) rs)"
  using assms
proof (induction rs arbitrary: m)
  case Nil
  then show ?case by simp
next
  case (Cons r rs)
  show ?case
  proof (cases "repo_api_token r = []")
    case True
    with Cons show ?thesis by simp
  next
    case False
    define g where "g = (case map_of m (group_key r) of
        Some g \<Rightarrow> g\<lparr>group_repos := group_repos g @ [r]\<rparr>
      | None \<Rightarrow> \<lparr>group_platform = repo_platform r, group_token = repo_api_token r, group_repos = [r]\<rparr>)"
    have step: "group_repositories (r # rs) m = group_repositories rs (map_put (group_key r) g m)"
      using False by (simp add: g_def split: option.splits)
    have g: "group_ok g \<and> (\<forall>x\<in>set (group_repos g). no_zero_byte x \<and> group_key x = group_key r)"
    proof (cases "map_of m (group_key r)")
      case None
      with False Cons.prems(1) show ?thesis by (simp add: g_def group_ok_def)
    next
      case (Some h)
      then have h: "group_ok h" "\<forall>x\<in>set (group_repos h). no_zero_byte x \<and> group_key x = group_key r"
        using Cons.prems(2) by (auto simp: groups_ok_def dest!: map_of_SomeD)
      then obtain x where x: "x \<in> set (group_repos h)" "no_zero_byte x" "group_key x = group_key r"
        by (metis group_ok_def last_in_set)
      then have "repo_platform r = group_platform h" "repo_api_token r = group_token h"
        using group_key_inj [of x r] Cons.prems(1) h(1) by (auto simp: group_ok_def)
      with h Some Cons.prems(1) show ?thesis by (auto simp: g_def group_ok_def)
    qed
    have "groups_ok (map_put (group_key r) g m)"
      using Cons.prems(2) g by (auto simp: groups_ok_def set_map_put)
    moreover have "grouped (map_put (group_key r) g m) = add_mset r (grouped m)"
      using grouped_put [of "group_key r" g m] by (auto simp: g_def split: option.splits)
    ultimately show ?thesis
      unfolding step using Cons.IH [of "map_put (group_key r) g m"] Cons.prems(1) False by simp
  qed
qed

lemma grouped_mset: "grouped m = (\<Sum>e\<in>#mset m. mset (group_repos (snd e)))"
  by (simp add: grouped_def case_prod_unfold sum_mset_sum_list [symmetric])

lemma report_groups_partition:
  assumes "iteration_ok it" "\<forall>r\<in>set rs. no_zero_byte r"
  shows "list_all group_ok (report_groups it rs)"
    and "mset (concat (map group_repos (report_groups it rs))) = mset (filter (\<lambda>r. repo_api_token r \<noteq> []) rs)"
    and "distinct (map (\<lambda>g. (group_platform g, group_token g)) (report_groups it rs))"
proof -
  let ?m = "group_repositories rs []"
  have ok: "groups_ok ?m" and all: "grouped ?m = mset (filter (\<lambda>r. repo_api_token r \<noteq> []) rs)"
    using group_repositories_ok [OF assms(2), of "[]"] by (simp_all add: groups_ok_def grouped_def)
  show "list_all group_ok (report_groups it rs)"
    using ok assms(1) by (auto simp: report_groups_def list_all_iff groups_ok_def)
  have "mset (concat (map group_repos (report_groups it rs))) = grouped (range_order it ?m)"
    by (simp add: report_groups_def grouped_def mset_concat comp_def case_prod_unfold sum_mset_sum_list [symmetric])
  also have "\<dots> = grouped ?m"
    using assms(1) by (simp add: grouped_mset)
  finally show "mset (concat (map group_repos (report_groups it rs))) = mset (filter (\<lambda>r. repo_api_token r \<noteq> []) rs)"
    by (simp only: all)
  have key: "platform_name (group_platform g) @ [char_of (0 :: nat)] @ group_token g = k" if "(k, g) \<in> set ?m" for k g
  proof -
    have g: "group_ok g" "\<forall>r\<in>set (group_repos g). group_key r = k"
      using ok that by (auto simp: groups_ok_def)
    then obtain x where "x \<in> set (group_repos g)" by (metis group_ok_def last_in_set)
    with g show ?thesis by (auto simp: group_ok_def group_key_def)
  qed
  have "inj_on (\<lambda>e. (group_platform (snd e), group_token (snd e))) (set ?m)"
  proof (rule inj_onI)
    fix e e'
    assume e: "e \<in> set ?m" "e' \<in> set ?m"
      "(group_platform (snd e), group_token (snd e)) = (group_platform (snd e'), group_token (snd e'))"
    then have "fst e = fst e'"
      using key [of "fst e" "snd e"] key [of "fst e'" "snd e'"] by simp
    moreover have "inj_on fst (set ?m)"
      using ok by (simp add: groups_ok_def distinct_map)
    ultimately show "e = e'"
      using e(1,2) by (blast dest: inj_onD)
  qed
  then have "inj_on (\<lambda>e. (group_platform (snd e), group_token (snd e))) (set (range_order it ?m))"
    using assms(1) by simp
  moreover have "distinct (range_order it ?m)"
    using ok assms(1) by (simp add: groups_ok_def distinct_map)
  ultimately show "distinct (map (\<lambda>g. (group_platform g, group_token g)) (report_groups it rs))"
    by (simp add: report_groups_def comp_def distinct_map)
qed

section \<open>Counts\<close>

definition number_of_type :: "activity list \<Rightarrow> activity_type \<Rightarrow> nat" where
  "number_of_type as t = length (filter (\<lambda>a. GetType a = t) as)"

lemma map_of_count_types:
  "map_of (count_types as m) t =
     (if number_of_type as t = 0 then map_of m t
      else Some (number_of_type as t + (case map_of m t of None \<Rightarrow> 0 | Some n \<Rightarrow> n)))"
  by (induction as m rule: count_types.induct) (auto simp: number_of_type_def split: option.splits)

lemma distinct_count_types: "distinct (map fst m) \<Longrightarrow> distinct (map fst (count_types as m))"
  by (induction as m rule: count_types.induct) (auto simp: distinct_map_put)

lemma sum_map_put:
  "sum_list (map snd (map_put k (Suc (case map_of m k of None \<Rightarrow> 0 | Some n \<Rightarrow> n)) m)) = Suc (sum_list (map snd m))"
  by (induction m) auto

lemma sum_count_types: "sum_list (map snd (count_types as m)) = sum_list (map snd m) + length as"
  by (induction as m rule: count_types.induct) (auto simp: sum_map_put)

lemma buildActivityCounts_correct:
  assumes "iteration_ok it"
  shows "distinct (map count_type (buildActivityCounts it as))"
    and "c \<in> set (buildActivityCounts it as) \<longleftrightarrow> 0 < count_count c \<and> count_count c = number_of_type as (count_type c)"
    and "sum_list (map count_count (buildActivityCounts it as)) = length as"
proof -
  let ?m = "count_types as []"
  have d: "distinct (map fst ?m)" by (simp add: distinct_count_types)
  have "distinct (map fst (range_order it ?m))"
    using d assms by (metis mset_eq_imp_distinct_iff mset_map mset_range_order)
  then show "distinct (map count_type (buildActivityCounts it as))"
    by (simp add: buildActivityCounts_def comp_def case_prod_unfold)
  have "c \<in> set (buildActivityCounts it as) \<longleftrightarrow> (count_type c, count_count c) \<in> set ?m"
    using assms by (force simp: buildActivityCounts_def)
  also have "\<dots> \<longleftrightarrow> map_of ?m (count_type c) = Some (count_count c)"
    using d by simp
  also have "\<dots> \<longleftrightarrow> 0 < count_count c \<and> count_count c = number_of_type as (count_type c)"
    by (auto simp: map_of_count_types)
  finally show "c \<in> set (buildActivityCounts it as) \<longleftrightarrow>
    0 < count_count c \<and> count_count c = number_of_type as (count_type c)" .
  have "sum_list (map count_count (buildActivityCounts it as)) = sum_list (map snd (range_order it ?m))"
    by (simp add: buildActivityCounts_def comp_def case_prod_unfold)
  also have "\<dots> = sum_list (map snd ?m)"
    using assms by (metis mset_map mset_range_order sum_mset_sum_list)
  finally show "sum_list (map count_count (buildActivityCounts it as)) = length as"
    by (simp add: sum_count_types)
qed

section \<open>The report of a member\<close>

text \<open>The calls of a group's goroutine; none when no fetcher is registered for the platform.\<close>

definition group_calls ::
    "fetcher_registry \<Rightarrow> user \<Rightarrow> report_query \<Rightarrow> fetcher_group \<Rightarrow> activity call list list" where
  "group_calls reg member q g =
     (case registry_Build reg (group_platform g) (group_token g) of
        Inl err \<Rightarrow> []
      | Inr f \<Rightarrow> [member_calls f (group_repos g) (GetPlatformUsername member (group_platform g)) q])"

definition all_calls ::
    "fetcher_registry \<Rightarrow> user \<Rightarrow> report_query \<Rightarrow> fetcher_group list \<Rightarrow> activity call list list" where
  "all_calls reg member q gs = concat (map (group_calls reg member q) gs)"

definition discovery_quiet :: "fetcher_registry \<Rightarrow> user \<Rightarrow> fetcher_group \<Rightarrow> bool" where
  "discovery_quiet reg member g \<longleftrightarrow>
     (\<forall>f discover. registry_Build reg (group_platform g) (group_token g) = Inr f \<longrightarrow>
        f_discover f = Some discover \<longrightarrow>
        quiet (discover (GetPlatformUsername member (group_platform g))))"

lemma start_groups_calls:
  "run_state (start_groups reg member q gs) s = (Returned calls, s') \<Longrightarrow> calls = all_calls reg member q gs"
proof (induction gs arbitrary: s calls)
  case Nil
  then show ?case by (simp add: all_calls_def)
next
  case (Cons g gs)
  then show ?case
    by (auto simp: all_calls_def group_calls_def Let_def split: sum.splits prod.splits outcome.splits)
qed

lemma upsert_discovered_returns:
  "fst (run_state (upsert_discovered f u) s) = Returned () \<longleftrightarrow>
     (\<forall>discover. f_discover f = Some discover \<longrightarrow> quiet (discover u))"
  by (auto simp: upsert_discovered_def quiet_def split: option.splits outcome.splits sum.splits prod.splits)

lemma upsert_discovered_cases:
  obtains s' where "run_state (upsert_discovered f u) s = (Returned (), s')"
    "\<forall>discover. f_discover f = Some discover \<longrightarrow> quiet (discover u)"
  | r s' where "run_state (upsert_discovered f u) s = (r, s')" "r \<noteq> Returned ()"
    "\<not> (\<forall>discover. f_discover f = Some discover \<longrightarrow> quiet (discover u))"
  using upsert_discovered_returns [of f u s] by (cases "run_state (upsert_discovered f u) s") auto

lemma start_groups_returns:
  "(\<exists>calls s'. run_state (start_groups reg member q gs) s = (Returned calls, s')) \<longleftrightarrow>
     (\<forall>g\<in>set gs. discovery_quiet reg member g)"
proof (induction gs arbitrary: s)
  case Nil
  then show ?case by simp
next
  case (Cons g gs)
  show ?case
  proof (cases "registry_Build reg (group_platform g) (group_token g)")
    case (Inl err)
    with Cons show ?thesis by (simp add: discovery_quiet_def)
  next
    case (Inr f)
    let ?u = "GetPlatformUsername member (group_platform g)"
    have dq: "discovery_quiet reg member g \<longleftrightarrow> (\<forall>discover. f_discover f = Some discover \<longrightarrow> quiet (discover ?u))"
      using Inr by (simp add: discovery_quiet_def)
    show ?thesis
    proof (cases rule: upsert_discovered_cases [of f ?u s])
      case (1 s1)
      then show ?thesis
        using Inr dq Cons.IH [of s1]
        by (auto simp: Let_def split: prod.splits outcome.splits)
    next
      case (2 r s1)
      then show ?thesis
        using Inr dq by (cases r) (auto simp: Let_def)
    qed
  qed
qed

text \<open>A member's report: it comes about exactly if nothing the platforms are asked panics or never
  returns, and then it is about the member and holds everything that the platforms returned.\<close>

lemma fetchMemberReport_result:
  assumes "run_state (fetchMemberReport E reg sched member gs q) s = (Returned report, s')"
  shows "report_user report = member \<and>
    report_counts report = buildActivityCounts (iter E) (report_activities report) \<and>
    mset (report_activities report) = (\<Sum>cs\<leftarrow>all_calls reg member q gs. results_mset cs)"
proof -
  obtain calls s1 where c: "run_state (start_groups reg member q gs) s = (Returned calls, s1)"
    using assms by (auto simp: fetchMemberReport_def split: prod.splits outcome.splits)
  then have calls: "calls = all_calls reg member q gs" by (rule start_groups_calls)
  obtain xs where "pool_outcome (wait_all sched (spawn calls)) = Returned xs"
    "report = \<lparr>report_user = member, report_counts = buildActivityCounts (iter E) xs, report_activities = xs\<rparr>"
    using assms c by (auto simp: fetchMemberReport_def split: outcome.splits)
  then show ?thesis using pool_outcome_Returned calls by auto
qed

lemma fetchMemberReport_returns:
  "(\<exists>report s'. run_state (fetchMemberReport E reg sched member gs q) s = (Returned report, s')) \<longleftrightarrow>
     (\<forall>g\<in>set gs. discovery_quiet reg member g) \<and>
     (\<forall>cs\<in>set (all_calls reg member q gs). \<forall>c\<in>set cs. quiet c)"
proof (cases "\<forall>g\<in>set gs. discovery_quiet reg member g")
  case True
  then obtain calls s1 where c: "run_state (start_groups reg member q gs) s = (Returned calls, s1)"
    using start_groups_returns [of reg member q gs s] by blast
  then have calls: "calls = all_calls reg member q gs" by (rule start_groups_calls)
  have "(\<exists>report s'. run_state (fetchMemberReport E reg sched member gs q) s = (Returned report, s')) \<longleftrightarrow>
    (\<exists>xs. pool_outcome (wait_all sched (spawn calls)) = Returned xs)"
    using c by (auto simp: fetchMemberReport_def split: outcome.splits)
  also have "\<dots> \<longleftrightarrow> (\<forall>cs\<in>set calls. \<forall>c\<in>set cs. quiet c)"
    using pool_outcome_Returned wait_all_results by metis
  finally show ?thesis using True calls by simp
next
  case False
  then have "\<nexists>calls s1. run_state (start_groups reg member q gs) s = (Returned calls, s1)"
    using start_groups_returns [of reg member q gs s] by blast
  then show ?thesis
    using False by (auto simp: fetchMemberReport_def split: prod.splits outcome.splits)
qed

section \<open>The events of a report\<close>

lemma send_reports_shape:
  assumes "run_state (send_reports E reg scheds n gs q ms) s = ((evs, e), s')"
  shows "\<exists>reports. map report_user reports = take (length reports) ms \<and>
    (if e = Closed then evs = map UserReportEvent reports @ [ReportCompleteEvent] \<and> length reports = length ms
     else evs = map UserReportEvent reports \<and> length reports < length ms)"
  using assms
proof (induction ms arbitrary: n s evs)
  case Nil
  then show ?case by (auto intro: exI [of _ "[]"])
next
  case (Cons m ms)
  obtain r s1 where r: "run_state (fetchMemberReport E reg (scheds n) m gs q) s = (r, s1)" by fastforce
  show ?case
  proof (cases r)
    case (Returned report)
    obtain evs' where evs': "run_state (send_reports E reg scheds (Suc n) gs q ms) s1 = ((evs', e), s')"
      "evs = UserReportEvent report # evs'"
      using Cons.prems r Returned by (auto split: prod.splits)
    from Cons.IH [OF evs'(1)] obtain reports where
      "map report_user reports = take (length reports) ms"
      "if e = Closed then evs' = map UserReportEvent reports @ [ReportCompleteEvent] \<and> length reports = length ms
       else evs' = map UserReportEvent reports \<and> length reports < length ms" by blast
    moreover have "report_user report = m"
      using fetchMemberReport_result r Returned by blast
    ultimately show ?thesis
      using evs'(2) by (intro exI [of _ "report # reports"]) auto
  qed (use Cons.prems r in \<open>auto intro!: exI [of _ "[]"]\<close>)
qed

text \<open>A query returns rows of its table, perhaps not all of them.\<close>

lemma query_rows_rows:
  assumes "run_state (query_rows qm sm f) s = (Inr rows, s')"
  obtains s0 where "tables s0 = tables s" "set rows \<subseteq> set (f s0)"
  using assms by (auto simp: query_rows_def split: prod.splits fault.splits if_splits
      dest!: tables_next_fault dest: in_set_takeD)

lemma tables_same: "tables s = tables t \<Longrightarrow> users_table s = users_table t \<and> leaders_table s = leaders_table t
    \<and> members_table s = members_table t \<and> teams_table s = teams_table t \<and> repos_table s = repos_table t
    \<and> team_repos_table s = team_repos_table t"
  by (cases s; cases t) (auto simp: tables_def)

lemma map_each_members:
  assumes "run_state (map_each f xs) s = (Inr ys, s')" "y \<in> set ys"
  shows "\<exists>x\<in>set xs. \<exists>s0 s1. run_state (f x) s0 = (Inr y, s1)"
  using assms by (induction xs arbitrary: s ys) (auto split: prod.splits sum.splits, blast+)

lemma FindByIDs_ids:
  assumes "run_state (UserRepo_FindByIDs ids) s = (Inr us, s')" "u \<in> set us"
  shows "user_id u \<in> set ids"
proof -
  obtain rows s1 where rows: "run_state (query_rows ''find users by ids'' ''scan user''
      (\<lambda>s. filter (\<lambda>r. ur_id r \<in> set ids) (users_table s))) s = (Inr rows, s1)"
    and us: "run_state (map_each load_user rows) s1 = (Inr us, s')"
    using assms(1) by (auto simp: UserRepo_FindByIDs_def run_check_err split: prod.splits sum.splits)
  obtain r s2 s3 where r: "r \<in> set rows" "run_state (load_user r) s2 = (Inr u, s3)"
    using map_each_members [OF us assms(2)] by blast
  have "ur_id r \<in> set ids"
    using rows by (rule query_rows_rows) (use r(1) in auto)
  moreover have "user_id u = ur_id r"
    using r(2) by (auto simp: load_user_def run_check_err user_of_row_def split: prod.splits sum.splits)
  ultimately show ?thesis by simp
qed

lemma FindByID_leaders:
  assumes "run_state (TeamRepo_FindByID tid) s = (Inr t, s')" "u \<in> set (team_leader_ids t)"
  shows "(tid, u) \<in> set (leaders_table s)"
proof -
  obtain row s1 where row: "run_state (query_row (\<lambda>s. by_key tr_id tid (teams_table s))) s = (Inr row, s1)"
    and rel: "run_state (loadRelations row) s1 = (Inr t, s')"
    using assms(1) by (auto simp: TeamRepo_FindByID_def run_check_err run_wrapf split: prod.splits sum.splits)
  have "tr_id row = tid"
    using row by (auto simp: query_row_def by_key_def split: prod.splits option.splits list.splits)
      (metis (mono_tags, lifting) filter_eq_Cons_iff)
  moreover obtain ls s2 where ls: "run_state (loadLeaderIDs (tr_id row)) s1 = (Inr ls, s2)" "team_leader_ids t = ls"
    using rel by (auto simp: loadRelations_def run_check_err split: prod.splits sum.splits)
  moreover have "tables s1 = tables s"
    using row by (rule tables_query_row)
  ultimately show ?thesis
    using assms(2) by (auto simp: loadLeaderIDs_def dest!: tables_same elim!: query_rows_rows)
qed

text \<open>The ways through \<open>GenerateReport\<close>.\<close>

lemma GenerateReport_cases:
  assumes "run_state (GenerateReport E reg scheds q) s = ((evs, e), s')"
  obtains (error) msg err where "(evs, e) = error_event E msg err"
  | (reports) t s1 us s2 repos s3 where
      "run_state (TeamRepo_FindByID (query_team_id q)) s = (Inr t, s1)"
      "run_state (UserRepo_FindByIDs (report_member_ids q t)) s1 = (Inr us, s2)"
      "run_state (RepoStore_FindByIDs (team_repository_ids t)) s2 = (Inr repos, s3)"
      "run_state (send_reports E reg scheds 0 (report_groups (iter E) repos) q us) s3 = ((evs, e), s')"
proof -
  obtain rt s1 where t: "run_state (TeamRepo_FindByID (query_team_id q)) s = (rt, s1)" by fastforce
  show thesis
  proof (cases rt)
    case (Inl err)
    with t assms have "(evs, e) = error_event E ''team not found'' err" by (simp add: GenerateReport_def)
    then show thesis by (rule error)
  next
    case (Inr t')
    obtain ru s2 where u: "run_state (UserRepo_FindByIDs (report_member_ids q t')) s1 = (ru, s2)" by fastforce
    show thesis
    proof (cases ru)
      case (Inl err)
      with t u Inr assms have "(evs, e) = error_event E ''failed to load members'' err"
        by (simp add: GenerateReport_def)
      then show thesis by (rule error)
    next
      case Inr_u: (Inr us)
      obtain rr s3 where r: "run_state (RepoStore_FindByIDs (team_repository_ids t')) s2 = (rr, s3)" by fastforce
      show thesis
      proof (cases rr)
        case (Inl err)
        with t u r Inr Inr_u assms have "(evs, e) = error_event E ''failed to load repos'' err"
          by (simp add: GenerateReport_def)
        then show thesis by (rule error)
      next
        case Inr_r: (Inr repos)
        with t u r Inr Inr_u assms have
          "run_state (send_reports E reg scheds 0 (report_groups (iter E) repos) q us) s3 = ((evs, e), s')"
          by (simp add: GenerateReport_def)
        with t u r Inr Inr_u Inr_r show thesis using reports by blast
      qed
    qed
  qed
qed

text \<open>What a caller without rights over the team can see, whatever goes wrong.\<close>

lemma GenerateReport_scope:
  assumes "run_state (GenerateReport E reg scheds q) s = ((evs, e), s')"
    and "UserReportEvent report \<in> set evs"
    and "\<not> map_flag (query_caller_roles q) RoleAdmin"
    and "(query_team_id q, query_caller_id q) \<notin> set (leaders_table s)"
  shows "user_id (report_user report) = query_caller_id q"
  using assms(1)
proof (cases rule: GenerateReport_cases)
  case (error msg err)
  with assms(2) show ?thesis by (simp add: error_event_def)
next
  case (reports t s1 us s2 repos s3)
  have "query_caller_id q \<notin> set (team_leader_ids t)"
    using FindByID_leaders [OF reports(1)] assms(4) by blast
  then have ids: "report_member_ids q t = [query_caller_id q]"
    using assms(3) by (simp add: report_member_ids_def)
  obtain rs where rs: "map report_user rs = take (length rs) us"
    "evs = map UserReportEvent rs @ [ReportCompleteEvent] \<or> evs = map UserReportEvent rs"
    using send_reports_shape [OF reports(4)] by metis
  then have "map report_user rs = take (length rs) us" "report \<in> set rs"
    using assms(2) by auto
  then have "report_user report \<in> set us"
    by (metis image_eqI in_set_takeD list.set_map)
  from FindByIDs_ids [OF reports(2) this] show ?thesis
    by (simp add: ids)
qed

section \<open>A report ends\<close>

text \<open>Nothing that the platform of \<open>f\<close> is asked panics or never returns.\<close>

definition fetcher_answers :: "fetcher \<Rightarrow> bool" where
  "fetcher_answers f \<longleftrightarrow>
     (\<forall>u repo since until types. quiet (f_fetch f u repo since until types)) \<and>
     (\<forall>u repos since until types. quiet (f_search f u repos since until types)) \<and>
     (\<forall>discover u. f_discover f = Some discover \<longrightarrow> quiet (discover u))"

definition registry_answers :: "fetcher_registry \<Rightarrow> bool" where
  "registry_answers reg \<longleftrightarrow> (\<forall>p key f. registry_Build reg p key = Inr f \<longrightarrow> fetcher_answers f)"

lemma fetchMemberReport_answers:
  assumes "registry_answers reg"
  shows "\<exists>report s'. run_state (fetchMemberReport E reg sched member gs q) s = (Returned report, s')"
  unfolding fetchMemberReport_returns
  using assms
  by (auto simp: registry_answers_def fetcher_answers_def discovery_quiet_def all_calls_def group_calls_def
      member_calls_def split: sum.splits)

lemma send_reports_answers:
  assumes "registry_answers reg" "run_state (send_reports E reg scheds n gs q ms) s = ((evs, e), s')"
  shows "e = Closed"
  using assms(2)
proof (induction ms arbitrary: n s evs)
  case (Cons m ms)
  obtain report s1 where "run_state (fetchMemberReport E reg (scheds n) m gs q) s = (Returned report, s1)"
    using fetchMemberReport_answers [OF assms(1)] by blast
  with Cons show ?case by (auto split: prod.splits)
qed simp

text \<open>Whatever the database does, the stream is closed after one report per member and the completion
  event, or after a single error.\<close>

lemma GenerateReport_answers:
  assumes "registry_answers reg" "run_state (GenerateReport E reg scheds q) s = ((evs, e), s')"
  shows "e = Closed \<and> ((\<exists>reports. evs = map UserReportEvent reports @ [ReportCompleteEvent]) \<or>
    (\<exists>msg. evs = [ReportErrorEvent msg]))"
  using assms(2)
proof (cases rule: GenerateReport_cases)
  case (error msg err)
  then show ?thesis by (simp add: error_event_def)
next
  case (reports t s1 us s2 repos s3)
  from send_reports_answers [OF assms(1) reports(4)] send_reports_shape [OF reports(4)]
  show ?thesis by auto
qed

text \<open>From a database that answers: the report of a team holds one report for each user the caller may
  see, in the order of the table, and the completion event.\<close>

lemma GenerateReport_reports:
  assumes "registry_answers reg" "healthy s" "by_key tr_id (query_team_id q) (teams_table s) = [t]"
  shows "\<exists>reports s'. run_state (GenerateReport E reg scheds q) s =
      ((map UserReportEvent reports @ [ReportCompleteEvent], Closed), s') \<and>
    map report_user reports =
      map (user_view s) (filter (\<lambda>r. ur_id r \<in> set (report_member_ids q (team_view s t))) (users_table s))"
proof -
  let ?us = "map (user_view s) (filter (\<lambda>r. ur_id r \<in> set (report_member_ids q (team_view s t))) (users_table s))"
  let ?rs = "map repo_of_row (filter (\<lambda>r. rr_id r \<in> set (team_repository_ids (team_view s t))) (repos_table s))"
  obtain evs e s' where run: "run_state (send_reports E reg scheds 0 (report_groups (iter E) ?rs) q ?us) s = ((evs, e), s')"
    by (metis surj_pair)
  have "run_state (GenerateReport E reg scheds q) s = ((evs, e), s')"
    unfolding GenerateReport_def by (simp add: run_rules assms(2,3) run [simplified])
  moreover have "e = Closed" by (rule send_reports_answers [OF assms(1) run])
  moreover from this send_reports_shape [OF run] obtain reports where
    "evs = map UserReportEvent reports @ [ReportCompleteEvent]" "map report_user reports = ?us" by auto
  ultimately show ?thesis by blast
qed

text \<open>The schedule of the goroutines decides the order of the activities, and nothing else.\<close>

lemma mset_counts:
  assumes "iteration_ok it" "mset as = mset bs"
  shows "set (buildActivityCounts it as) = set (buildActivityCounts it bs)"
proof -
  have "mset (filter (\<lambda>a. GetType a = t) as) = mset (filter (\<lambda>a. GetType a = t) bs)" for t
    using assms(2) by simp
  then have "number_of_type as t = number_of_type bs t" for t
    unfolding number_of_type_def by (metis size_mset)
  then show ?thesis
    by (auto simp: buildActivityCounts_correct(2) [OF assms(1)])
qed

lemma fetchMemberReport_schedules:
  assumes "iteration_ok (iter E)"
    and "run_state (fetchMemberReport E reg sched member gs q) s = (Returned r1, s1)"
    and "run_state (fetchMemberReport E reg sched' member gs q) s = (out, s2)"
  shows "\<exists>r2. out = Returned r2 \<and> s2 = s1 \<and> report_user r2 = report_user r1 \<and>
    mset (report_activities r2) = mset (report_activities r1) \<and> set (report_counts r2) = set (report_counts r1)"
proof -
  obtain r2 s2' where "run_state (fetchMemberReport E reg sched' member gs q) s = (Returned r2, s2')"
    using fetchMemberReport_returns assms(2) by metis
  with assms(3) have r2: "out = Returned r2" "run_state (fetchMemberReport E reg sched' member gs q) s = (Returned r2, s2)"
    by simp_all
  have "s2 = s1"
    using assms(2) r2(2) by (auto simp: fetchMemberReport_def split: prod.splits)
  with r2(1) fetchMemberReport_result [OF assms(2)] fetchMemberReport_result [OF r2(2)]
    mset_counts [OF assms(1), of "report_activities r2" "report_activities r1"]
  show ?thesis by simp
qed

end
