(* ===== verification/Report_Effects.thy ===== *)
theory Report_Effects
  imports Report_Facts
begin

text \<open>
  What a report does to the store: it reads, and it upserts the repositories that the fetchers
  discover. So it keeps the constraints of the schema and everything but the table of
  repositories. A discovered repository carries no token, and \<open>Upsert\<close> overwrites the token of a
  stored repository with the one it is given: a report empties the token of every repository of
  the team that a fetcher discovers, and the next report skips it.
\<close>

section \<open>Invariants\<close>

context read_invariant
begin

lemma keeps_upsert_discovered:
  assumes "\<And>r. keeps I (RepoStore_Upsert r)"
  shows "keeps I (upsert_discovered f u)"
  unfolding upsert_discovered_def
  by (auto split: option.splits outcome.splits sum.splits intro!: keeps_rules assms)

lemma keeps_start_groups:
  assumes "\<And>r. keeps I (RepoStore_Upsert r)"
  shows "keeps I (start_groups reg member q gs)"
proof (induction gs)
  case (Cons g gs)
  then show ?case
    by (auto simp: Let_def split: sum.splits outcome.splits
        intro!: keeps_rules keeps_upsert_discovered assms)
qed (auto intro: keeps_rules)

lemma keeps_fetchMemberReport:
  assumes "\<And>r. keeps I (RepoStore_Upsert r)"
  shows "keeps I (fetchMemberReport E reg sched m gs q)"
  unfolding fetchMemberReport_def by (intro keeps_rules keeps_start_groups assms)

lemma keeps_send_reports:
  assumes "\<And>r. keeps I (RepoStore_Upsert r)"
  shows "keeps I (send_reports E reg scheds n gs q ms)"
proof (induction ms arbitrary: n)
  case (Cons m ms)
  then show ?case
    by (auto split: outcome.splits prod.splits intro!: keeps_rules keeps_fetchMemberReport assms)
qed (auto intro: keeps_rules)

lemma keeps_report:
  assumes "\<And>r. keeps I (RepoStore_Upsert r)"
  shows "keeps I (GenerateReport E reg scheds q)"
  unfolding GenerateReport_def by (intro keeps_rules keeps_send_reports assms)

end

lemma keeps_exec_returning:
  "keeps I (exec_sql f) \<Longrightarrow> keeps I (exec_returning f g)"
  unfolding exec_returning_def by (intro keeps_rules)

lemma keeps_Upsert: "keeps I (exec_sql (sql_upsert_repo (row_of_repo r))) \<Longrightarrow> keeps I (RepoStore_Upsert r)"
  unfolding RepoStore_Upsert_def by (intro keeps_rules keeps_exec_returning)

lemma schema_report: "keeps schema_ok (GenerateReport E reg scheds q)"
  by (intro schema.keeps_report keeps_Upsert keeps_rules)

lemma healthy_report: "keeps healthy (GenerateReport E reg scheds q)"
  by (intro healthy_reads.keeps_report keeps_Upsert keeps_rules)

text \<open>All tables but that of the repositories.\<close>

definition other_tables :: "db \<Rightarrow> db" where
  "other_tables s = (tables s)\<lparr>repos_table := []\<rparr>"

interpretation others: stmt_invariant "\<lambda>s. other_tables s = t"
  by unfold_locales (simp add: other_tables_def)

lemma other_tables_upsert: "keeps (\<lambda>s. other_tables s = t) (exec_sql (sql_upsert_repo rr))"
  by (rule others.keeps_exec) (auto simp: sql_defs other_tables_def tables_def split: if_splits)

lemma report_other_tables: "keeps (\<lambda>s. other_tables s = t) (GenerateReport E reg scheds q)"
  by (intro others.keeps_report keeps_Upsert other_tables_upsert)

section \<open>Lost tokens\<close>

text \<open>Every row for the repository \<open>k\<close> (full name and platform) has an empty token.\<close>

definition tokenless :: "string \<times> string \<Rightarrow> db \<Rightarrow> bool" where
  "tokenless k s \<longleftrightarrow> healthy s \<and> (\<forall>x\<in>set (repos_table s). rr_key x = k \<longrightarrow> rr_api_token x = [])"

lemma run_Upsert:
  assumes "healthy s"
  shows "\<exists>res s'. run_state (RepoStore_Upsert r) s = (res, s') \<and>
    (s' = s \<and> rr_key (row_of_repo r) \<notin> rr_key ` set (repos_table s) \<or>
     sql_upsert_repo (row_of_repo r) s = Inr s')"
proof (cases "sql_upsert_repo (row_of_repo r) s")
  case (Inl err)
  then have "rr_key (row_of_repo r) \<notin> rr_key ` set (repos_table s)"
    by (auto simp: sql_upsert_repo_def split: if_splits)
  with Inl assms show ?thesis
    by (simp add: RepoStore_Upsert_def exec_returning_def run_rules)
next
  case (Inr s')
  with assms show ?thesis
    by (auto simp: RepoStore_Upsert_def exec_returning_def run_rules split: list.splits)
qed

lemma key_absent: "rr_key r \<in> rr_key ` A \<longleftrightarrow>
    (\<exists>x\<in>A. rr_full_name x = rr_full_name r \<and> rr_platform x = rr_platform r)"
  by (simp add: image_iff eq_commute)

lemma upsert_tokenless:
  assumes "repo_api_token r = []" "healthy s"
  shows "tokenless (rr_key (row_of_repo r)) (snd (run_state (RepoStore_Upsert r) s))"
proof -
  obtain res s' where run: "run_state (RepoStore_Upsert r) s = (res, s')"
    and eff: "s' = s \<and> rr_key (row_of_repo r) \<notin> rr_key ` set (repos_table s) \<or>
      sql_upsert_repo (row_of_repo r) s = Inr s'"
    using run_Upsert [OF assms(2), of r] by blast
  have "healthy s'"
    using eff assms(2) sql_faults(19) [of "row_of_repo r" s s'] by (auto simp: healthy_def)
  moreover have "rr_api_token (row_of_repo r) = []"
    using assms(1) by (simp add: row_of_repo_def)
  ultimately have "tokenless (rr_key (row_of_repo r)) s'"
    using eff by (auto simp: tokenless_def sql_upsert_repo_def sql_insert_repo_def update_where_def
        key_absent split: if_splits)
  with run show ?thesis by simp
qed

lemma tokenless_kept:
  assumes "repo_api_token r = []"
  shows "keeps (tokenless k) (RepoStore_Upsert r)"
  unfolding keeps_def
proof (intro allI impI)
  fix s assume s: "tokenless k s"
  then have "healthy s" by (simp add: tokenless_def)
  then obtain res s' where run: "run_state (RepoStore_Upsert r) s = (res, s')"
    and eff: "s' = s \<and> rr_key (row_of_repo r) \<notin> rr_key ` set (repos_table s) \<or>
      sql_upsert_repo (row_of_repo r) s = Inr s'"
    using run_Upsert [of s r] by blast
  have "healthy s'"
    using eff \<open>healthy s\<close> sql_faults(19) [of "row_of_repo r" s s'] by (auto simp: healthy_def)
  moreover have "rr_api_token (row_of_repo r) = []"
    using assms by (simp add: row_of_repo_def)
  ultimately have "tokenless k s'"
    using eff s by (auto simp: tokenless_def sql_upsert_repo_def sql_insert_repo_def update_where_def
        split: if_splits)
  with run show "tokenless k (snd (run_state (RepoStore_Upsert r) s))" by simp
qed

lemma do_each_tokenless:
  assumes "\<forall>r\<in>set rs. repo_api_token r = []" "healthy s" "r \<in> set rs"
  shows "tokenless (rr_key (row_of_repo r)) (snd (run_state (do_each RepoStore_Upsert rs) s))"
  using assms
proof (induction rs arbitrary: s)
  case Nil
  then show ?case by simp
next
  case (Cons x rs)
  obtain res s1 where run: "run_state (RepoStore_Upsert x) s = (res, s1)" by fastforce
  have tl: "tokenless (rr_key (row_of_repo x)) s1"
    using upsert_tokenless [of x s] Cons.prems run by simp
  have rest: "keeps (tokenless k) (do_each RepoStore_Upsert rs)" for k
    using Cons.prems(1) by (intro keeps_do_each tokenless_kept) auto
  show ?case
  proof (cases "r = x")
    case True
    with keepsD [OF rest tl] run show ?thesis by simp
  next
    case False
    with Cons.IH [of s1] Cons.prems tl run show ?thesis by (auto simp: tokenless_def)
  qed
qed

text \<open>A registry whose fetchers discover repositories without tokens, as both of the program's do.\<close>

definition discovers_tokenless :: "fetcher_registry \<Rightarrow> bool" where
  "discovers_tokenless reg \<longleftrightarrow> (\<forall>p key f discover u ds.
     registry_Build reg p key = Inr f \<longrightarrow> f_discover f = Some discover \<longrightarrow>
     discover u = Returned (Inr ds) \<longrightarrow> (\<forall>r\<in>set ds. repo_api_token r = []))"

text \<open>The group whose fetcher discovers \<open>r\<close>.\<close>

definition discovers :: "fetcher_registry \<Rightarrow> user \<Rightarrow> fetcher_group \<Rightarrow> repository \<Rightarrow> bool" where
  "discovers reg member g r \<longleftrightarrow>
     (case registry_Build reg (group_platform g) (group_token g) of
        Inl err \<Rightarrow> False
      | Inr f \<Rightarrow> (case f_discover f of
          None \<Rightarrow> False
        | Some discover \<Rightarrow> \<exists>ds. discover (GetPlatformUsername member (group_platform g)) = Returned (Inr ds)
            \<and> r \<in> set ds))"

lemma upsert_discovered_keeps:
  assumes "discovers_tokenless reg" "registry_Build reg p key = Inr f"
  shows "keeps (tokenless k) (upsert_discovered f u)" "keeps healthy (upsert_discovered f u)"
proof -
  have "keeps I (upsert_discovered f u)"
    if "\<And>r. repo_api_token r = [] \<Longrightarrow> keeps I (RepoStore_Upsert r)" for I :: "db \<Rightarrow> bool"
    unfolding upsert_discovered_def
    using assms
    by (auto simp: discovers_tokenless_def split: option.splits outcome.splits sum.splits
        intro!: keeps_rules that)
  note this [OF tokenless_kept] this [OF keeps_Upsert]
  then show "keeps (tokenless k) (upsert_discovered f u)" "keeps healthy (upsert_discovered f u)"
    by (auto intro: keeps_rules)
qed

lemma start_groups_keeps:
  assumes "discovers_tokenless reg"
  shows "keeps (tokenless k) (start_groups reg member q gs)"
proof (induction gs)
  case (Cons g gs)
  then show ?case
    by (auto simp: Let_def split: sum.splits outcome.splits
        intro!: keeps_rules upsert_discovered_keeps(1) [OF assms])
qed (auto intro: keeps_rules)

lemma start_groups_tokenless:
  assumes "discovers_tokenless reg" "healthy s" "g \<in> set gs" "discovers reg member g r"
    and "run_state (start_groups reg member q gs) s = (Returned calls, s')"
  shows "tokenless (rr_key (row_of_repo r)) s'"
  using assms(2,3,5)
proof (induction gs arbitrary: s calls)
  case Nil
  then show ?case by simp
next
  case (Cons h gs)
  show ?case
  proof (cases "registry_Build reg (group_platform h) (group_token h)")
    case (Inl err)
    then have "h \<noteq> g" using assms(4) by (auto simp: discovers_def)
    with Cons Inl show ?thesis by auto
  next
    case (Inr f)
    let ?u = "GetPlatformUsername member (group_platform h)"
    obtain s1 calls' where d: "run_state (upsert_discovered f ?u) s = (Returned (), s1)"
      and rest: "run_state (start_groups reg member q gs) s1 = (Returned calls', s')"
      using Cons.prems(3) Inr by (auto simp: Let_def split: prod.splits outcome.splits)
    show ?thesis
    proof (cases "h = g")
      case True
      then obtain discover ds where ds: "f_discover f = Some discover" "discover ?u = Returned (Inr ds)" "r \<in> set ds"
        using assms(4) Inr by (auto simp: discovers_def split: option.splits)
      then have "\<forall>r\<in>set ds. repo_api_token r = []"
        using assms(1) Inr by (auto simp: discovers_tokenless_def)
      then have "tokenless (rr_key (row_of_repo r)) s1"
        using do_each_tokenless [of ds s r] Cons.prems(1) ds d
        by (auto simp: upsert_discovered_def split: prod.splits)
      from keeps_run [OF start_groups_keeps [OF assms(1)] this rest] show ?thesis .
    next
      case False
      have "healthy s1"
        using keeps_run [OF upsert_discovered_keeps(2) [OF assms(1) Inr] Cons.prems(1) d] .
      with Cons.IH [OF _ _ rest] Cons.prems(2) False show ?thesis by auto
    qed
  qed
qed

lemma fetchMemberReport_keeps:
  assumes "discovers_tokenless reg"
  shows "keeps (tokenless k) (fetchMemberReport E reg sched m gs q)"
  unfolding fetchMemberReport_def by (intro keeps_rules start_groups_keeps assms)

lemma send_reports_keeps:
  assumes "discovers_tokenless reg"
  shows "keeps (tokenless k) (send_reports E reg scheds n gs q ms)"
proof (induction ms arbitrary: n)
  case (Cons m ms)
  then show ?case
    by (auto split: outcome.splits prod.splits intro!: keeps_rules fetchMemberReport_keeps assms)
qed (auto intro: keeps_rules)

lemma fetchMemberReport_healthy: "keeps healthy (fetchMemberReport E reg sched m gs q)"
  by (intro healthy_reads.keeps_fetchMemberReport keeps_Upsert keeps_rules)

lemma send_reports_tokenless:
  assumes "discovers_tokenless reg" "healthy s" "g \<in> set gs"
    and "run_state (send_reports E reg scheds n gs q ms) s = ((evs, e), s')"
    and "UserReportEvent report \<in> set evs" "discovers reg (report_user report) g r"
  shows "tokenless (rr_key (row_of_repo r)) s'"
  using assms(2,4,5)
proof (induction ms arbitrary: n s evs)
  case Nil
  then show ?case by auto
next
  case (Cons m ms)
  obtain rp s1 where rp: "run_state (fetchMemberReport E reg (scheds n) m gs q) s = (Returned rp, s1)"
    using Cons.prems by (auto split: prod.splits outcome.splits)
  obtain evs' where evs': "run_state (send_reports E reg scheds (Suc n) gs q ms) s1 = ((evs', e), s')"
    "evs = UserReportEvent rp # evs'"
    using Cons.prems(2) rp by (auto split: prod.splits)
  show ?case
  proof (cases "report = rp")
    case True
    then have "report_user report = m" using fetchMemberReport_result [OF rp] by simp
    obtain calls where "run_state (start_groups reg m q gs) s = (Returned calls, s1)"
      using rp by (auto simp: fetchMemberReport_def split: prod.splits outcome.splits)
    then have "tokenless (rr_key (row_of_repo r)) s1"
      using start_groups_tokenless [OF assms(1) Cons.prems(1) assms(3)] assms(6) \<open>report_user report = m\<close> by simp
    from keeps_run [OF send_reports_keeps [OF assms(1)] this evs'(1)] show ?thesis .
  next
    case False
    with Cons.IH [OF _ evs'(1)] keeps_run [OF fetchMemberReport_healthy Cons.prems(1) rp]
      Cons.prems(3) evs'(2) show ?thesis by simp
  qed
qed

lemma report_groups_member:
  assumes "iteration_ok it" "\<forall>r\<in>set rs. no_zero_byte r" "r \<in> set rs" "repo_api_token r \<noteq> []"
  obtains g where "g \<in> set (report_groups it rs)" "group_platform g = repo_platform r"
    "group_token g = repo_api_token r" "r \<in> set (group_repos g)"
proof -
  have "r \<in># mset (concat (map group_repos (report_groups it rs)))"
    unfolding report_groups_partition(2) [OF assms(1,2)] using assms(3,4) by simp
  then obtain g where g: "g \<in> set (report_groups it rs)" "r \<in> set (group_repos g)" by auto
  moreover have "group_ok g"
    using report_groups_partition(1) [OF assms(1,2)] g(1) by (simp add: list_all_iff)
  ultimately show thesis using that by (auto simp: group_ok_def)
qed

text \<open>The row \<open>x\<close> of a repository of the team, with a token with which the platform lets the
  fetcher discover the repository: after the report its token is gone.\<close>

lemma GenerateReport_loses_token:
  assumes "healthy s" "iteration_ok (iter E)" "discovers_tokenless reg"
    and "by_key tr_id (query_team_id q) (teams_table s) = [t]"
    and "(tr_id t, rr_id x) \<in> set (team_repos_table s)" "x \<in> set (repos_table s)" "rr_api_token x \<noteq> []"
    and "\<forall>y\<in>set (repos_table s). char_of (0 :: nat) \<notin> set (rr_platform y)"
    and "run_state (GenerateReport E reg scheds q) s = ((evs, e), s')"
    and "UserReportEvent report \<in> set evs"
    and "registry_Build reg \<lparr>platform_name = rr_platform x\<rparr> (rr_api_token x) = Inr f"
    and "f_discover f = Some discover"
    and "discover (GetPlatformUsername (report_user report) \<lparr>platform_name = rr_platform x\<rparr>) = Returned (Inr ds)"
    and "d \<in> set ds" "rr_key (row_of_repo d) = rr_key x"
  shows "\<forall>y\<in>set (repos_table s'). rr_key y = rr_key x \<longrightarrow> rr_api_token y = []"
  using assms(9)
proof (cases rule: GenerateReport_cases)
  case (error msg err)
  with assms(10) show ?thesis by (simp add: error_event_def)
next
  case (reports t' s1 us s2 repos s3)
  have t: "t' = team_view s t" "s1 = s"
    using reports(1) assms(1,4) by (auto simp: run_rules)
  have s2: "s2 = s"
    using reports(2) assms(1) t(2) by (simp add: run_rules)
  have rs: "repos = map repo_of_row (filter (\<lambda>r. rr_id r \<in> set (team_repository_ids t')) (repos_table s))" "s3 = s"
    using reports(3) assms(1) s2 by (auto simp: run_rules)
  have z: "\<forall>r\<in>set repos. no_zero_byte r"
    using assms(8) by (auto simp: rs no_zero_byte_def repo_of_row_def)
  have "repo_of_row x \<in> set repos" "repo_api_token (repo_of_row x) \<noteq> []"
    using assms(5-7) by (auto simp: rs t repo_of_row_def)
  from report_groups_member [OF assms(2) z this] obtain g where
    g: "g \<in> set (report_groups (iter E) repos)" "group_platform g = \<lparr>platform_name = rr_platform x\<rparr>"
      "group_token g = rr_api_token x"
    by (auto simp: repo_of_row_def)
  have "discovers reg (report_user report) g d"
    using assms(11-14) g by (simp add: discovers_def)
  from send_reports_tokenless [OF assms(3,1) g(1) _ assms(10) this] reports(4)
  have "tokenless (rr_key (row_of_repo d)) s'"
    unfolding rs(2) by blast
  then show ?thesis by (simp add: tokenless_def assms(15))
qed

end
