(* ===== verification/Streaming.thy ===== *)
theory Streaming
  imports Report_Effects
begin

text \<open>
  Server-sent events (\<open>presentation/sse.go\<close>, \<open>report_handler.go\<close>) from the report service to the
  browser: the handler that parses the request and writes one event per report event, the bytes
  of an event, and the loop of the frontend (\<open>frontend/app.js\<close>) that reads them back from the
  chunks in which the network delivers them. The text of an event's data is \<open>json.Marshal\<close>'s, a
  parameter that yields one line.
\<close>

section \<open>Writing events\<close>

abbreviation newline :: char where
  "newline \<equiv> char_of (10 :: nat)"

definition WriteEvent :: "(sse_event_data \<Rightarrow> string) \<Rightarrow> string \<Rightarrow> sse_event_data \<Rightarrow> string" where
  "WriteEvent marshal eventType data =
     ''event: '' @ eventType @ [newline] @ ''data: '' @ marshal data @ [newline, newline]"

text \<open>\<open>NewSSEWriter\<close>: \<open>None\<close> when the response writer cannot flush.\<close>

definition sse_headers :: "(string \<times> string) list" where
  "sse_headers = [(''Content-Type'', ''text/event-stream''), (''Cache-Control'', ''no-cache''),
     (''Connection'', ''keep-alive''), (''X-Accel-Buffering'', ''no'')]"

definition NewSSEWriter :: "bool \<Rightarrow> (string \<times> string) list result" where
  "NewSSEWriter flusher = (if flusher then Inr sse_headers else Inl (Msg ''streaming not supported''))"

definition stream_bytes :: "(sse_event_data \<Rightarrow> string) \<Rightarrow> (string \<times> sse_event_data) list \<Rightarrow> string" where
  "stream_bytes marshal evs = concat (map (\<lambda>(t, d). WriteEvent marshal t d) evs)"

section \<open>The handler\<close>

text \<open>The loop \<open>switch t\<close> over the requested types; an unknown one is passed over.\<close>

fun request_types :: "string list \<Rightarrow> activity_type list" where
  "request_types [] = []"
| "request_types (t # ts) =
     (if t = ''COMMIT'' then ActivityTypeCommit # request_types ts
      else if t = ''MERGED_PR'' then ActivityTypeMergedPullRequest # request_types ts
      else if t = ''ISSUE'' then ActivityTypeIssue # request_types ts
      else if t = ''PR_REVIEW'' then ActivityTypePullRequestReview # request_types ts
      else request_types ts)"

fun event_data :: "iteration \<Rightarrow> report_event \<Rightarrow> string \<times> sse_event_data" where
  "event_data it (UserReportEvent r) = (''USER_REPORT'',
     \<lparr>sse_type = ''USER_REPORT'', sse_report = Some (UserReportToDTO it r), sse_error = []\<rparr>)"
| "event_data it ReportCompleteEvent = (''COMPLETE'',
     \<lparr>sse_type = ''COMPLETE'', sse_report = None, sse_error = []\<rparr>)"
| "event_data it (ReportErrorEvent m) = (''ERROR'',
     \<lparr>sse_type = ''ERROR'', sse_report = None, sse_error = m\<rparr>)"

text \<open>What the handler is built with: the registry of the report service, the schedules of its
  goroutines, and whether the response writer can flush.\<close>

record report_port =
  rp_registry :: fetcher_registry
  rp_schedules :: "nat \<Rightarrow> nat list"
  rp_flusher :: bool

definition report_query_of :: "auth_context \<Rightarrow> report_request \<Rightarrow> go_time \<Rightarrow> go_time \<Rightarrow> report_query" where
  "report_query_of authCtx req since until = \<lparr>query_team_id = rq_team_id req,
     query_member_id = rq_member_id req, query_caller_id = ctx_user_id authCtx,
     query_caller_roles = ctx_roles authCtx, query_since = since, query_until = until,
     query_types = request_types (rq_types req), query_report_type = rq_report_type req\<rparr>"

definition ReportHandler_StreamReport ::
    "env \<Rightarrow> report_port \<Rightarrow> report_request option \<Rightarrow> auth_context option \<Rightarrow> (db, response) state" where
  "ReportHandler_StreamReport E R body actx =
     (case actx of
        None \<Rightarrow> State_Monad.return (writeError 401 ''not authenticated'')
      | Some authCtx \<Rightarrow>
         (case body of
            None \<Rightarrow> State_Monad.return (writeError 400 ''invalid request body'')
          | Some req \<Rightarrow>
             (case Parse_Date (rq_since req) of
                None \<Rightarrow> State_Monad.return (writeError 400 ''invalid since date'')
              | Some since \<Rightarrow>
                 (case Parse_Date (rq_until req) of
                    None \<Rightarrow> State_Monad.return (writeError 400 ''invalid until date'')
                  | Some until \<Rightarrow>
                     (case NewSSEWriter (rp_flusher R) of
                        Inl err \<Rightarrow> State_Monad.return (writeError 500 ''streaming not supported'')
                      | Inr headers \<Rightarrow> do {
                          (events, e) \<leftarrow> GenerateReport E (rp_registry R) (rp_schedules R)
                            (report_query_of authCtx req since until);
                          State_Monad.return \<lparr>status = 200,
                            resp_body = EventStream (map (event_data (iter E)) events) e\<rparr>
                        })))))"

section \<open>Reading events\<close>

definition js_space :: "char \<Rightarrow> bool" where
  "js_space c \<longleftrightarrow> (let n = (of_char c :: nat) in n = 32 \<or> 9 \<le> n \<and> n \<le> 13)"

definition js_trim :: "string \<Rightarrow> string" where
  "js_trim s = rev (dropWhile js_space (rev (dropWhile js_space s)))"

text \<open>The loop over the lines of one event: type and data, the last of each.\<close>

fun read_lines :: "string list \<Rightarrow> string \<times> string \<Rightarrow> string \<times> string" where
  "read_lines [] td = td"
| "read_lines (l # ls) (t, d) =
     (if HasPrefix l ''event: '' then read_lines ls (js_trim (drop 7 l), d)
      else if HasPrefix l ''data: '' then read_lines ls (t, drop 6 l)
      else read_lines ls (t, d))"

definition read_event :: "string \<Rightarrow> (string \<times> string) list" where
  "read_event raw = (let (t, d) = read_lines (Split raw newline) ([], [])
     in if t \<noteq> [] \<and> d \<noteq> [] then [(t, d)] else [])"

lemma Index_Some: "Index s p = Some i \<Longrightarrow> \<exists>a b. s = a @ p @ b \<and> length a = i"
proof (induction s arbitrary: i)
  case (Cons c s)
  then show ?case
    by (fastforce simp: HasPrefix_iff split: if_splits intro: exI [of _ "[]"] exI [of _ "c # _"])
qed (auto split: if_splits)

text \<open>The inner loop \<open>while (true)\<close>: the complete events of the buffer, and what is left of it.\<close>

function drain_buffer :: "string \<Rightarrow> (string \<times> string) list \<times> string" where
  "drain_buffer buffer =
     (case Index buffer [newline, newline] of
        None \<Rightarrow> ([], buffer)
      | Some i \<Rightarrow> let (evs, rest) = drain_buffer (drop (i + 2) buffer)
          in (read_event (take i buffer) @ evs, rest))"
  by auto

termination
proof (relation "measure length")
  fix buffer i
  assume "Index buffer [newline, newline] = Some i"
  then show "(drop (i + 2) buffer, buffer) \<in> measure length"
    by (auto dest!: Index_Some)
qed simp

declare drain_buffer.simps [simp del]

text \<open>The outer loop: one round per chunk that the reader delivers.\<close>

fun read_chunks :: "string list \<Rightarrow> string \<Rightarrow> (string \<times> string) list \<times> string" where
  "read_chunks [] buffer = ([], buffer)"
| "read_chunks (c # cs) buffer =
     (let (evs, rest) = drain_buffer (buffer @ c); (evs', rest') = read_chunks cs rest
      in (evs @ evs', rest'))"

section \<open>What is written is what is read\<close>

lemma HasPrefix_append_mono: "HasPrefix s p \<Longrightarrow> HasPrefix (s @ t) p"
  by (auto simp: HasPrefix_iff)

lemma HasPrefix_shorter: "HasPrefix (s @ t) p \<Longrightarrow> length p \<le> length s \<Longrightarrow> HasPrefix s p"
  by (auto simp: HasPrefix_iff append_eq_append_conv2)

lemma Index_append: "Index s p = Some i \<Longrightarrow> Index (s @ t) p = Some i"
proof (induction s arbitrary: i)
  case Nil
  then show ?case by (cases t) (auto split: if_splits)
next
  case (Cons c s)
  show ?case
  proof (cases "HasPrefix (c # s) p")
    case True
    with Cons.prems HasPrefix_append_mono [OF True, of t] show ?thesis by simp
  next
    case False
    with Cons.prems obtain k where k: "Index s p = Some k" "i = Suc k" by auto
    then have "length p \<le> length s" by (auto dest!: Index_Some)
    with False have "\<not> HasPrefix (c # s @ t) p"
      using HasPrefix_shorter [of "c # s" t p] by auto
    with k Cons.IH [OF k(1)] show ?thesis by simp
  qed
qed

lemma drain_buffer_append:
  "drain_buffer (a @ b) = (let (evs, rest) = drain_buffer a; (evs', rest') = drain_buffer (rest @ b)
     in (evs @ evs', rest'))"
proof (induction a rule: drain_buffer.induct)
  case (1 a)
  show ?case
  proof (cases "Index a [newline, newline]")
    case None
    then have "drain_buffer a = ([], a)" by (subst drain_buffer.simps) simp
    then show ?thesis by (simp split: prod.splits)
  next
    case (Some i)
    then have len: "i + 2 \<le> length a" by (auto dest!: Index_Some)
    have ab: "Index (a @ b) [newline, newline] = Some i" using Some by (rule Index_append)
    show ?thesis
      using 1 [OF Some] len Some ab
      by (subst drain_buffer.simps, subst (2) drain_buffer.simps)
        (simp split: prod.splits)
  qed
qed

text \<open>The chunks do not matter.\<close>

lemma read_chunks_concat:
  assumes "drain_buffer buffer = ([], buffer)"
  shows "read_chunks cs buffer = drain_buffer (buffer @ concat cs)"
  using assms
proof (induction cs arbitrary: buffer)
  case Nil
  then show ?case by simp
next
  case (Cons c cs)
  obtain evs rest where er: "drain_buffer (buffer @ c) = (evs, rest)" by fastforce
  have idem: "drain_buffer (snd (drain_buffer s)) = ([], snd (drain_buffer s))" for s
  proof (induction s rule: drain_buffer.induct)
    case (1 s)
    show ?case
    proof (cases "Index s [newline, newline]")
      case None
      then have "drain_buffer s = ([], s)" by (subst drain_buffer.simps) simp
      then show ?thesis by simp
    next
      case (Some i)
      then have "snd (drain_buffer s) = snd (drain_buffer (drop (i + 2) s))"
        by (subst drain_buffer.simps) (simp split: prod.splits)
      with 1 [OF Some] show ?thesis by simp
    qed
  qed
  have "drain_buffer rest = ([], rest)"
    using idem [of "buffer @ c"] er by simp
  from Cons.IH [OF this] er show ?case
    using drain_buffer_append [of "buffer @ c" "concat cs"] by simp
qed

lemma Index_first:
  assumes "newline \<notin> set xs" "newline \<notin> set ys" "ys \<noteq> []"
  shows "Index (xs @ newline # ys @ newline # newline # rest) [newline, newline] =
    Some (length xs + length ys + 1)"
proof -
  have skip: "newline \<notin> set zs \<Longrightarrow> Index (zs @ s) [newline, newline] =
      map_option ((+) (length zs)) (Index s [newline, newline])" for zs s
    by (induction zs; cases "Index s [newline, newline]") (auto simp: HasPrefix_iff)
  have "Index (newline # newline # rest) [newline, newline] = Some 0"
    by (simp add: HasPrefix_iff)
  then have "Index (ys @ newline # newline # rest) [newline, newline] = Some (length ys)"
    using skip [OF assms(2)] by simp
  moreover have "\<not> HasPrefix (newline # ys @ newline # newline # rest) [newline, newline]"
    using assms(2,3) by (cases ys) (auto simp: HasPrefix_iff)
  ultimately have "Index (newline # ys @ newline # newline # rest) [newline, newline] = Some (Suc (length ys))"
    by simp
  with skip [OF assms(1)] show ?thesis by simp
qed

lemma js_trim_id: "list_all (\<lambda>c. \<not> js_space c) s \<Longrightarrow> js_trim s = s"
proof -
  have "dropWhile js_space s = s" if "list_all (\<lambda>c. \<not> js_space c) s" for s
    using that by (cases s) auto
  then show "list_all (\<lambda>c. \<not> js_space c) s \<Longrightarrow> js_trim s = s"
    by (simp add: js_trim_def)
qed

definition event_ok :: "(sse_event_data \<Rightarrow> string) \<Rightarrow> string \<times> sse_event_data \<Rightarrow> bool" where
  "event_ok marshal td \<longleftrightarrow> fst td \<noteq> [] \<and> list_all (\<lambda>c. \<not> js_space c) (fst td) \<and>
     marshal (snd td) \<noteq> [] \<and> newline \<notin> set (marshal (snd td))"

lemma js_space_newline: "js_space newline"
  by (simp add: js_space_def)

lemma take_lines:
  "take (length xs + length ys + 1) (xs @ c # ys @ zs) = xs @ c # ys"
  "drop (length xs + length ys + 1 + 2) (xs @ c # ys @ a # b # zs) = zs"
  by (simp_all add: numeral_eq_Suc)

lemma read_written_event:
  assumes "event_ok marshal (t, d)"
  shows "drain_buffer (WriteEvent marshal t d @ rest) =
    (let (evs, r) = drain_buffer rest in ((t, marshal d) # evs, r))"
proof -
  have nl: "newline \<notin> set t" "newline \<notin> set (marshal d)"
    using assms js_space_newline by (auto simp: event_ok_def list_all_iff)
  let ?xs = "''event: '' @ t" and ?ys = "''data: '' @ marshal d"
  have pre: "newline \<notin> set ''event: ''" "newline \<notin> set ''data: ''"
    by (simp_all add: char_of_eq_iff)
  have nx: "newline \<notin> set ?xs" and ny: "newline \<notin> set ?ys"
    using nl pre by (simp_all only: set_append Un_iff) simp_all
  have split: "WriteEvent marshal t d @ rest = ?xs @ newline # ?ys @ newline # newline # rest"
    by (simp add: WriteEvent_def)
  have idx: "Index (WriteEvent marshal t d @ rest) [newline, newline] = Some (length ?xs + length ?ys + 1)"
    unfolding split by (rule Index_first [OF nx ny]) simp
  have raw: "take (length ?xs + length ?ys + 1) (WriteEvent marshal t d @ rest) = ?xs @ newline # ?ys"
    unfolding split by (rule take_lines)
  have tl: "drop (length ?xs + length ?ys + 1 + 2) (WriteEvent marshal t d @ rest) = rest"
    unfolding split by (rule take_lines)
  have "Split (?xs @ newline # ?ys) newline = [?xs, ?ys]"
    unfolding Split_append_sep Split_id [OF nx] Split_id [OF ny] by simp
  then have "read_event (?xs @ newline # ?ys) = [(t, marshal d)]"
    using assms by (simp add: read_event_def event_ok_def js_trim_id)
  with raw tl idx show ?thesis
    by (subst drain_buffer.simps) (simp split: prod.splits)
qed

lemma read_written_stream:
  assumes "list_all (event_ok marshal) evs"
  shows "drain_buffer (stream_bytes marshal evs) = (map (\<lambda>(t, d). (t, marshal d)) evs, [])"
  using assms
proof (induction evs)
  case Nil
  then show ?case by (simp add: stream_bytes_def drain_buffer.simps)
next
  case (Cons e evs)
  then show ?case
    by (cases e) (simp add: stream_bytes_def read_written_event)
qed

lemma stream_roundtrip:
  assumes "list_all (event_ok marshal) evs" "concat chunks = stream_bytes marshal evs"
  shows "read_chunks chunks [] = (map (\<lambda>(t, d). (t, marshal d)) evs, [])"
proof -
  have "drain_buffer [] = ([], [])" by (simp add: drain_buffer.simps)
  from read_chunks_concat [OF this, of chunks] assms show ?thesis
    by (simp add: read_written_stream)
qed

lemma event_data_ok:
  assumes "\<And>d. marshal d \<noteq> [] \<and> newline \<notin> set (marshal d)"
  shows "event_ok marshal (event_data it e)"
  using assms by (cases e) (simp_all add: event_ok_def js_space_def)

end
