(* ===== verification/Base64.thy ===== *)
theory Base64
  imports Go_Strings
begin

text \<open>
  \<open>base64.StdEncoding\<close> of Go's standard library on strings of bytes: \<open>EncodeToString\<close> with
  padding, and \<open>DecodeString\<close> with its error cases (a character outside the alphabet, misplaced
  or missing padding, text after the padding; carriage returns and line feeds are skipped, and
  the unused bits of the last character are not checked). Decoding what was encoded gives the
  bytes back.
\<close>

definition alphabet64 :: string where
  "alphabet64 = ''ABCDEFGHIJKLMNOPQRSTUVWXYZabcdefghijklmnopqrstuvwxyz0123456789+/''"

definition digit64 :: "nat \<Rightarrow> char" where
  "digit64 n = alphabet64 ! n"

definition value64 :: "char \<Rightarrow> nat option" where
  "value64 c = List.find (\<lambda>i. alphabet64 ! i = c) [0..<64]"

fun EncodeToString :: "string \<Rightarrow> string" where
  "EncodeToString [] = []"
| "EncodeToString [a] =
     [digit64 (of_char a div 4), digit64 (of_char a mod 4 * 16), CHR ''='', CHR ''='']"
| "EncodeToString [a, b] =
     [digit64 (of_char a div 4), digit64 (of_char a mod 4 * 16 + of_char b div 16),
      digit64 (of_char b mod 16 * 4), CHR ''='']"
| "EncodeToString (a # b # c # rest) =
     digit64 (of_char a div 4) # digit64 (of_char a mod 4 * 16 + of_char b div 16)
     # digit64 (of_char b mod 16 * 4 + of_char c div 64) # digit64 (of_char c mod 64)
     # EncodeToString rest"

fun decode_quanta :: "string \<Rightarrow> string option" where
  "decode_quanta [] = Some []"
| "decode_quanta (c0 # c1 # c2 # c3 # rest) =
     (case (value64 c0, value64 c1) of
        (Some v0, Some v1) \<Rightarrow>
          if c2 = CHR ''='' then
            (if c3 = CHR ''='' \<and> rest = [] then Some [char_of (v0 * 4 + v1 div 16)] else None)
          else (case value64 c2 of
              None \<Rightarrow> None
            | Some v2 \<Rightarrow>
                if c3 = CHR ''='' then
                  (if rest = [] then Some [char_of (v0 * 4 + v1 div 16), char_of (v1 mod 16 * 16 + v2 div 4)]
                   else None)
                else (case value64 c3 of
                    None \<Rightarrow> None
                  | Some v3 \<Rightarrow>
                      (case decode_quanta rest of
                         None \<Rightarrow> None
                       | Some bs \<Rightarrow> Some (char_of (v0 * 4 + v1 div 16) # char_of (v1 mod 16 * 16 + v2 div 4)
                           # char_of (v2 mod 4 * 64 + v3) # bs))))
      | _ \<Rightarrow> None)"
| "decode_quanta _ = None"

definition DecodeString :: "string \<Rightarrow> string option" where
  "DecodeString s = decode_quanta (filter (\<lambda>c. c \<noteq> CHR 0x0A \<and> c \<noteq> CHR 0x0D) s)"

section \<open>Round trip\<close>

lemma alphabet64_facts:
  "length alphabet64 = 64" "distinct alphabet64"
  "CHR ''='' \<notin> set alphabet64" "CHR 0x0A \<notin> set alphabet64" "CHR 0x0D \<notin> set alphabet64"
  by (simp_all add: alphabet64_def)

lemma value64_digit64 [simp]: "n < 64 \<Longrightarrow> value64 (digit64 n) = Some n"
  unfolding value64_def digit64_def find_Some_iff
  using alphabet64_facts(1,2) by (intro exI [of _ n]) (auto simp: nth_eq_iff_index_eq)

lemma digit64_in: "n < 64 \<Longrightarrow> digit64 n \<in> set alphabet64"
  by (simp add: digit64_def alphabet64_facts nth_mem)

lemma digit64_not [simp]:
  "n < 64 \<Longrightarrow> digit64 n \<noteq> CHR ''=''" "n < 64 \<Longrightarrow> digit64 n \<noteq> CHR 0x0A" "n < 64 \<Longrightarrow> digit64 n \<noteq> CHR 0x0D"
  using digit64_in alphabet64_facts(3-5) by metis+

lemma char_bound [simp]: "(of_char c :: nat) < 256"
  by (metis UNIV_I atLeastLessThan_iff imageI range_nat_of_char)

lemma sextets [simp]:
  "(of_char a :: nat) div 4 < 64" "(of_char a :: nat) mod 4 * 16 + of_char b div 16 < 64"
  "(of_char b :: nat) mod 16 * 4 + of_char c div 64 < 64" "(of_char c :: nat) mod 64 < 64"
  "(of_char a :: nat) mod 4 * 16 < 64" "(of_char b :: nat) mod 16 * 4 < 64"
  using char_bound [of a] char_bound [of b] char_bound [of c] by linarith+

lemma high_bits [simp]:
  "(of_char b :: nat) div 16 div 16 = 0" "(of_char b :: nat) div 16 mod 16 = of_char b div 16"
  "(of_char c :: nat) div 64 div 4 = 0" "(of_char c :: nat) div 64 mod 4 = of_char c div 64"
proof -
  have "(of_char b :: nat) div 16 < 16" "(of_char c :: nat) div 64 < 4"
    using char_bound [of b] char_bound [of c] by linarith+
  then show "(of_char b :: nat) div 16 div 16 = 0" "(of_char b :: nat) div 16 mod 16 = of_char b div 16"
    "(of_char c :: nat) div 64 div 4 = 0" "(of_char c :: nat) div 64 mod 4 = of_char c div 64"
    by simp_all
qed

lemma decode_quanta_encode: "decode_quanta (EncodeToString s) = Some s"
  by (induction s rule: EncodeToString.induct) simp_all

lemma encode_clean: "filter (\<lambda>c. c \<noteq> CHR 0x0A \<and> c \<noteq> CHR 0x0D) (EncodeToString s) = EncodeToString s"
  by (induction s rule: EncodeToString.induct) simp_all

lemma DecodeString_EncodeToString [simp]: "DecodeString (EncodeToString s) = Some s"
  by (simp add: DecodeString_def encode_clean decode_quanta_encode)

lemma EncodeToString_Nil [simp]: "EncodeToString s = [] \<longleftrightarrow> s = []"
  by (cases s rule: EncodeToString.cases) simp_all

text \<open>The text of an encoding is ASCII, whatever the bytes.\<close>

lemma EncodeToString_chars: "set (EncodeToString s) \<subseteq> set alphabet64 \<union> {CHR ''=''}"
  by (induction s rule: EncodeToString.induct) (simp_all add: digit64_in)

lemma length_EncodeToString: "length (EncodeToString s) = 4 * ((length s + 2) div 3)"
proof (induction s rule: EncodeToString.induct)
  case (4 a b c rest)
  have "(length (a # b # c # rest) + 2) div 3 = (3 + (length rest + 2)) div 3"
    by (rule arg_cong [where f = "\<lambda>n. n div 3"]) simp
  also have "\<dots> = Suc ((length rest + 2) div 3)"
    by simp
  finally show ?case
    using 4 by (simp only: EncodeToString.simps list.size mult_Suc_right)
qed simp_all

end
