(* ===== verification/Handlers.thy ===== *)
theory Handlers
  imports Dto
begin

text \<open>
  The HTTP handlers of \<open>internal/presentation\<close> over the repositories that \<open>main.go\<close> wires:
  middleware, login, profile, teams, administration and configuration. A handler is a state
  transformer that yields a response. Random identifiers (\<open>uuid.New().String()\<close>) are arguments.
\<close>

type_synonym handler = "(db, response) state"

abbreviation reply :: "response \<Rightarrow> handler" where
  "reply r \<equiv> State_Monad.return r"

section \<open>Middleware\<close>

text \<open>\<open>RequireAuth\<close>: \<open>next\<close> gets the context that \<open>context.WithValue\<close> puts into the request.\<close>

definition RequireAuth :: "env \<Rightarrow> string \<Rightarrow> (auth_context option \<Rightarrow> handler) \<Rightarrow> handler" where
  "RequireAuth E authHeader nxt =
     (if authHeader = [] then reply (writeError 401 ''missing authorization header'')
      else
        let tokenStr = TrimPrefix authHeader ''Bearer '' in
        if tokenStr = authHeader then reply (writeError 401 ''invalid authorization format'')
        else do {
          r \<leftarrow> AuthService_Validate E tokenStr;
          case r of
            Inl err \<Rightarrow> reply (writeError 401 ''invalid token'')
          | Inr authCtx \<Rightarrow> nxt (Some authCtx)
        })"

fun has_some_role :: "(role, bool) go_map \<Rightarrow> role list \<Rightarrow> bool" where
  "has_some_role m [] = False"
| "has_some_role m (r # rs) = (if map_flag m r then True else has_some_role m rs)"

definition RequireRole ::
    "role list \<Rightarrow> (auth_context option \<Rightarrow> handler) \<Rightarrow> auth_context option \<Rightarrow> handler" where
  "RequireRole roles nxt actx =
     (case actx of
        None \<Rightarrow> reply (writeError 401 ''not authenticated'')
      | Some authCtx \<Rightarrow>
          if \<not> has_some_role (ctx_roles authCtx) roles
          then reply (writeError 403 ''insufficient permissions'')
          else nxt actx)"

definition RequireTeamLeaderOrAdmin ::
    "string \<Rightarrow> (auth_context option \<Rightarrow> handler) \<Rightarrow> auth_context option \<Rightarrow> handler" where
  "RequireTeamLeaderOrAdmin teamID nxt actx =
     (case actx of
        None \<Rightarrow> reply (writeError 401 ''not authenticated'')
      | Some authCtx \<Rightarrow>
          if map_flag (ctx_roles authCtx) RoleAdmin then nxt actx
          else if teamID = [] then reply (writeError 400 ''team ID required'')
          else do {
            r \<leftarrow> TeamRepo_FindByID teamID;
            case r of
              Inl err \<Rightarrow> reply (writeError 404 ''team not found'')
            | Inr team \<Rightarrow>
                if ctx_user_id authCtx \<in> set (team_leader_ids team) then nxt actx
                else reply (writeError 403 ''you are not a leader of this team'')
          })"

section \<open>AuthHandler, ProfileHandler, ConfigHandler\<close>

definition AuthHandler_Login :: "env \<Rightarrow> login_request option \<Rightarrow> handler" where
  "AuthHandler_Login E body =
     (case body of
        None \<Rightarrow> reply (writeError 400 ''invalid request body'')
      | Some req \<Rightarrow>
          if lr_username req = [] \<or> lr_password req = []
          then reply (writeError 400 ''username and password required'')
          else do {
            r \<leftarrow> AuthService_Login E (lr_username req) (lr_password req);
            case r of
              Inl err \<Rightarrow> reply (writeError 401 ''invalid credentials'')
            | Inr token \<Rightarrow> do {
                ru \<leftarrow> UserRepo_FindByAccountID (token_account_id token);
                reply (case ru of
                  Inl err \<Rightarrow> writeError 500 ''failed to load user''
                | Inr user \<Rightarrow> writeJSON 200 (LoginBody \<lparr>login_token = token_text token,
                    login_roles = map fst (range_order (iter E) (token_roles token)),
                    login_user = UserToDTO (iter E) user\<rparr>))
              }
          })"

definition ProfileHandler_GetProfile :: "env \<Rightarrow> auth_context option \<Rightarrow> handler" where
  "ProfileHandler_GetProfile E actx =
     (case actx of
        None \<Rightarrow> reply (writeError 401 ''not authenticated'')
      | Some authCtx \<Rightarrow> do {
          r \<leftarrow> UserRepo_FindByID (ctx_user_id authCtx);
          reply (case r of
            Inl err \<Rightarrow> writeError 404 ''user not found''
          | Inr user \<Rightarrow> writeJSON 200 (UserBody (UserToDTO (iter E) user)))
        })"

definition ProfileHandler_SetPlatformUsername ::
    "platform_username_request option \<Rightarrow> auth_context option \<Rightarrow> handler" where
  "ProfileHandler_SetPlatformUsername body actx =
     (case actx of
        None \<Rightarrow> reply (writeError 401 ''not authenticated'')
      | Some authCtx \<Rightarrow>
         (case body of
            None \<Rightarrow> reply (writeError 400 ''invalid request body'')
          | Some req \<Rightarrow>
              if pu_platform req = [] \<or> pu_username req = []
              then reply (writeError 400 ''platform and username required'')
              else do {
                r \<leftarrow> UserRepo_UpdatePlatformUsername (ctx_user_id authCtx)
                       \<lparr>platform_name = pu_platform req\<rparr> (pu_username req);
                reply (case r of
                  Inl err \<Rightarrow> writeError 500 ''failed to update platform username''
                | Inr _ \<Rightarrow> write_status ''updated'')
              }))"

definition ConfigHandler_GetAll :: "env \<Rightarrow> handler" where
  "ConfigHandler_GetAll E = do {
     r \<leftarrow> ConfigRepo_FindAll E;
     reply (case r of
       Inl err \<Rightarrow> writeError 500 ''failed to load config''
     | Inr config \<Rightarrow> writeJSON 200 (ConfigBody config))
   }"

definition ConfigHandler_Set :: "config_set_request option \<Rightarrow> handler" where
  "ConfigHandler_Set body =
     (case body of
        None \<Rightarrow> reply (writeError 400 ''invalid request body'')
      | Some req \<Rightarrow>
          if cs_key req = [] then reply (writeError 400 ''key is required'')
          else do {
            r \<leftarrow> ConfigRepo_Set (cs_key req) (cs_setting req);
            reply (case r of
              Inl err \<Rightarrow> writeError 500 ''failed to update config''
            | Inr _ \<Rightarrow> write_status ''updated'')
          })"

section \<open>TeamHandler\<close>

definition member_to_dto :: "user \<Rightarrow> member_dto" where
  "member_to_dto u = \<lparr>md_id = user_id u, md_username = user_username u,
     md_display_name = user_display_name u\<rparr>"

definition repo_to_dto :: "repository \<Rightarrow> repo_dto" where
  "repo_to_dto r = \<lparr>rd_id = repo_id r, rd_full_name = repo_full_name r,
     rd_platform = platform_name (repo_platform r)\<rparr>"

text \<open>The loops that fill the repositories and the people of a team: an error gives an empty list.\<close>

definition repo_dtos :: "string list \<Rightarrow> (db, repo_dto list) state" where
  "repo_dtos ids =
     (if ids = [] then State_Monad.return []
      else do {
        r \<leftarrow> RepoStore_FindByIDs ids;
        State_Monad.return (case r of Inl err \<Rightarrow> [] | Inr repos \<Rightarrow> map repo_to_dto repos)
      })"

definition member_dtos :: "string list \<Rightarrow> (db, member_dto list) state" where
  "member_dtos ids =
     (if ids = [] then State_Monad.return []
      else do {
        r \<leftarrow> UserRepo_FindByIDs ids;
        State_Monad.return (case r of Inl err \<Rightarrow> [] | Inr us \<Rightarrow> map member_to_dto us)
      })"

definition team_to_dto :: "team \<Rightarrow> (db, team_dto) state" where
  "team_to_dto t = do {
     repos \<leftarrow> repo_dtos (team_repository_ids t);
     leaders \<leftarrow> member_dtos (team_leader_ids t);
     members \<leftarrow> member_dtos (team_member_ids t);
     State_Monad.return \<lparr>td_id = team_id t, td_name = team_name t,
       td_leader_ids = team_leader_ids t, td_leaders = leaders,
       td_member_ids = team_member_ids t, td_members = members,
       td_repository_ids = team_repository_ids t, td_repositories = repos\<rparr>
   }"

definition TeamHandler_ListTeams :: "env \<Rightarrow> auth_context option \<Rightarrow> handler" where
  "TeamHandler_ListTeams E actx =
     (case actx of
        None \<Rightarrow> reply (writeError 401 ''not authenticated'')
      | Some authCtx \<Rightarrow> do {
          r \<leftarrow> (if IsAdmin authCtx then TeamRepo_FindAll E
                else TeamRepo_FindByMemberID (ctx_user_id authCtx));
          case r of
            Inl err \<Rightarrow> reply (writeError 500 ''failed to load teams'')
          | Inr teams \<Rightarrow> do {
              dtos \<leftarrow> map_state team_to_dto teams;
              reply (writeJSON 200 (TeamsBody dtos))
            }
        })"

text \<open>\<open>for _, er := range existing { if er.Platform == platform \<and> er.APIToken != "" ... break }\<close>\<close>

fun existing_token :: "git_platform \<Rightarrow> repository list \<Rightarrow> string" where
  "existing_token platform [] = []"
| "existing_token platform (er # ers) =
     (if repo_platform er = platform \<and> repo_api_token er \<noteq> [] then repo_api_token er
      else existing_token platform ers)"

definition reuse_token :: "string \<Rightarrow> git_platform \<Rightarrow> (db, string) state" where
  "reuse_token teamID platform = do {
     r \<leftarrow> TeamRepo_FindByID teamID;
     case r of
       Inl err \<Rightarrow> State_Monad.return []
     | Inr team \<Rightarrow>
         if team_repository_ids team = [] then State_Monad.return []
         else do {
           re \<leftarrow> RepoStore_FindByIDs (team_repository_ids team);
           State_Monad.return (case re of Inl err \<Rightarrow> [] | Inr existing \<Rightarrow> existing_token platform existing)
         }
   }"

definition repo_short_name :: "string \<Rightarrow> string" where
  "repo_short_name fullName =
     (let nameParts = Split fullName (CHR ''/'')
      in if length nameParts > 1 then nameParts ! (length nameParts - 1) else fullName)"

definition TeamHandler_AddRepository ::
    "env \<Rightarrow> string \<Rightarrow> string \<Rightarrow> add_repo_request option \<Rightarrow> handler" where
  "TeamHandler_AddRepository E uuid teamID body =
     (if teamID = [] then reply (writeError 400 ''team ID required'')
      else case body of
        None \<Rightarrow> reply (writeError 400 ''invalid request body'')
      | Some req \<Rightarrow>
          if ar_full_name req = [] \<or> ar_platform req = []
          then reply (writeError 400 ''fullName and platform are required'')
          else do {
            let platform = \<lparr>platform_name = ToUpper (unicode_upper E) (ar_platform req)\<rparr>;
            apiToken \<leftarrow> (if ar_api_token req = [] then reuse_token teamID platform
                         else State_Monad.return (ar_api_token req));
            if apiToken = []
            then reply (writeError 400 ''apiToken is required (no existing token found for this platform)'')
            else do {
              let repo = \<lparr>repo_id = ''r-'' @ take 8 uuid, repo_name = repo_short_name (ar_full_name req),
                repo_full_name = ar_full_name req, repo_url = [], repo_platform = platform,
                repo_api_token = apiToken\<rparr>;
              rs \<leftarrow> RepoStore_Upsert repo;
              case rs of
                Inl err \<Rightarrow> reply (writeError 500 ''failed to save repository'')
              | Inr saved \<Rightarrow> do {
                  ra \<leftarrow> TeamRepo_AddRepository teamID (repo_id saved);
                  reply (case ra of
                    Inl err \<Rightarrow> writeError 500 ''failed to add repository to team''
                  | Inr _ \<Rightarrow> writeJSON 200
                      (FieldsBody [(''status'', ''added''), (''repoId'', repo_id saved)]))
                }
            }
          })"

definition TeamHandler_RemoveRepository :: "string \<Rightarrow> string \<Rightarrow> handler" where
  "TeamHandler_RemoveRepository teamID repoID =
     (if teamID = [] \<or> repoID = [] then reply (writeError 400 ''team ID and repo ID required'')
      else do {
        r \<leftarrow> TeamRepo_RemoveRepository teamID repoID;
        reply (case r of
          Inl err \<Rightarrow> writeError 500 ''failed to remove repository''
        | Inr _ \<Rightarrow> write_status ''removed'')
      })"

end
