(* ===== verification/Admin.thy ===== *)
theory Admin
  imports Handlers
begin

text \<open>
  The administration handlers (\<open>presentation/admin_handler.go\<close>): users, teams, members and
  leaders, and the two helpers that derive the role \<open>TEAM_LEADER\<close> from the leadership of teams.
\<close>

section \<open>The derived role\<close>

text \<open>\<open>ensureLeaderRole\<close>: the first account of the user gets the role; the result of the save is
  not looked at.\<close>

definition ensureLeaderRole :: "env \<Rightarrow> string \<Rightarrow> (db, unit) state" where
  "ensureLeaderRole E uid = do {
     r \<leftarrow> AccountRepo_FindAll E;
     case r of
       Inl err \<Rightarrow> State_Monad.return ()
     | Inr accounts \<Rightarrow>
         (case List.find (\<lambda>a. account_user_id a = uid) accounts of
            None \<Rightarrow> State_Monad.return ()
          | Some a \<Rightarrow>
              if \<not> map_flag (account_roles a) RoleTeamLeader then do {
                _ \<leftarrow> AccountRepo_Save E (a\<lparr>account_roles := map_put RoleTeamLeader True (account_roles a)\<rparr>);
                State_Monad.return ()
              }
              else State_Monad.return ())
   }"

text \<open>\<open>removeLeaderRoleIfOrphaned\<close>: nothing happens while some team still has the user among its
  leaders.\<close>

definition removeLeaderRoleIfOrphaned :: "env \<Rightarrow> string \<Rightarrow> (db, unit) state" where
  "removeLeaderRoleIfOrphaned E uid = do {
     rt \<leftarrow> TeamRepo_FindAll E;
     case rt of
       Inl err \<Rightarrow> State_Monad.return ()
     | Inr teams \<Rightarrow>
         if \<exists>t\<in>set teams. uid \<in> set (team_leader_ids t) then State_Monad.return ()
         else do {
           r \<leftarrow> AccountRepo_FindAll E;
           case r of
             Inl err \<Rightarrow> State_Monad.return ()
           | Inr accounts \<Rightarrow>
               (case List.find (\<lambda>a. account_user_id a = uid \<and>
                   map_flag (account_roles a) RoleTeamLeader) accounts of
                  None \<Rightarrow> State_Monad.return ()
                | Some a \<Rightarrow> do {
                    _ \<leftarrow> AccountRepo_Save E (a\<lparr>account_roles := map_delete RoleTeamLeader (account_roles a)\<rparr>);
                    State_Monad.return ()
                  })
         }
   }"

section \<open>Users\<close>

text \<open>\<open>accountByUserID\<close>: a later account of the same user replaces an earlier one.\<close>

fun account_index :: "user_account list \<Rightarrow> (string, user_account) go_map \<Rightarrow> (string, user_account) go_map" where
  "account_index [] m = m"
| "account_index (a # as) m = account_index as (map_put (account_user_id a) a m)"

definition admin_user_of ::
    "env \<Rightarrow> (string, user_account) go_map \<Rightarrow> team list \<Rightarrow> user \<Rightarrow> admin_user_dto" where
  "admin_user_of E index teams u = \<lparr>au_id = user_id u, au_username = user_username u,
     au_display_name = user_display_name u, au_email = user_email u,
     au_roles = (case map_of index (user_id u) of None \<Rightarrow> [] | Some acct \<Rightarrow> RoleList (iter E) acct),
     au_teams = map (\<lambda>t. \<lparr>ts_id = team_id t, ts_name = team_name t, ts_leader_ids = team_leader_ids t\<rparr>)
       (filter (\<lambda>t. user_id u \<in> set (team_member_ids t)) teams)\<rparr>"

definition AdminHandler_ListUsers :: "env \<Rightarrow> handler" where
  "AdminHandler_ListUsers E = do {
     ru \<leftarrow> UserRepo_FindAll E;
     case ru of
       Inl err \<Rightarrow> reply (writeError 500 ''failed to load users'')
     | Inr users \<Rightarrow> do {
         ra \<leftarrow> AccountRepo_FindAll E;
         case ra of
           Inl err \<Rightarrow> reply (writeError 500 ''failed to load accounts'')
         | Inr accounts \<Rightarrow> do {
             rt \<leftarrow> TeamRepo_FindAll E;
             reply (case rt of
               Inl err \<Rightarrow> writeError 500 ''failed to load teams''
             | Inr teams \<Rightarrow> writeJSON 200 (AdminUsersBody
                 (map (admin_user_of E (account_index accounts []) teams) users)))
           }
       }
   }"

fun role_set :: "string list \<Rightarrow> (role, bool) go_map \<Rightarrow> (role, bool) go_map" where
  "role_set [] m = m"
| "role_set (r # rs) m = role_set rs (map_put r True m)"

definition AdminHandler_CreateUser ::
    "env \<Rightarrow> string \<Rightarrow> string \<Rightarrow> create_user_request option \<Rightarrow> handler" where
  "AdminHandler_CreateUser E uuid1 uuid2 body =
     (case body of
        None \<Rightarrow> reply (writeError 400 ''invalid request body'')
      | Some req \<Rightarrow>
          if cu_username req = [] \<or> cu_password req = [] \<or> cu_display_name req = []
          then reply (writeError 400 ''username, displayName, and password are required'')
          else
            let req_roles = (if cu_roles req = [] then [RoleTeamMember] else cu_roles req) in
            (case bcrypt_hash E (cu_password req) of
               None \<Rightarrow> reply (writeError 500 ''failed to hash password'')
             | Some hash \<Rightarrow> do {
                 let userID = ''u-'' @ take 8 uuid1;
                 let accountID = ''a-'' @ take 8 uuid2;
                 ru \<leftarrow> UserRepo_Save \<lparr>user_id = userID, user_username = cu_username req,
                   user_display_name = cu_display_name req, user_email = cu_email req,
                   user_avatar_url = [], user_platform_usernames = []\<rparr>;
                 case ru of
                   Inl err \<Rightarrow> reply (writeError 500 ''failed to create user'')
                 | Inr _ \<Rightarrow> do {
                     ra \<leftarrow> AccountRepo_Save E \<lparr>account_id = accountID, account_username = cu_username req,
                       account_password_hash = hash, account_roles = role_set req_roles [],
                       account_user_id = userID\<rparr>;
                     case ra of
                       Inl err \<Rightarrow> do {
                         _ \<leftarrow> UserRepo_Delete userID;
                         reply (writeError 500 ''failed to create account'')
                       }
                     | Inr _ \<Rightarrow> reply (writeJSON 201 (AdminUserBody \<lparr>au_id = userID,
                         au_username = cu_username req, au_display_name = cu_display_name req,
                         au_email = cu_email req, au_roles = req_roles, au_teams = []\<rparr>))
                   }
               }))"

text \<open>The first team, among those the user is a member of, that has the user as its only leader.\<close>

definition only_leader_of :: "string \<Rightarrow> team list \<Rightarrow> team option" where
  "only_leader_of uid teams =
     List.find (\<lambda>t. uid \<in> set (team_leader_ids t) \<and> length (team_leader_ids t) = 1) teams"

definition AdminHandler_DeleteUser :: "string \<Rightarrow> handler" where
  "AdminHandler_DeleteUser userID = do {
     rt \<leftarrow> TeamRepo_FindByMemberID userID;
     case (case rt of Inl err \<Rightarrow> None | Inr teams \<Rightarrow> only_leader_of userID teams) of
       Some t \<Rightarrow> reply (writeError 400
         (''user is the only leader of team '' @ team_name t @ ''; reassign leadership first''))
     | None \<Rightarrow> do {
         ra \<leftarrow> AccountRepo_Delete userID;
         case ra of
           Inl err \<Rightarrow> reply (writeError 500 ''failed to delete account'')
         | Inr _ \<Rightarrow> do {
             ru \<leftarrow> UserRepo_Delete userID;
             reply (case ru of
               Inl err \<Rightarrow> writeError 500 ''failed to delete user''
             | Inr _ \<Rightarrow> write_status ''deleted'')
           }
       }
   }"

section \<open>Teams\<close>

definition AdminHandler_CreateTeam :: "env \<Rightarrow> string \<Rightarrow> create_team_request option \<Rightarrow> handler" where
  "AdminHandler_CreateTeam E uuid body =
     (case body of
        None \<Rightarrow> reply (writeError 400 ''invalid request body'')
      | Some req \<Rightarrow>
          if ct_name req = [] \<or> ct_leader_id req = []
          then reply (writeError 400 ''name and leaderId are required'')
          else do {
            rl \<leftarrow> UserRepo_FindByID (ct_leader_id req);
            case rl of
              Inl err \<Rightarrow> reply (writeError 400 ''leader user not found'')
            | Inr leader \<Rightarrow> do {
                let teamID = ''t-'' @ take 8 uuid;
                r \<leftarrow> TeamRepo_Save \<lparr>team_id = teamID, team_name = ct_name req,
                  team_leader_ids = [ct_leader_id req], team_member_ids = [ct_leader_id req],
                  team_repository_ids = []\<rparr>;
                case r of
                  Inl err \<Rightarrow> reply (writeError 500 ''failed to create team'')
                | Inr _ \<Rightarrow> do {
                    _ \<leftarrow> ensureLeaderRole E (ct_leader_id req);
                    reply (writeJSON 201 (TeamSummaryBody \<lparr>ts_id = teamID, ts_name = ct_name req,
                      ts_leader_ids = [ct_leader_id req]\<rparr>))
                  }
              }
          })"

definition AdminHandler_DeleteTeam :: "env \<Rightarrow> string \<Rightarrow> handler" where
  "AdminHandler_DeleteTeam E teamID = do {
     rt \<leftarrow> TeamRepo_FindByID teamID;
     case rt of
       Inl err \<Rightarrow> reply (writeError 404 ''team not found'')
     | Inr team \<Rightarrow> do {
         r \<leftarrow> TeamRepo_Delete teamID;
         case r of
           Inl err \<Rightarrow> reply (writeError 500 ''failed to delete team'')
         | Inr _ \<Rightarrow> do {
             _ \<leftarrow> do_each (removeLeaderRoleIfOrphaned E) (team_leader_ids team);
             reply (write_status ''deleted'')
           }
       }
   }"

definition AdminHandler_AddMember :: "string \<Rightarrow> string option \<Rightarrow> handler" where
  "AdminHandler_AddMember teamID body =
     (case body of
        None \<Rightarrow> reply (writeError 400 ''invalid request body'')
      | Some userID \<Rightarrow>
          if userID = [] then reply (writeError 400 ''userId is required'')
          else do {
            r \<leftarrow> TeamRepo_AddMember teamID userID;
            reply (case r of
              Inl err \<Rightarrow> writeError 500 ''failed to add member''
            | Inr _ \<Rightarrow> write_status ''added'')
          })"

text \<open>The kind of the error is read off its text.\<close>

definition AdminHandler_RemoveMember :: "env \<Rightarrow> string \<Rightarrow> string \<Rightarrow> handler" where
  "AdminHandler_RemoveMember E teamID userID = do {
     r \<leftarrow> TeamRepo_RemoveMember teamID userID;
     reply (case r of
       Inl err \<Rightarrow>
         if Contains (error_text (drv_text E) err) ''leader''
         then writeError 400 (error_text (drv_text E) err)
         else writeError 500 ''failed to remove member''
     | Inr _ \<Rightarrow> write_status ''removed'')
   }"

definition AdminHandler_AddLeader :: "env \<Rightarrow> string \<Rightarrow> string option \<Rightarrow> handler" where
  "AdminHandler_AddLeader E teamID body =
     (case body of
        None \<Rightarrow> reply (writeError 400 ''invalid request body'')
      | Some userID \<Rightarrow>
          if userID = [] then reply (writeError 400 ''userId is required'')
          else do {
            rt \<leftarrow> TeamRepo_FindByID teamID;
            case rt of
              Inl err \<Rightarrow> reply (writeError 404 ''team not found'')
            | Inr team \<Rightarrow>
                if userID \<notin> set (team_member_ids team)
                then reply (writeError 400 ''user must be a member of the team first'')
                else do {
                  r \<leftarrow> TeamRepo_AddLeader teamID userID;
                  case r of
                    Inl err \<Rightarrow> reply (writeError 500 ''failed to add leader'')
                  | Inr _ \<Rightarrow> do {
                      _ \<leftarrow> ensureLeaderRole E userID;
                      reply (write_status ''added'')
                    }
                }
          })"

definition AdminHandler_RemoveLeader :: "env \<Rightarrow> string \<Rightarrow> string \<Rightarrow> handler" where
  "AdminHandler_RemoveLeader E teamID userID = do {
     r \<leftarrow> TeamRepo_RemoveLeader teamID userID;
     case r of
       Inl err \<Rightarrow>
         if Contains (error_text (drv_text E) err) ''last leader''
         then reply (writeError 400 (error_text (drv_text E) err))
         else reply (writeError 500 ''failed to remove leader'')
     | Inr _ \<Rightarrow> do {
         _ \<leftarrow> removeLeaderRoleIfOrphaned E userID;
         reply (write_status ''removed'')
       }
   }"

end
