(* ===== verification/Organisation.thy ===== *)
theory Organisation
  imports Admin
begin

text \<open>
  What administration is about, without tables, accounts and statements: an organisation of
  users, teams, their members and leaders, and the roles of every user with an account. Each
  operation of the administrators has an abstract counterpart here; the refinement lemmas of
  \<open>Admin_Refinement\<close> show that a handler run on healthy tables changes the organisation its
  tables stand for as the abstract operation says.
\<close>

section \<open>Organisations\<close>

record org =
  org_users :: "string set"
  org_teams :: "string set"
  org_members :: "(string \<times> string) set"
  org_leaders :: "(string \<times> string) set"
  org_roles :: "string \<Rightarrow> string set option"

definition leads :: "org \<Rightarrow> string \<Rightarrow> bool" where
  "leads w u \<longleftrightarrow> (\<exists>t. (t, u) \<in> org_leaders w)"

text \<open>The role \<open>TEAM_LEADER\<close> is derived: a user has it if and only if the user leads a team.\<close>

definition role_derived :: "org \<Rightarrow> bool" where
  "role_derived w \<longleftrightarrow> (\<forall>u R. org_roles w u = Some R \<longrightarrow> (RoleTeamLeader \<in> R \<longleftrightarrow> leads w u))"

definition leaders_among_members :: "org \<Rightarrow> bool" where
  "leaders_among_members w \<longleftrightarrow> org_leaders w \<subseteq> org_members w"

definition every_team_led :: "org \<Rightarrow> bool" where
  "every_team_led w \<longleftrightarrow> (\<forall>t\<in>org_teams w. \<exists>u. (t, u) \<in> org_leaders w)"

definition org_ok :: "org \<Rightarrow> bool" where
  "org_ok w \<longleftrightarrow> role_derived w \<and> leaders_among_members w \<and> every_team_led w"

section \<open>Abstract operations\<close>

definition grant :: "string \<Rightarrow> org \<Rightarrow> org" where
  "grant u w = w\<lparr>org_roles := (\<lambda>v. if v = u then map_option (insert RoleTeamLeader) (org_roles w u)
     else org_roles w v)\<rparr>"

definition revoke_orphan :: "string \<Rightarrow> org \<Rightarrow> org" where
  "revoke_orphan u w =
     (if leads w u then w
      else w\<lparr>org_roles := (\<lambda>v. if v = u then map_option (\<lambda>R. R - {RoleTeamLeader}) (org_roles w u)
        else org_roles w v)\<rparr>)"

definition spec_create_team :: "string \<Rightarrow> string \<Rightarrow> org \<Rightarrow> org" where
  "spec_create_team t u w = grant u (w\<lparr>org_teams := insert t (org_teams w),
     org_members := insert (t, u) (org_members w), org_leaders := insert (t, u) (org_leaders w)\<rparr>)"

definition spec_delete_team :: "string \<Rightarrow> string list \<Rightarrow> org \<Rightarrow> org" where
  "spec_delete_team t us w = fold revoke_orphan us (w\<lparr>org_teams := org_teams w - {t},
     org_members := {p \<in> org_members w. fst p \<noteq> t}, org_leaders := {p \<in> org_leaders w. fst p \<noteq> t}\<rparr>)"

definition spec_add_member :: "string \<Rightarrow> string \<Rightarrow> org \<Rightarrow> org" where
  "spec_add_member t u w = w\<lparr>org_members := insert (t, u) (org_members w)\<rparr>"

definition spec_remove_member :: "string \<Rightarrow> string \<Rightarrow> org \<Rightarrow> org" where
  "spec_remove_member t u w = w\<lparr>org_members := org_members w - {(t, u)}\<rparr>"

definition spec_add_leader :: "string \<Rightarrow> string \<Rightarrow> org \<Rightarrow> org" where
  "spec_add_leader t u w = grant u (w\<lparr>org_leaders := insert (t, u) (org_leaders w)\<rparr>)"

definition spec_remove_leader :: "string \<Rightarrow> string \<Rightarrow> org \<Rightarrow> org" where
  "spec_remove_leader t u w = revoke_orphan u (w\<lparr>org_leaders := org_leaders w - {(t, u)}\<rparr>)"

definition spec_delete_user :: "string \<Rightarrow> org \<Rightarrow> org" where
  "spec_delete_user u w = w\<lparr>org_users := org_users w - {u},
     org_members := {p \<in> org_members w. snd p \<noteq> u}, org_leaders := {p \<in> org_leaders w. snd p \<noteq> u},
     org_roles := (org_roles w)(u := None)\<rparr>"

definition spec_create_user :: "string \<Rightarrow> string set \<Rightarrow> org \<Rightarrow> org" where
  "spec_create_user u R w = w\<lparr>org_users := insert u (org_users w), org_roles := (org_roles w)(u \<mapsto> R)\<rparr>"

section \<open>The operations keep the organisation's rules\<close>

lemmas org_rule_defs = org_ok_def role_derived_def leaders_among_members_def every_team_led_def leads_def

lemma grant_simps [simp]:
  "org_users (grant u w) = org_users w" "org_teams (grant u w) = org_teams w"
  "org_members (grant u w) = org_members w" "org_leaders (grant u w) = org_leaders w"
  by (simp_all add: grant_def)

lemma revoke_simps [simp]:
  "org_users (revoke_orphan u w) = org_users w" "org_teams (revoke_orphan u w) = org_teams w"
  "org_members (revoke_orphan u w) = org_members w" "org_leaders (revoke_orphan u w) = org_leaders w"
  by (simp_all add: revoke_orphan_def)

lemma leads_grant [simp]: "leads (grant u w) v = leads w v"
  by (simp add: leads_def)

lemma leads_revoke [simp]: "leads (revoke_orphan u w) v = leads w v"
  by (simp add: leads_def)

lemma fold_revoke_simps [simp]:
  "org_teams (fold revoke_orphan us w) = org_teams w"
  "org_members (fold revoke_orphan us w) = org_members w"
  "org_leaders (fold revoke_orphan us w) = org_leaders w"
  by (induction us arbitrary: w) simp_all

lemma fold_revoke_roles:
  "org_roles (fold revoke_orphan us w) v =
     (if v \<in> set us \<and> \<not> leads w v then map_option (\<lambda>R. R - {RoleTeamLeader}) (org_roles w v)
      else org_roles w v)"
proof (induction us arbitrary: w)
  case Nil
  then show ?case by simp
next
  case (Cons u us)
  have step: "org_roles (revoke_orphan u w) v =
      (if v = u \<and> \<not> leads w v then map_option (\<lambda>R. R - {RoleTeamLeader}) (org_roles w v)
       else org_roles w v)"
    by (auto simp: revoke_orphan_def)
  have idem: "map_option (\<lambda>R. R - {RoleTeamLeader}) (map_option (\<lambda>R. R - {RoleTeamLeader}) x)
      = map_option (\<lambda>R. R - {RoleTeamLeader}) x" for x
    by (cases x) auto
  have "org_roles (fold revoke_orphan us (revoke_orphan u w)) v =
     (if v \<in> set us \<and> \<not> leads w v
      then map_option (\<lambda>R. R - {RoleTeamLeader}) (org_roles (revoke_orphan u w) v)
      else org_roles (revoke_orphan u w) v)"
    by (simp add: Cons.IH)
  then show ?case
    unfolding step by (simp add: idem)
qed

lemma spec_create_team_ok:
  assumes "org_ok w" shows "org_ok (spec_create_team t u w)"
  using assms
  by (auto simp: org_rule_defs spec_create_team_def grant_def split: if_splits)

lemma spec_add_leader_ok:
  assumes "org_ok w" "(t, u) \<in> org_members w" shows "org_ok (spec_add_leader t u w)"
  using assms
  by (auto simp: org_rule_defs spec_add_leader_def grant_def split: if_splits)

lemma spec_remove_leader_ok:
  assumes "org_ok w" "\<exists>v. v \<noteq> u \<and> (t, v) \<in> org_leaders w \<or> (t, u) \<notin> org_leaders w"
  shows "org_ok (spec_remove_leader t u w)"
proof -
  let ?w = "w\<lparr>org_leaders := org_leaders w - {(t, u)}\<rparr>"
  have "leads ?w v = leads w v" if "v \<noteq> u" for v
    using that by (auto simp: leads_def)
  then have "role_derived (spec_remove_leader t u w)"
    using assms(1) leads_def [of w u]
    by (auto simp: org_ok_def role_derived_def spec_remove_leader_def revoke_orphan_def
        leads_def split: if_splits)
  moreover have "leaders_among_members (spec_remove_leader t u w)"
    using assms(1) by (auto simp: org_ok_def leaders_among_members_def spec_remove_leader_def)
  moreover have "every_team_led (spec_remove_leader t u w)"
    using assms by (auto simp: org_ok_def every_team_led_def spec_remove_leader_def)
  ultimately show ?thesis by (simp add: org_ok_def)
qed

lemma spec_delete_team_ok:
  assumes "org_ok w" "\<And>v. (t, v) \<in> org_leaders w \<Longrightarrow> v \<in> set us"
  shows "org_ok (spec_delete_team t us w)"
proof -
  let ?w = "w\<lparr>org_teams := org_teams w - {t}, org_members := {p \<in> org_members w. fst p \<noteq> t},
     org_leaders := {p \<in> org_leaders w. fst p \<noteq> t}\<rparr>"
  have drop: "leads ?w v \<Longrightarrow> leads w v" "leads w v \<Longrightarrow> leads ?w v \<or> v \<in> set us" for v
    using assms(2) by (auto simp: leads_def)
  have "role_derived (spec_delete_team t us w)"
    unfolding role_derived_def
  proof (intro allI impI)
    fix v R
    assume R: "org_roles (spec_delete_team t us w) v = Some R"
    have lead: "leads (spec_delete_team t us w) v = leads ?w v"
      by (simp add: spec_delete_team_def leads_def)
    obtain R0 where R0: "org_roles w v = Some R0"
      and RR: "R = (if v \<in> set us \<and> \<not> leads ?w v then R0 - {RoleTeamLeader} else R0)"
      using R by (auto simp: spec_delete_team_def fold_revoke_roles split: if_splits)
    have "RoleTeamLeader \<in> R0 \<longleftrightarrow> leads w v"
      using assms(1) R0 by (simp add: org_ok_def role_derived_def)
    then show "RoleTeamLeader \<in> R \<longleftrightarrow> leads (spec_delete_team t us w) v"
      unfolding lead RR using drop by auto
  qed
  then show ?thesis
    using assms(1)
    by (auto simp: org_ok_def leaders_among_members_def every_team_led_def spec_delete_team_def)
qed

lemma spec_add_member_ok: "org_ok w \<Longrightarrow> org_ok (spec_add_member t u w)"
  by (auto simp: org_rule_defs spec_add_member_def)

lemma spec_remove_member_ok:
  "org_ok w \<Longrightarrow> (t, u) \<notin> org_leaders w \<Longrightarrow> org_ok (spec_remove_member t u w)"
  by (auto simp: org_rule_defs spec_remove_member_def)

lemma spec_delete_user_ok:
  assumes "org_ok w" "\<And>t. (t, u) \<in> org_leaders w \<Longrightarrow> \<exists>v. v \<noteq> u \<and> (t, v) \<in> org_leaders w"
  shows "org_ok (spec_delete_user u w)"
proof -
  have "every_team_led (spec_delete_user u w)"
    using assms by (auto simp: org_ok_def every_team_led_def spec_delete_user_def)
  then show ?thesis
    using assms(1) by (auto simp: org_rule_defs spec_delete_user_def)
qed

lemma spec_create_user_ok:
  assumes "org_ok w" "\<not> leads w u" "RoleTeamLeader \<notin> R"
  shows "org_ok (spec_create_user u R w)"
  using assms by (auto simp: org_rule_defs spec_create_user_def)

end
