(* ===== verification/Admin_Refinement.thy ===== *)
theory Admin_Refinement
  imports Organisation
begin

text \<open>
  The administration handlers implement the operations of \<open>Organisation\<close>: on healthy tables a
  handler that succeeds changes the organisation \<open>org_of s\<close> that the tables stand for as its
  abstract operation does. Two facts about accounts are needed and kept: a user has at most one
  account, and every account holds a role besides \<open>TEAM_LEADER\<close> (\<open>accounts_regular\<close>).
\<close>

section \<open>The organisation of a store\<close>

definition roles_of :: "db \<Rightarrow> string \<Rightarrow> string set option" where
  "roles_of s u = map_option (\<lambda>a. set (ar_roles a))
     (List.find (\<lambda>a. ar_user_id a = u) (accounts_table s))"

definition org_of :: "db \<Rightarrow> org" where
  "org_of s = \<lparr>org_users = user_ids s, org_teams = team_ids s,
     org_members = set (members_table s), org_leaders = set (leaders_table s),
     org_roles = roles_of s\<rparr>"

lemma org_of_simps [simp]:
  "org_users (org_of s) = user_ids s" "org_teams (org_of s) = team_ids s"
  "org_members (org_of s) = set (members_table s)" "org_leaders (org_of s) = set (leaders_table s)"
  "org_roles (org_of s) = roles_of s"
  by (simp_all add: org_of_def)

definition accounts_regular :: "db \<Rightarrow> bool" where
  "accounts_regular s \<longleftrightarrow> distinct (map ar_user_id (accounts_table s)) \<and>
     (\<forall>a\<in>set (accounts_table s). \<exists>r\<in>set (ar_roles a). r \<noteq> RoleTeamLeader)"

text \<open>The states the refinement is about.\<close>

definition sound_store :: "db \<Rightarrow> bool" where
  "sound_store s \<longleftrightarrow> healthy s \<and> schema_ok s \<and> accounts_regular s"

lemma sound_storeD:
  assumes "sound_store s"
  shows "healthy s" "schema_ok s" "accounts_regular s"
  using assms by (simp_all add: sound_store_def)

section \<open>Finding an account\<close>

lemma find_map: "List.find p (map f xs) = map_option f (List.find (p \<circ> f) xs)"
  by (induction xs) auto

lemma find_order_by:
  assumes "distinct (map k xs)"
  shows "List.find (\<lambda>x. k x = i) (order_by le j xs) = List.find (\<lambda>x. k x = i) xs"
proof (cases "List.find (\<lambda>x. k x = i) xs")
  case None
  then have "List.find (\<lambda>x. k x = i) (order_by le j xs) = None"
    by (simp add: find_key_None)
  with None show ?thesis by simp
next
  case (Some r)
  then have "List.find (\<lambda>x. k x = i) (order_by le j xs) = Some r"
    using assms by (simp add: find_key_Some)
  with Some show ?thesis by simp
qed

lemma find_unique_conj:
  assumes "distinct (map k xs)"
  shows "List.find (\<lambda>x. k x = i \<and> q x) xs =
    (case List.find (\<lambda>x. k x = i) xs of None \<Rightarrow> None | Some r \<Rightarrow> if q r then Some r else None)"
  using assms
proof (induction xs)
  case Nil
  then show ?case by simp
next
  case (Cons x xs)
  have "List.find (\<lambda>x. k x = i) xs = None" if "k x = i"
    using Cons.prems that by (auto simp: find_None_iff rev_image_eqI)
  with Cons show ?case by auto
qed

text \<open>Rewriting the roles of one account.\<close>

definition set_roles :: "account_row \<Rightarrow> string list \<Rightarrow> db \<Rightarrow> db" where
  "set_roles a rs s = s\<lparr>accounts_table :=
     update_where (\<lambda>x. ar_id x = ar_id a) (\<lambda>_. a\<lparr>ar_roles := rs\<rparr>) (accounts_table s)\<rparr>"

lemma set_roles_update:
  assumes "distinct (map ar_id (accounts_table s))" "a \<in> set (accounts_table s)"
  shows "accounts_table (set_roles a rs s) =
    map (\<lambda>x. if ar_id x = ar_id a then x\<lparr>ar_roles := rs\<rparr> else x) (accounts_table s)"
proof -
  have "x = a" if "x \<in> set (accounts_table s)" "ar_id x = ar_id a" for x
    using assms that by (auto simp: distinct_map dest: inj_onD)
  then show ?thesis
    by (auto simp: set_roles_def update_where_def)
qed

lemma roles_of_set_roles:
  assumes "schema_ok s" "accounts_regular s" "a \<in> set (accounts_table s)"
  shows "roles_of (set_roles a rs s) u = (if u = ar_user_id a then Some (set rs) else roles_of s u)"
proof -
  let ?h = "\<lambda>x :: account_row. if ar_id x = ar_id a then x\<lparr>ar_roles := rs\<rparr> else x"
  have di: "distinct (map ar_id (accounts_table s))" and du: "distinct (map ar_user_id (accounts_table s))"
    using assms by (simp_all add: schema_keys accounts_regular_def)
  have "(\<lambda>x :: account_row. ar_user_id x = u) \<circ> ?h = (\<lambda>x. ar_user_id x = u)"
    by (auto simp: fun_eq_iff)
  then have eq: "List.find (\<lambda>x. ar_user_id x = u) (map ?h (accounts_table s))
      = map_option ?h (List.find (\<lambda>x. ar_user_id x = u) (accounts_table s))"
    by (simp add: find_map)
  show ?thesis
  proof (cases "u = ar_user_id a")
    case True
    then have "List.find (\<lambda>x. ar_user_id x = u) (accounts_table s) = Some a"
      using assms(3) du by (simp add: find_key_Some)
    with True eq show ?thesis
      by (simp add: roles_of_def set_roles_update [OF di assms(3)])
  next
    case False
    have "ar_id x \<noteq> ar_id a"
      if "List.find (\<lambda>x. ar_user_id x = u) (accounts_table s) = Some x" for x
    proof -
      from that du have "x \<in> set (accounts_table s)" "ar_user_id x = u"
        by (simp_all add: find_key_Some)
      with False assms(3) di show ?thesis
        by (metis distinct_map inj_onD)
    qed
    with False eq show ?thesis
      by (cases "List.find (\<lambda>x. ar_user_id x = u) (accounts_table s)")
        (simp_all add: roles_of_def set_roles_update [OF di assms(3)])
  qed
qed

lemma sound_set_roles:
  assumes "sound_store s" "a \<in> set (accounts_table s)" "\<exists>r\<in>set rs. r \<noteq> RoleTeamLeader"
  shows "sound_store (set_roles a rs s)"
proof -
  note s = sound_storeD [OF assms(1)]
  have di: "distinct (map ar_id (accounts_table s))"
    using s(2) by (rule schema_keys)
  let ?h = "\<lambda>x. if ar_id x = ar_id a then x\<lparr>ar_roles := rs\<rparr> else x"
  have same: "map ar_id (map ?h xs) = map ar_id xs" "map ar_username (map ?h xs) = map ar_username xs"
    "map ar_user_id (map ?h xs) = map ar_user_id xs" for xs :: "account_row list"
    by auto
  have at: "accounts_table (set_roles a rs s) = map ?h (accounts_table s)"
    by (rule set_roles_update [OF di assms(2)])
  have "accounts_ok (set_roles a rs s)"
    using s(2) unfolding accounts_ok_def at same schema_ok_def
    by (auto simp: set_roles_def user_ids_def image_subset_iff)
  then have "schema_ok (set_roles a rs s)"
    using s(2) by (simp add: schema_ok_def schema_parts id_set_defs set_roles_def)
  moreover have "accounts_regular (set_roles a rs s)"
    using s(3) assms(3) unfolding accounts_regular_def at same by auto
  moreover have "healthy (set_roles a rs s)"
    using s(1) by (simp add: healthy_def set_roles_def)
  ultimately show ?thesis by (simp add: sound_store_def)
qed

lemma org_of_set_roles:
  assumes "schema_ok s" "accounts_regular s" "a \<in> set (accounts_table s)"
  shows "org_of (set_roles a rs s) = (org_of s)\<lparr>org_roles :=
    (\<lambda>v. if v = ar_user_id a then Some (set rs) else roles_of s v)\<rparr>"
proof -
  have "user_ids (set_roles a rs s) = user_ids s" "team_ids (set_roles a rs s) = team_ids s"
    "members_table (set_roles a rs s) = members_table s"
    "leaders_table (set_roles a rs s) = leaders_table s"
    by (simp_all add: set_roles_def id_set_defs)
  with roles_of_set_roles [OF assms] show ?thesis
    by (simp add: org_of_def fun_eq_iff)
qed

text \<open>Saving an account under new, non-empty roles rewrites its roles.\<close>

lemma run_save_roles:
  assumes s: "sound_store s" and a: "a \<in> set (accounts_table s)" and m: "m \<noteq> []"
  shows "run_state (AccountRepo_Save E ((scanAccount a)\<lparr>account_roles := m\<rparr>)) s =
    (Inr (), set_roles a (map fst (range_order (iter E) m)) s)"
proof -
  note ss = sound_storeD [OF s]
  have names: "distinct (map ar_username (accounts_table s))" "distinct (map ar_id (accounts_table s))"
    and u: "ar_user_id a \<in> user_ids s"
    using ss(2) a by (auto simp: schema_ok_def accounts_ok_def)
  have "\<not> (\<exists>x\<in>set (accounts_table s). ar_id x \<noteq> ar_id a \<and> ar_username x = ar_username a)"
    using names a by (metis distinct_map inj_onD)
  moreover have row: "\<lparr>ar_id = ar_id a, ar_username = ar_username a,
      ar_password_hash = ar_password_hash a, ar_roles = rs, ar_user_id = ar_user_id a\<rparr>
      = a\<lparr>ar_roles := rs\<rparr>" for rs
    by (cases a) simp
  ultimately show ?thesis
    using a u m ss(1)
    by (simp add: AccountRepo_Save_def run_write_healthy sql_upsert_account_def rolesToStrings_def
        set_roles_def row)
qed

section \<open>The derived role\<close>

lemma keys_order: "iteration_ok it \<Longrightarrow> set (map fst (range_order it m)) = set (map fst m)"
  by simp

lemma map_put_not_Nil [simp]: "map_put k v m \<noteq> []"
  by (cases "(k, v, m)" rule: map_put.cases) auto

lemma roles_of_Some:
  assumes "accounts_regular s" "a \<in> set (accounts_table s)"
  shows "roles_of s (ar_user_id a) = Some (set (ar_roles a))"
proof -
  have "List.find (\<lambda>x. ar_user_id x = ar_user_id a) (accounts_table s) = Some a"
    using assms by (simp add: find_key_Some accounts_regular_def)
  then show ?thesis by (simp add: roles_of_def)
qed

text \<open>The account of a user, as the loop over all accounts finds it.\<close>

lemma find_scanned:
  assumes "accounts_regular s"
  shows "List.find (\<lambda>a. account_user_id a = u) (map scanAccount (order_by le k (accounts_table s)))
    = map_option scanAccount (List.find (\<lambda>a. ar_user_id a = u) (accounts_table s))"
  using assms by (simp add: find_map comp_def find_order_by accounts_regular_def)

lemma find_account_cases:
  assumes "accounts_regular s"
  obtains (none) "List.find (\<lambda>a. ar_user_id a = u) (accounts_table s) = None" "roles_of s u = None"
  | (account) a where "List.find (\<lambda>a. ar_user_id a = u) (accounts_table s) = Some a"
      "a \<in> set (accounts_table s)" "ar_user_id a = u" "roles_of s u = Some (set (ar_roles a))"
proof (cases "List.find (\<lambda>a. ar_user_id a = u) (accounts_table s)")
  case None
  with none show ?thesis by (simp add: roles_of_def)
next
  case (Some a)
  with account assms show ?thesis
    by (auto simp: roles_of_def find_key_Some accounts_regular_def)
qed

lemma grant_trivial:
  "org_roles w u = None \<or> (\<exists>R. org_roles w u = Some R \<and> RoleTeamLeader \<in> R) \<Longrightarrow> grant u w = w"
  by (rule org.equality) (auto simp: grant_def fun_eq_iff insert_absorb)

lemma revoke_trivial:
  "org_roles w u = None \<or> (\<exists>R. org_roles w u = Some R \<and> RoleTeamLeader \<notin> R) \<Longrightarrow> revoke_orphan u w = w"
  by (rule org.equality) (auto simp: revoke_orphan_def fun_eq_iff)

lemma ensure_refines:
  assumes s: "sound_store s" and it: "iteration_ok (iter E)"
    and run: "run_state (ensureLeaderRole E u) s = (r, s')"
  shows "sound_store s' \<and> org_of s' = grant u (org_of s)"
proof -
  note ss = sound_storeD [OF s]
  show ?thesis using ss(3)
  proof (cases rule: find_account_cases [where u = u])
    case none
    then have "s' = s"
      using run ss by (simp add: ensureLeaderRole_def run_rules find_scanned)
    with none s show ?thesis
      by (simp add: grant_trivial)
  next
    case (account a)
    let ?m = "map_put RoleTeamLeader True (stringsToRoles (ar_roles a))"
    let ?rs = "map fst (range_order (iter E) ?m)"
    show ?thesis
    proof (cases "RoleTeamLeader \<in> set (ar_roles a)")
      case True
      then have "s' = s"
        using run ss account by (simp add: ensureLeaderRole_def run_rules find_scanned)
      with True account s show ?thesis
        by (simp add: grant_trivial)
    next
      case False
      then have s': "s' = set_roles a ?rs s"
        using run ss account
        by (simp add: ensureLeaderRole_def run_rules find_scanned run_save_roles [OF s])
      have rs: "set ?rs = insert RoleTeamLeader (set (ar_roles a))"
        unfolding keys_order [OF it] keys_map_put by simp
      obtain q where "q \<in> set (ar_roles a)" "q \<noteq> RoleTeamLeader"
        using ss(3) account by (auto simp: accounts_regular_def)
      with rs have "sound_store s'"
        unfolding s' by (intro sound_set_roles [OF s account(2)]) blast
      moreover have "org_of s' = grant u (org_of s)"
        unfolding s' org_of_set_roles [OF ss(2,3) account(2)] rs
        using account by (simp add: grant_def cong: if_cong)
      ultimately show ?thesis ..
    qed
  qed
qed

lemma leads_org: "leads (org_of s) u \<longleftrightarrow> (\<exists>t. (t, u) \<in> set (leaders_table s))"
  by (simp add: leads_def)

lemma leads_teams:
  assumes "schema_ok s"
  shows "(\<exists>t\<in>set (teams_table s). (tr_id t, u) \<in> set (leaders_table s)) \<longleftrightarrow> leads (org_of s) u"
  using assms by (force simp: leads_org schema_ok_def teams_ok_def links_ok_def team_ids_def)

lemma remove_refines:
  assumes s: "sound_store s" and it: "iteration_ok (iter E)"
    and run: "run_state (removeLeaderRoleIfOrphaned E u) s = (r, s')"
  shows "sound_store s' \<and> org_of s' = revoke_orphan u (org_of s)"
proof -
  note ss = sound_storeD [OF s]
  have held: "List.find (\<lambda>a. account_user_id a = u \<and> map_flag (account_roles a) RoleTeamLeader)
      (map scanAccount (order_by le k (accounts_table s)))
    = (case List.find (\<lambda>a. ar_user_id a = u) (accounts_table s) of None \<Rightarrow> None
       | Some a \<Rightarrow> if RoleTeamLeader \<in> set (ar_roles a) then Some (scanAccount a) else None)"
    for le :: "string \<Rightarrow> string \<Rightarrow> bool" and k
  proof -
    have d: "distinct (map ar_user_id (accounts_table s))"
      using ss(3) by (simp add: accounts_regular_def)
    then have "distinct (map account_user_id (map scanAccount (order_by le k (accounts_table s))))"
      by (simp add: comp_def)
    from find_unique_conj [OF this] show ?thesis
      by (simp add: find_scanned [OF ss(3)] del: map_map split: option.splits)
  qed
  show ?thesis
  proof (cases "leads (org_of s) u")
    case True
    then have "s' = s"
      using run ss by (simp add: removeLeaderRoleIfOrphaned_def run_rules leads_teams)
    with True s show ?thesis by (simp add: revoke_orphan_def)
  next
    case not_leading: False
    from ss(3) show ?thesis
    proof (cases rule: find_account_cases [where u = u])
      case none
      then have "s' = s"
        using run ss not_leading
        by (simp add: removeLeaderRoleIfOrphaned_def run_rules leads_teams held)
      with none s not_leading show ?thesis
        by (simp add: revoke_trivial)
    next
      case (account a)
      let ?m = "map_delete RoleTeamLeader (stringsToRoles (ar_roles a))"
      let ?rs = "map fst (range_order (iter E) ?m)"
      show ?thesis
      proof (cases "RoleTeamLeader \<in> set (ar_roles a)")
        case False
        then have "s' = s"
          using run ss not_leading account
          by (simp add: removeLeaderRoleIfOrphaned_def run_rules leads_teams held)
        with False account s not_leading show ?thesis
          by (simp add: revoke_trivial)
      next
        case True
        have rs: "set ?rs = set (ar_roles a) - {RoleTeamLeader}"
          unfolding keys_order [OF it] keys_map_delete by simp
        obtain q where q: "q \<in> set (ar_roles a)" "q \<noteq> RoleTeamLeader"
          using ss(3) account by (auto simp: accounts_regular_def)
        have "set (map fst ?m) \<noteq> {}"
          using q unfolding keys_map_delete by auto
        then have "?m \<noteq> []" by fastforce
        with True have s': "s' = set_roles a ?rs s"
          using run ss account not_leading
          by (simp add: removeLeaderRoleIfOrphaned_def run_rules leads_teams held run_save_roles [OF s])
        have "sound_store s'"
          unfolding s' using q rs by (intro sound_set_roles [OF s account(2)]) blast
        moreover have "org_of s' = revoke_orphan u (org_of s)"
          unfolding s' org_of_set_roles [OF ss(2,3) account(2)] rs
          using account not_leading by (simp add: revoke_orphan_def cong: if_cong)
        ultimately show ?thesis ..
      qed
    qed
  qed
qed

end
