(* ===== verification/Admin_Steps.thy ===== *)
theory Admin_Steps
  imports Admin_Refinement
begin

text \<open>
  One lemma per administration handler: run on a sound store it either answers with an error and
  leaves the organisation alone, or it does what its abstract operation of \<open>Organisation\<close> says;
  the store stays sound. The proofs rest on what \<open>TeamRepo_Save\<close> and the statements do to the
  tables and on the two lemmas about the derived role.
\<close>

section \<open>Steps of the tables\<close>

lemma sound_step:
  assumes "sound_store s" "faults s' = faults s" "schema_ok s'" "accounts_table s' = accounts_table s"
  shows "sound_store s'"
  using assms by (simp add: sound_store_def healthy_def accounts_regular_def)

lemma roles_of_cong: "accounts_table s' = accounts_table s \<Longrightarrow> roles_of s' = roles_of s"
  by (simp add: roles_of_def fun_eq_iff)

lemma org_eqI:
  assumes "user_ids s = org_users w" "team_ids s = org_teams w"
    "set (members_table s) = org_members w" "set (leaders_table s) = org_leaders w"
    "roles_of s = org_roles w"
  shows "org_of s = w"
  using assms by (cases w) (simp add: org_of_def)

lemma org_add_member:
  assumes "sound_store s" "sql_add_member b t u s = Inr s'"
  shows "sound_store s' \<and> org_of s' = spec_add_member t u (org_of s)"
proof -
  have eq: "accounts_table s' = accounts_table s" "users_table s' = users_table s"
    "teams_table s' = teams_table s" "leaders_table s' = leaders_table s"
    "set (members_table s') = insert (t, u) (set (members_table s))"
    using assms(2) by (auto simp: sql_add_member_def link_row_def split: if_splits)
  have "sound_store s'"
    using sql_link_faults(1) [OF assms(2)] schema_add_member [OF sound_storeD(2) [OF assms(1)] assms(2)] eq(1)
    by (rule sound_step [OF assms(1)])
  moreover have "org_of s' = spec_add_member t u (org_of s)"
    by (rule org_eqI) (simp_all add: spec_add_member_def id_set_defs eq roles_of_cong [OF eq(1)])
  ultimately show ?thesis ..
qed

lemma org_add_leader:
  assumes "sound_store s" "sql_add_leader b t u s = Inr s'"
  shows "sound_store s' \<and> org_of s' = (org_of s)\<lparr>org_leaders := insert (t, u) (set (leaders_table s))\<rparr>"
proof -
  have eq: "accounts_table s' = accounts_table s" "users_table s' = users_table s"
    "teams_table s' = teams_table s" "members_table s' = members_table s"
    "set (leaders_table s') = insert (t, u) (set (leaders_table s))"
    using assms(2) by (auto simp: sql_add_leader_def link_row_def split: if_splits)
  have "sound_store s'"
    using sql_link_faults(2) [OF assms(2)] schema_add_leader [OF sound_storeD(2) [OF assms(1)] assms(2)] eq(1)
    by (rule sound_step [OF assms(1)])
  moreover have "org_of s' = (org_of s)\<lparr>org_leaders := insert (t, u) (set (leaders_table s))\<rparr>"
    by (rule org_eqI) (simp_all add: id_set_defs eq roles_of_cong [OF eq(1)])
  ultimately show ?thesis ..
qed

lemma org_remove_member:
  assumes "sound_store s" "sql_remove_member t u s = Inr s'"
  shows "sound_store s' \<and> org_of s' = spec_remove_member t u (org_of s)"
proof -
  have eq: "accounts_table s' = accounts_table s" "users_table s' = users_table s"
    "teams_table s' = teams_table s" "leaders_table s' = leaders_table s"
    "set (members_table s') = set (members_table s) - {(t, u)}"
    using assms(2) by (auto simp: sql_remove_member_def)
  have "sound_store s'"
    using sql_faults(12) [OF assms(2)] schema_remove_member [OF sound_storeD(2) [OF assms(1)] assms(2)] eq(1)
    by (rule sound_step [OF assms(1)])
  moreover have "org_of s' = spec_remove_member t u (org_of s)"
    by (rule org_eqI) (simp_all add: spec_remove_member_def id_set_defs eq roles_of_cong [OF eq(1)])
  ultimately show ?thesis ..
qed

lemma org_remove_leader:
  assumes "sound_store s" "sql_remove_leader t u s = Inr s'"
  shows "sound_store s' \<and> org_of s' = (org_of s)\<lparr>org_leaders := set (leaders_table s) - {(t, u)}\<rparr>"
proof -
  have eq: "accounts_table s' = accounts_table s" "users_table s' = users_table s"
    "teams_table s' = teams_table s" "members_table s' = members_table s"
    "set (leaders_table s') = set (leaders_table s) - {(t, u)}"
    using assms(2) by (auto simp: sql_remove_leader_def)
  have "sound_store s'"
    using sql_faults(13) [OF assms(2)] schema_remove_leader [OF sound_storeD(2) [OF assms(1)] assms(2)] eq(1)
    by (rule sound_step [OF assms(1)])
  moreover have "org_of s' = (org_of s)\<lparr>org_leaders := set (leaders_table s) - {(t, u)}\<rparr>"
    by (rule org_eqI) (simp_all add: id_set_defs eq roles_of_cong [OF eq(1)])
  ultimately show ?thesis ..
qed

lemma org_delete_team:
  assumes "sound_store s" "sql_delete_team t s = Inr s'"
  shows "sound_store s' \<and> org_of s' = spec_delete_team t [] (org_of s)"
proof -
  have eq: "accounts_table s' = accounts_table s" "users_table s' = users_table s"
    "teams_table s' = filter (\<lambda>r. tr_id r \<noteq> t) (teams_table s)"
    "members_table s' = filter (\<lambda>p. fst p \<noteq> t) (members_table s)"
    "leaders_table s' = filter (\<lambda>p. fst p \<noteq> t) (leaders_table s)"
    using assms(2) by (auto simp: sql_delete_team_def)
  have "sound_store s'"
    using sql_faults(11) [OF assms(2)] schema_delete_team [OF sound_storeD(2) [OF assms(1)] assms(2)] eq(1)
    by (rule sound_step [OF assms(1)])
  moreover have "org_of s' = spec_delete_team t [] (org_of s)"
    by (rule org_eqI) (auto simp: spec_delete_team_def id_set_defs eq roles_of_cong [OF eq(1)])
  ultimately show ?thesis ..
qed

lemma org_delete_user:
  assumes "sound_store s" "sql_delete_account u s = Inr s1" "sql_delete_user u s1 = Inr s'"
  shows "sound_store s' \<and> org_of s' = spec_delete_user u (org_of s)"
proof -
  note ss = sound_storeD [OF assms(1)]
  have eq: "accounts_table s' = filter (\<lambda>a. ar_user_id a \<noteq> u) (accounts_table s)"
    "users_table s' = filter (\<lambda>r. ur_id r \<noteq> u) (users_table s)"
    "teams_table s' = teams_table s"
    "members_table s' = filter (\<lambda>p. snd p \<noteq> u) (members_table s)"
    "leaders_table s' = filter (\<lambda>p. snd p \<noteq> u) (leaders_table s)"
    "faults s' = faults s"
    using assms(2,3) by (auto simp: sql_delete_account_def sql_delete_user_def)
  have "schema_ok s'"
    using ss(2) assms(2,3) by (blast intro: schema_delete_account schema_delete_user)
  moreover have "accounts_regular s'"
    using ss(3) by (auto simp: accounts_regular_def eq distinct_map_filter_any)
  ultimately have "sound_store s'"
    using ss(1) eq(6) by (simp add: sound_store_def healthy_def)
  moreover have "roles_of s' v = (if v = u then None else roles_of s v)" for v
  proof -
    have "List.find (\<lambda>a. ar_user_id a = v) (filter (\<lambda>a. ar_user_id a \<noteq> u) as) =
        (if v = u then None else List.find (\<lambda>a. ar_user_id a = v) as)" for as :: "account_row list"
      by (induction as) auto
    then show ?thesis by (simp add: roles_of_def eq)
  qed
  then have "org_of s' = spec_delete_user u (org_of s)"
    by (intro org_eqI) (auto simp: spec_delete_user_def id_set_defs eq fun_eq_iff)
  ultimately show ?thesis by simp
qed

section \<open>Members\<close>

lemma AddMember_refines:
  assumes s: "sound_store s" and run: "run_state (AdminHandler_AddMember t (Some u)) s = (r, s')"
  shows "sound_store s' \<and>
    (if status r = 200 then org_of s' = spec_add_member t u (org_of s) else s' = s)"
proof (cases "u = []")
  case True
  with run s show ?thesis by (auto simp: AdminHandler_AddMember_def)
next
  case False
  note h = sound_storeD(1) [OF s]
  show ?thesis
  proof (cases "sql_add_member False t u s")
    case (Inl e)
    with run False s h show ?thesis
      by (auto simp: AdminHandler_AddMember_def TeamRepo_AddMember_def run_write_healthy)
  next
    case (Inr s1)
    with run False h have "s' = s1" "status r = 200"
      by (auto simp: AdminHandler_AddMember_def TeamRepo_AddMember_def run_write_healthy)
    with org_add_member [OF s Inr] show ?thesis by simp
  qed
qed

lemma RemoveMember_refines:
  assumes s: "sound_store s" and run: "run_state (AdminHandler_RemoveMember E t u) s = (r, s')"
  shows "sound_store s' \<and>
    (if status r = 200 then (t, u) \<notin> set (leaders_table s) \<and> org_of s' = spec_remove_member t u (org_of s)
     else s' = s)"
proof -
  note h = sound_storeD(1) [OF s]
  obtain s1 where s1: "sql_remove_member t u s = Inr s1"
    by (simp add: sql_remove_member_def)
  show ?thesis
  proof (cases "(t, u) \<in> set (leaders_table s)")
    case True
    with run s h show ?thesis
      by (auto simp: AdminHandler_RemoveMember_def TeamRepo_RemoveMember_def run_rules split: if_splits)
  next
    case False
    with run h s1 have "s' = s1" "status r = 200"
      by (auto simp: AdminHandler_RemoveMember_def TeamRepo_RemoveMember_def run_rules)
    with org_remove_member [OF s s1] False show ?thesis by simp
  qed
qed

section \<open>Leaders\<close>

lemma find_team_none:
  assumes "schema_ok s" "t \<notin> team_ids s"
  shows "by_key tr_id t (teams_table s) = []"
  using assms by (simp add: by_key_empty id_set_defs)

lemma find_team_some:
  assumes "schema_ok s" "t \<in> team_ids s"
  obtains r where "by_key tr_id t (teams_table s) = [r]" "tr_id r = t"
  using assms by (auto simp: id_set_defs intro: by_key_distinct schema_keys)

lemma AddLeader_refines:
  assumes s: "sound_store s" and it: "iteration_ok (iter E)"
    and run: "run_state (AdminHandler_AddLeader E t (Some u)) s = (r, s')"
  shows "sound_store s' \<and>
    (if status r = 200 then (t, u) \<in> set (members_table s) \<and> org_of s' = spec_add_leader t u (org_of s)
     else s' = s)"
proof (cases "u = [] \<or> t \<notin> team_ids s \<or> (t, u) \<notin> set (members_table s)")
  case True
  note ss = sound_storeD [OF s]
  show ?thesis
  proof (cases "t \<in> team_ids s")
    case False
    with run s ss show ?thesis
      by (auto simp: AdminHandler_AddLeader_def run_rules find_team_none split: if_splits)
  next
    case there: True
    then obtain tr where "by_key tr_id t (teams_table s) = [tr]" "tr_id tr = t"
      using find_team_some [OF ss(2)] by blast
    with run s ss there True show ?thesis
      by (auto simp: AdminHandler_AddLeader_def run_rules split: if_splits)
  qed
next
  case False
  note ss = sound_storeD [OF s]
  obtain tr where tr: "by_key tr_id t (teams_table s) = [tr]" "tr_id tr = t"
    using find_team_some [OF ss(2)] False by blast
  show ?thesis
  proof (cases "sql_add_leader False t u s")
    case (Inl e)
    with run s ss False tr show ?thesis
      by (auto simp: AdminHandler_AddLeader_def TeamRepo_AddLeader_def run_rules run_write_healthy)
  next
    case (Inr s1)
    note added = org_add_leader [OF s Inr]
    obtain v s2 where ens: "run_state (ensureLeaderRole E u) s1 = (v, s2)"
      by (rule prod.exhaust)
    have "s' = s2" "status r = 200"
      using run ss False tr Inr ens
      by (auto simp: AdminHandler_AddLeader_def TeamRepo_AddLeader_def run_rules run_write_healthy)
    with ensure_refines [OF _ it ens] added False show ?thesis
      by (simp add: spec_add_leader_def)
  qed
qed

lemma linked_single:
  assumes "distinct ls" "length (linked ls t) > 1"
  shows "\<exists>v. v \<noteq> u \<and> (t, v) \<in> set ls"
proof (rule ccontr)
  assume "\<not> ?thesis"
  then have "set (linked ls t) \<subseteq> {u}" by auto
  then have "card (set (linked ls t)) \<le> 1"
    using card_mono [of "{u}" "set (linked ls t)"] by simp
  with assms show False
    by (simp add: distinct_card distinct_linked)
qed

lemma RemoveLeader_refines:
  assumes s: "sound_store s" and it: "iteration_ok (iter E)"
    and run: "run_state (AdminHandler_RemoveLeader E t u) s = (r, s')"
  shows "sound_store s' \<and>
    (if status r = 200
     then (\<exists>v. v \<noteq> u \<and> (t, v) \<in> set (leaders_table s)) \<and> org_of s' = spec_remove_leader t u (org_of s)
     else s' = s)"
proof -
  note ss = sound_storeD [OF s]
  obtain s1 where s1: "sql_remove_leader t u s = Inr s1"
    by (simp add: sql_remove_leader_def)
  show ?thesis
  proof (cases "length (linked (leaders_table s) t) \<le> 1")
    case True
    with run s ss show ?thesis
      by (auto simp: AdminHandler_RemoveLeader_def TeamRepo_RemoveLeader_def run_rules split: if_splits)
  next
    case False
    note removed = org_remove_leader [OF s s1]
    obtain v s2 where rem: "run_state (removeLeaderRoleIfOrphaned E u) s1 = (v, s2)"
      by (rule prod.exhaust)
    have "s' = s2" "status r = 200"
      using run ss False s1 rem
      by (auto simp: AdminHandler_RemoveLeader_def TeamRepo_RemoveLeader_def run_rules)
    moreover have "\<exists>v. v \<noteq> u \<and> (t, v) \<in> set (leaders_table s)"
      using ss(2) False by (intro linked_single) (auto simp: schema_ok_def teams_ok_def links_ok_def)
    ultimately show ?thesis
      using remove_refines [OF _ it rem] removed by (simp add: spec_remove_leader_def)
  qed
qed

section \<open>Teams\<close>

lemma do_each_removes:
  assumes "sound_store s" "iteration_ok (iter E)"
    and "run_state (do_each (removeLeaderRoleIfOrphaned E) us) s = (r, s')"
  shows "sound_store s' \<and> org_of s' = fold revoke_orphan us (org_of s)"
  using assms
proof (induction us arbitrary: s)
  case Nil
  then show ?case by simp
next
  case (Cons u us)
  obtain v s1 where one: "run_state (removeLeaderRoleIfOrphaned E u) s = (v, s1)"
      by (rule prod.exhaust)
  with Cons.prems have "run_state (do_each (removeLeaderRoleIfOrphaned E) us) s1 = (r, s')"
    by simp
  with Cons.IH [OF _ Cons.prems(2) this] remove_refines [OF Cons.prems(1,2) one] show ?case
    by simp
qed

lemma spec_delete_team_fold: "spec_delete_team t us w = fold revoke_orphan us (spec_delete_team t [] w)"
  by (simp add: spec_delete_team_def)

lemma DeleteTeam_refines:
  assumes s: "sound_store s" and it: "iteration_ok (iter E)"
    and run: "run_state (AdminHandler_DeleteTeam E t) s = (r, s')"
  shows "sound_store s' \<and>
    (if t \<in> team_ids s
     then status r = 200 \<and> org_of s' = spec_delete_team t (linked (leaders_table s) t) (org_of s)
     else status r = 404 \<and> s' = s)"
proof -
  note ss = sound_storeD [OF s]
  obtain s1 where s1: "sql_delete_team t s = Inr s1"
    by (simp add: sql_delete_team_def)
  show ?thesis
  proof (cases "t \<in> team_ids s")
    case False
    with run s ss show ?thesis
      by (auto simp: AdminHandler_DeleteTeam_def run_rules find_team_none)
  next
    case True
    note deleted = org_delete_team [OF s s1]
    obtain tr where tr: "by_key tr_id t (teams_table s) = [tr]" "tr_id tr = t"
      using find_team_some [OF ss(2)] True by blast
    obtain v s2 where loop:
      "run_state (do_each (removeLeaderRoleIfOrphaned E) (linked (leaders_table s) t)) s1 = (v, s2)"
      by (rule prod.exhaust)
    have "s' = s2" "status r = 200"
      using run ss tr s1 loop
      by (auto simp: AdminHandler_DeleteTeam_def TeamRepo_Delete_def run_rules)
    with do_each_removes [OF _ it loop] deleted True show ?thesis
      by (simp add: spec_delete_team_fold [of t "linked (leaders_table s) t"])
  qed
qed

section \<open>Saving a team\<close>

text \<open>Saving a team over existing users: the name is written, the leaders and the members become
  those of the team, in its order, and the rows of other teams stay.\<close>

definition saved_team :: "team \<Rightarrow> db \<Rightarrow> db" where
  "saved_team t s = s\<lparr>
     teams_table := upsert_rows tr_id \<lparr>tr_id = team_id t, tr_name = team_name t\<rparr> (teams_table s),
     leaders_table := filter (\<lambda>p. fst p \<noteq> team_id t) (leaders_table s) @ map (Pair (team_id t)) (team_leader_ids t),
     members_table := filter (\<lambda>p. fst p \<noteq> team_id t) (members_table s) @ map (Pair (team_id t)) (team_member_ids t)\<rparr>"

lemma sql_upsert_team_rows:
  "sql_upsert_team r s = Inr (s\<lparr>teams_table := upsert_rows tr_id r (teams_table s)\<rparr>)"
  by (simp add: sql_upsert_team_def sql_insert_team_def upsert_rows_def id_set_defs)

lemma upsert_rows_id: "key r \<in> key ` set (upsert_rows key r xs)"
  by (auto simp: upsert_rows_def set_update_where)

lemma run_TeamRepo_Save:
  assumes "healthy s" "set (team_leader_ids t) \<subseteq> user_ids s" "distinct (team_leader_ids t)"
    "set (team_member_ids t) \<subseteq> user_ids s" "distinct (team_member_ids t)"
  shows "run_state (TeamRepo_Save t) s = (Inr (), saved_team t s)"
proof -
  let ?r = "\<lparr>tr_id = team_id t, tr_name = team_name t\<rparr>"
  let ?s1 = "s\<lparr>teams_table := upsert_rows tr_id ?r (teams_table s)\<rparr>"
  let ?s2 = "?s1\<lparr>leaders_table := filter (\<lambda>p. fst p \<noteq> team_id t) (leaders_table s)\<rparr>"
  let ?s3 = "?s2\<lparr>leaders_table := leaders_table ?s2 @ map (Pair (team_id t)) (team_leader_ids t)\<rparr>"
  let ?s4 = "?s3\<lparr>members_table := filter (\<lambda>p. fst p \<noteq> team_id t) (members_table s)\<rparr>"
  have h: "healthy ?s1" "healthy ?s2" "healthy ?s3" "healthy ?s4" "healthy (saved_team t s)"
    using assms(1) by (simp_all add: healthy_def saved_team_def)
  have t: "team_id t \<in> team_ids ?s1" "team_id t \<in> team_ids ?s4"
    using upsert_rows_id [where key = tr_id and r = ?r] by (simp_all add: id_set_defs)
  have up: "run_state (wrapf ''upsert team'' (exec_sql (sql_upsert_team ?r))) s = (Inr (), ?s1)"
    using assms(1) by (intro run_write_ok) (simp_all add: sql_upsert_team_rows)
  have cl: "run_state (wrapf ''clear leaders'' (exec_sql (sql_clear_leaders (team_id t)))) ?s1 = (Inr (), ?s2)"
    using h(1) by (intro run_write_ok) (simp_all add: sql_clear_leaders_def)
  have il: "run_state (for_each (\<lambda>u. wrapf ''insert leader'' (exec_sql (sql_add_leader True (team_id t) u)))
      (team_leader_ids t)) ?s2 = (Inr (), ?s3)"
    using assms t h by (intro run_insert_leaders) (auto simp: id_set_defs)
  have cm: "run_state (wrapf ''clear members'' (exec_sql (sql_clear_members (team_id t)))) ?s3 = (Inr (), ?s4)"
    using h(3) by (intro run_write_ok) (simp_all add: sql_clear_members_def)
  have im: "run_state (for_each (\<lambda>u. wrapf ''insert member'' (exec_sql (sql_add_member True (team_id t) u)))
      (team_member_ids t)) ?s4 = (Inr (), ?s4\<lparr>members_table := members_table ?s4 @
        map (Pair (team_id t)) (team_member_ids t)\<rparr>)"
    using assms t h by (intro run_insert_members) (auto simp: id_set_defs)
  have fin: "?s4\<lparr>members_table := members_table ?s4 @ map (Pair (team_id t)) (team_member_ids t)\<rparr>
      = saved_team t s"
    by (simp add: saved_team_def)
  show ?thesis
    unfolding TeamRepo_Save_def
    by (subst run_in_tx_healthy [OF assms(1) _ h(5)])
      (simp_all only: run_check_err up cl il cm im fin prod.case sum.case, simp)
qed

text \<open>A saved team is the team that is found.\<close>

lemma linked_saved:
  "linked (filter (\<lambda>p. fst p \<noteq> t) ls @ map (Pair t) us) t' = (if t' = t then us else linked ls t')"
proof -
  have "filter (\<lambda>p. fst p = t) (filter (\<lambda>p. fst p \<noteq> t) ls) = []"
    by (simp add: filter_empty_conv)
  moreover have "filter (\<lambda>p. fst p = t') (filter (\<lambda>p. fst p \<noteq> t) ls) = filter (\<lambda>p. fst p = t') ls"
    if "t' \<noteq> t" using that by (induction ls) auto
  moreover have "map snd (filter (\<lambda>p. fst p = t) (map (Pair t) us)) = us"
    by (induction us) auto
  moreover have "filter (\<lambda>p. fst p = t') (map (Pair t) us) = []" if "t' \<noteq> t"
    using that by (auto simp: filter_empty_conv)
  ultimately show ?thesis by (simp add: linked_def)
qed

lemma find_saved_team:
  assumes "healthy s" "schema_ok s"
  shows "run_state (TeamRepo_FindByID (team_id t)) (saved_team t s) =
    (Inr (t\<lparr>team_repository_ids := linked (team_repos_table s) (team_id t)\<rparr>), saved_team t s)"
proof -
  let ?r = "\<lparr>tr_id = team_id t, tr_name = team_name t\<rparr>"
  have "by_key tr_id (tr_id ?r) (upsert_rows tr_id ?r (teams_table s)) = [?r]"
    by (rule by_key_upsert_same) (rule schema_keys(4) [OF assms(2)])
  then have "by_key tr_id (team_id t) (teams_table (saved_team t s)) = [?r]"
    by (simp add: saved_team_def)
  moreover have "healthy (saved_team t s)"
    using assms(1) by (simp add: healthy_def saved_team_def)
  moreover have "team_view (saved_team t s) ?r = t\<lparr>team_repository_ids := linked (team_repos_table s) (team_id t)\<rparr>"
    by (cases t) (simp add: team_view_def saved_team_def linked_saved)
  ultimately show ?thesis
    by (simp add: run_rules)
qed

lemma upsert_rows_keys: "key ` set (upsert_rows key r xs) = insert (key r) (key ` set xs)"
  by (auto simp: upsert_rows_def set_update_where image_iff)

lemma sound_saved_team:
  assumes s: "sound_store s" and "set (team_leader_ids t) \<subseteq> user_ids s" "distinct (team_leader_ids t)"
    "set (team_member_ids t) \<subseteq> user_ids s" "distinct (team_member_ids t)"
  shows "sound_store (saved_team t s)"
proof -
  note ss = sound_storeD [OF s]
  have "keeps schema_ok (TeamRepo_Save t)"
    unfolding TeamRepo_Save_def by (intro keeps_rules)
  then have "schema_ok (saved_team t s)"
    using run_TeamRepo_Save [OF ss(1) assms(2-5)] ss(2) by (metis keeps_run)
  moreover have "faults (saved_team t s) = faults s" "accounts_table (saved_team t s) = accounts_table s"
    by (simp_all add: saved_team_def)
  ultimately show ?thesis
    using sound_step [OF s] by blast
qed

lemma org_saved_team:
  assumes "team_id t \<notin> team_ids s" "schema_ok s"
  shows "org_of (saved_team t s) = (org_of s)\<lparr>org_teams := insert (team_id t) (team_ids s),
    org_members := set (members_table s) \<union> Pair (team_id t) ` set (team_member_ids t),
    org_leaders := set (leaders_table s) \<union> Pair (team_id t) ` set (team_leader_ids t)\<rparr>"
proof -
  have keep: "filter (\<lambda>p. fst p \<noteq> team_id t) ls = ls" if "fst ` set ls \<subseteq> team_ids s" for ls :: "(string \<times> string) list"
    using assms(1) that by (intro filter_True) auto
  have "fst ` set (members_table s) \<subseteq> team_ids s" "fst ` set (leaders_table s) \<subseteq> team_ids s"
    using assms(2) by (simp_all add: schema_ok_def teams_ok_def links_ok_def)
  note kept = this [THEN keep]
  have "roles_of (saved_team t s) = roles_of s"
    by (rule roles_of_cong) (simp add: saved_team_def)
  then show ?thesis
    by (intro org_eqI) (simp_all add: saved_team_def id_set_defs upsert_rows_keys kept)
qed

text \<open>The identifier of a new team must be fresh: the upsert takes over a team that has it.\<close>

lemma CreateTeam_refines:
  assumes s: "sound_store s" and it: "iteration_ok (iter E)"
    and fresh: "''t-'' @ take 8 uuid \<notin> team_ids s"
    and run: "run_state (AdminHandler_CreateTeam E uuid (Some req)) s = (r, s')"
  shows "sound_store s' \<and>
    (if ct_name req \<noteq> [] \<and> ct_leader_id req \<noteq> [] \<and> ct_leader_id req \<in> user_ids s
     then status r = 201 \<and> org_of s' = spec_create_team (''t-'' @ take 8 uuid) (ct_leader_id req) (org_of s)
     else status r = 400 \<and> s' = s)"
proof -
  note ss = sound_storeD [OF s]
  let ?u = "ct_leader_id req"
  show ?thesis
  proof (cases "ct_name req = [] \<or> ?u = [] \<or> ?u \<notin> user_ids s")
    case True
    then have none: "by_key ur_id ?u (users_table s) = []" if "ct_name req \<noteq> []" "?u \<noteq> []"
      using that by (simp add: by_key_empty id_set_defs)
    show ?thesis
    proof (cases "ct_name req = [] \<or> ?u = []")
      case True
      with run s show ?thesis by (auto simp: AdminHandler_CreateTeam_def)
    next
      case False
      with run s ss none \<open>ct_name req = [] \<or> ?u = [] \<or> ?u \<notin> user_ids s\<close> show ?thesis
        by (auto simp: AdminHandler_CreateTeam_def run_rules)
    qed
  next
    case False
    let ?t = "\<lparr>team_id = ''t-'' @ take 8 uuid, team_name = ct_name req, team_leader_ids = [?u],
      team_member_ids = [?u], team_repository_ids = []\<rparr>"
    obtain row where "row \<in> set (users_table s)" "ur_id row = ?u"
      using False by (auto simp: id_set_defs)
    then have row: "by_key ur_id ?u (users_table s) = [row]"
      using by_key_distinct [OF schema_keys(1) [OF ss(2)]] by metis
    have saved: "run_state (TeamRepo_Save ?t) s = (Inr (), saved_team ?t s)"
      using False ss(1) by (intro run_TeamRepo_Save) auto
    have sound: "sound_store (saved_team ?t s)"
      using False by (intro sound_saved_team [OF s]) auto
    obtain v s2 where ens: "run_state (ensureLeaderRole E ?u) (saved_team ?t s) = (v, s2)"
      by (rule prod.exhaust)
    have "s' = s2" "status r = 201"
      using run ss(1) False row saved ens
      by (auto simp: AdminHandler_CreateTeam_def run_rules Let_def)
    moreover have "org_of (saved_team ?t s) = (org_of s)\<lparr>org_teams := insert (team_id ?t) (org_teams (org_of s)),
        org_members := insert (team_id ?t, ?u) (org_members (org_of s)),
        org_leaders := insert (team_id ?t, ?u) (org_leaders (org_of s))\<rparr>"
      using org_saved_team [of ?t s] fresh ss(2) by simp
    ultimately show ?thesis
      using ensure_refines [OF sound it ens] False by (simp add: spec_create_team_def)
  qed
qed

section \<open>Users\<close>

lemma find_not_None: "List.find p xs \<noteq> None \<longleftrightarrow> (\<exists>x\<in>set xs. p x)"
  by (auto simp: find_None_iff)

lemma linked_only:
  assumes "(t, u) \<in> set ls" "distinct ls"
  shows "length (linked ls t) = 1 \<longleftrightarrow> (\<forall>v. (t, v) \<in> set ls \<longrightarrow> v = u)"
proof
  assume "length (linked ls t) = 1"
  then obtain x where "linked ls t = [x]"
    by (cases "linked ls t") auto
  then have "v = x" if "(t, v) \<in> set ls" for v
    using that mem_linked [of v ls t] by simp
  with assms(1) show "\<forall>v. (t, v) \<in> set ls \<longrightarrow> v = u" by blast
next
  assume "\<forall>v. (t, v) \<in> set ls \<longrightarrow> v = u"
  with assms(1) have "set (linked ls t) = {u}"
    unfolding set_eq_iff mem_linked by blast
  then show "length (linked ls t) = 1"
    using distinct_card [OF distinct_linked [OF assms(2), of t]] by simp
qed

lemma DeleteUser_refines:
  assumes s: "sound_store s" and ok: "org_ok (org_of s)"
    and run: "run_state (AdminHandler_DeleteUser u) s = (r, s')"
  shows "sound_store s' \<and>
    (if \<exists>t. (t, u) \<in> set (leaders_table s) \<and> (\<forall>v. (t, v) \<in> set (leaders_table s) \<longrightarrow> v = u)
     then status r = 400 \<and> s' = s
     else status r = 200 \<and> org_of s' = spec_delete_user u (org_of s))"
proof -
  note ss = sound_storeD [OF s]
  let ?ts = "map (team_view s) [t. t \<leftarrow> teams_table s, p \<leftarrow> members_table s, tr_id t = fst p \<and> snd p = u]"
  have dl: "distinct (leaders_table s)" and fl: "fst ` set (leaders_table s) \<subseteq> team_ids s"
    using ss(2) by (simp_all add: schema_ok_def teams_ok_def links_ok_def)
  have ts: "set ?ts = team_view s ` {tr \<in> set (teams_table s). (tr_id tr, u) \<in> set (members_table s)}"
    by (rule set_eqI) (force split: if_splits)
  have sole: "length (linked (leaders_table s) t) = 1 \<longleftrightarrow> (\<forall>v. (t, v) \<in> set (leaders_table s) \<longrightarrow> v = u)"
    if "(t, u) \<in> set (leaders_table s)" for t
    using that dl by (rule linked_only)
  have "only_leader_of u ?ts \<noteq> None \<longleftrightarrow>
      (\<exists>tr\<in>set (teams_table s). (tr_id tr, u) \<in> set (members_table s) \<and>
        (tr_id tr, u) \<in> set (leaders_table s) \<and> length (linked (leaders_table s) (tr_id tr)) = 1)"
    unfolding only_leader_of_def find_not_None ts by simp blast
  also have "\<dots> \<longleftrightarrow> (\<exists>t. (t, u) \<in> set (leaders_table s) \<and> (\<forall>v. (t, v) \<in> set (leaders_table s) \<longrightarrow> v = u))"
  proof -
    have "\<exists>tr\<in>set (teams_table s). tr_id tr = t" if "(t, u) \<in> set (leaders_table s)" for t
      using fl that by (force simp: team_ids_def)
    moreover have "(t, u) \<in> set (members_table s)" if "(t, u) \<in> set (leaders_table s)" for t
      using ok that by (auto simp: org_ok_def leaders_among_members_def)
    ultimately show ?thesis using sole by metis
  qed
  finally have only: "only_leader_of u ?ts \<noteq> None \<longleftrightarrow>
    (\<exists>t. (t, u) \<in> set (leaders_table s) \<and> (\<forall>v. (t, v) \<in> set (leaders_table s) \<longrightarrow> v = u))" .
  obtain s1 where s1: "sql_delete_account u s = Inr s1"
    by (simp add: sql_delete_account_def)
  obtain s2 where s2: "sql_delete_user u s1 = Inr s2"
    by (simp add: sql_delete_user_def)
  have h1: "healthy s1"
    using ss(1) sql_faults(8) [OF s1] by (simp add: healthy_def)
  show ?thesis
  proof (cases "only_leader_of u ?ts")
    case None
    then have "s' = s2" "status r = 200"
      using run ss(1) h1 s1 s2
      by (auto simp: AdminHandler_DeleteUser_def AccountRepo_Delete_def UserRepo_Delete_def run_rules)
    with None only org_delete_user [OF s s1 s2] show ?thesis by simp
  next
    case (Some t)
    then have "s' = s" "status r = 400"
      using run ss(1) by (auto simp: AdminHandler_DeleteUser_def run_rules)
    with Some only s show ?thesis by simp
  qed
qed

end
