(* ===== verification/Seed.thy ===== *)
theory Seed
  imports Admin_Steps
begin

text \<open>
  The demonstration data of the migrations \<open>002_seed_demo_data.sql\<close> and
  \<open>004_add_team_leaders.sql\<close>, as the store they leave behind. It satisfies the constraints, the
  conditions of the refinement and the rules of the organisation, and it is the store on which
  the concrete instances of the theorems run.
\<close>

definition demo_hash :: string where
  "demo_hash = ''$2a$10$O3RpMvpbcSp0O62mvMfenuXfY243t61X97TmNniwCNfIqorxc4RFW''"

definition seeded :: db where
  "seeded = \<lparr>
     users_table = [
       \<lparr>ur_id = ''u-alice'', ur_username = ''alice'', ur_display_name = ''Alice Johnson'',
         ur_email = ''alice@example.com'', ur_avatar_url = ''''\<rparr>,
       \<lparr>ur_id = ''u-bob'', ur_username = ''bob'', ur_display_name = ''Bob Smith'',
         ur_email = ''bob@example.com'', ur_avatar_url = ''''\<rparr>,
       \<lparr>ur_id = ''u-carol'', ur_username = ''carol'', ur_display_name = ''Carol Davis'',
         ur_email = ''carol@example.com'', ur_avatar_url = ''''\<rparr>,
       \<lparr>ur_id = ''u-admin'', ur_username = ''admin'', ur_display_name = ''Administrator'',
         ur_email = ''admin@example.com'', ur_avatar_url = ''''\<rparr>],
     platform_table = [
       \<lparr>pr_user_id = ''u-alice'', pr_platform = ''GITHUB'', pr_username = ''alice-gh''\<rparr>,
       \<lparr>pr_user_id = ''u-bob'', pr_platform = ''GITHUB'', pr_username = ''bob-gh''\<rparr>,
       \<lparr>pr_user_id = ''u-carol'', pr_platform = ''GITHUB'', pr_username = ''carol-gh''\<rparr>],
     accounts_table = [
       \<lparr>ar_id = ''a-alice'', ar_username = ''alice'', ar_password_hash = demo_hash,
         ar_roles = [RoleTeamMember], ar_user_id = ''u-alice''\<rparr>,
       \<lparr>ar_id = ''a-bob'', ar_username = ''bob'', ar_password_hash = demo_hash,
         ar_roles = [RoleTeamMember], ar_user_id = ''u-bob''\<rparr>,
       \<lparr>ar_id = ''a-carol'', ar_username = ''carol'', ar_password_hash = demo_hash,
         ar_roles = [RoleTeamMember, RoleTeamLeader], ar_user_id = ''u-carol''\<rparr>,
       \<lparr>ar_id = ''a-admin'', ar_username = ''admin'', ar_password_hash = demo_hash,
         ar_roles = [RoleAdmin], ar_user_id = ''u-admin''\<rparr>],
     teams_table = [\<lparr>tr_id = ''t-eng'', tr_name = ''Engineering''\<rparr>],
     members_table = [(''t-eng'', ''u-alice''), (''t-eng'', ''u-bob''), (''t-eng'', ''u-carol'')],
     leaders_table = [(''t-eng'', ''u-carol'')],
     team_repos_table = [(''t-eng'', ''r-ct''), (''t-eng'', ''r-api'')],
     repos_table = [
       \<lparr>rr_id = ''r-ct'', rr_name = ''contribution-tracker'', rr_full_name = ''myorg/contribution-tracker'',
         rr_url = ''https://github.com/myorg/contribution-tracker'', rr_platform = ''GITHUB'',
         rr_api_token = ''''\<rparr>,
       \<lparr>rr_id = ''r-api'', rr_name = ''api-service'', rr_full_name = ''myorg/api-service'',
         rr_url = ''https://github.com/myorg/api-service'', rr_platform = ''GITHUB'',
         rr_api_token = ''''\<rparr>],
     config_table = [], faults = []\<rparr>"

lemma seeded_tables:
  "users_table seeded = [
       \<lparr>ur_id = ''u-alice'', ur_username = ''alice'', ur_display_name = ''Alice Johnson'',
         ur_email = ''alice@example.com'', ur_avatar_url = ''''\<rparr>,
       \<lparr>ur_id = ''u-bob'', ur_username = ''bob'', ur_display_name = ''Bob Smith'',
         ur_email = ''bob@example.com'', ur_avatar_url = ''''\<rparr>,
       \<lparr>ur_id = ''u-carol'', ur_username = ''carol'', ur_display_name = ''Carol Davis'',
         ur_email = ''carol@example.com'', ur_avatar_url = ''''\<rparr>,
       \<lparr>ur_id = ''u-admin'', ur_username = ''admin'', ur_display_name = ''Administrator'',
         ur_email = ''admin@example.com'', ur_avatar_url = ''''\<rparr>]"
  "platform_table seeded = [
       \<lparr>pr_user_id = ''u-alice'', pr_platform = ''GITHUB'', pr_username = ''alice-gh''\<rparr>,
       \<lparr>pr_user_id = ''u-bob'', pr_platform = ''GITHUB'', pr_username = ''bob-gh''\<rparr>,
       \<lparr>pr_user_id = ''u-carol'', pr_platform = ''GITHUB'', pr_username = ''carol-gh''\<rparr>]"
  "accounts_table seeded = [
       \<lparr>ar_id = ''a-alice'', ar_username = ''alice'', ar_password_hash = demo_hash,
         ar_roles = [RoleTeamMember], ar_user_id = ''u-alice''\<rparr>,
       \<lparr>ar_id = ''a-bob'', ar_username = ''bob'', ar_password_hash = demo_hash,
         ar_roles = [RoleTeamMember], ar_user_id = ''u-bob''\<rparr>,
       \<lparr>ar_id = ''a-carol'', ar_username = ''carol'', ar_password_hash = demo_hash,
         ar_roles = [RoleTeamMember, RoleTeamLeader], ar_user_id = ''u-carol''\<rparr>,
       \<lparr>ar_id = ''a-admin'', ar_username = ''admin'', ar_password_hash = demo_hash,
         ar_roles = [RoleAdmin], ar_user_id = ''u-admin''\<rparr>]"
  "teams_table seeded = [\<lparr>tr_id = ''t-eng'', tr_name = ''Engineering''\<rparr>]"
  "members_table seeded = [(''t-eng'', ''u-alice''), (''t-eng'', ''u-bob''), (''t-eng'', ''u-carol'')]"
  "leaders_table seeded = [(''t-eng'', ''u-carol'')]"
  "team_repos_table seeded = [(''t-eng'', ''r-ct''), (''t-eng'', ''r-api'')]"
  "repos_table seeded = [
       \<lparr>rr_id = ''r-ct'', rr_name = ''contribution-tracker'', rr_full_name = ''myorg/contribution-tracker'',
         rr_url = ''https://github.com/myorg/contribution-tracker'', rr_platform = ''GITHUB'',
         rr_api_token = ''''\<rparr>,
       \<lparr>rr_id = ''r-api'', rr_name = ''api-service'', rr_full_name = ''myorg/api-service'',
         rr_url = ''https://github.com/myorg/api-service'', rr_platform = ''GITHUB'',
         rr_api_token = ''''\<rparr>]"
  "config_table seeded = []" "faults seeded = []"
  by (simp_all add: seeded_def)

lemma healthy_seeded [simp]: "healthy seeded"
  by (simp add: healthy_def seeded_def)

lemma schema_seeded [simp]: "schema_ok seeded"
  by (simp add: schema_ok_def schema_parts links_ok_def id_set_defs seeded_def)

lemma sound_seeded [simp]: "sound_store seeded"
  by (simp add: sound_store_def accounts_regular_def) (simp add: seeded_def role_defs)

lemma org_seeded:
  "org_teams (org_of seeded) = {''t-eng''}"
  "org_members (org_of seeded) = {(''t-eng'', ''u-alice''), (''t-eng'', ''u-bob''), (''t-eng'', ''u-carol'')}"
  "org_leaders (org_of seeded) = {(''t-eng'', ''u-carol'')}"
  "org_roles (org_of seeded) u =
     (if u = ''u-alice'' \<or> u = ''u-bob'' then Some {RoleTeamMember}
      else if u = ''u-carol'' then Some {RoleTeamMember, RoleTeamLeader}
      else if u = ''u-admin'' then Some {RoleAdmin} else None)"
  by (auto simp: team_ids_def roles_of_def seeded_def)

lemma org_ok_seeded [simp]: "org_ok (org_of seeded)"
  unfolding org_rule_defs org_seeded by (auto simp: role_defs split: if_splits)

section \<open>A concrete environment\<close>

text \<open>
  An environment for concrete runs: three tokens, one for each kind of caller; a hash function
  that keeps the password in the hash, beside the stored hash of the demonstration accounts; and
  an order of texts by character codes.
\<close>

definition demo_claims :: "string \<Rightarrow> string list \<Rightarrow> jwt_claims" where
  "demo_claims aid rs = \<lparr>claim_sub = Some aid, claim_roles = Some (map Some rs),
     claim_exp = 86400, claim_iat = 0\<rparr>"

definition demo_tokens :: "(jwt_claims \<times> string) list" where
  "demo_tokens = [
     (demo_claims ''a-admin'' [RoleAdmin], ''token-admin''),
     (demo_claims ''a-carol'' [RoleTeamMember, RoleTeamLeader], ''token-carol''),
     (demo_claims ''a-alice'' [RoleTeamMember], ''token-alice'')]"

fun text_le :: "string \<Rightarrow> string \<Rightarrow> bool" where
  "text_le [] ys = True"
| "text_le (x # xs) [] = False"
| "text_le (x # xs) (y # ys) =
     ((of_char x :: nat) < of_char y \<or> (of_char x = (of_char y :: nat) \<and> text_le xs ys))"

fun demo_driver_text :: "db_error \<Rightarrow> string" where
  "demo_driver_text No_Rows = ''no rows in result set''"
| "demo_driver_text (Unique_Violation c) = ''ERROR: duplicate key value violates unique constraint '' @ c"
| "demo_driver_text (Foreign_Key_Violation c) = ''ERROR: insert or update violates foreign key constraint '' @ c"
| "demo_driver_text (Not_Null_Violation c) = ''ERROR: null value in column '' @ c"
| "demo_driver_text (Driver_Fault m) = m"

definition demo_env :: env where
  "demo_env = \<lparr>
     drv_text = demo_driver_text,
     unicode_upper = id,
     collate = text_le,
     iter = (\<lambda>n. [0..<n]),
     bcrypt_hash = (\<lambda>pw. if length pw \<le> 72 then Some (''hash of '' @ pw) else None),
     bcrypt_compare = (\<lambda>h pw. h = ''hash of '' @ pw \<or> (h = demo_hash \<and> pw = ''secret'')),
     jwt_sign = (\<lambda>k c. if k = ''key''
       then (case map_of demo_tokens c of Some t \<Rightarrow> Inr t | None \<Rightarrow> Inl (Msg ''unsupported claims''))
       else Inl (Msg ''unsupported key'')),
     jwt_parse = (\<lambda>t kf time. case List.find (\<lambda>p. snd p = t) demo_tokens of
         Some (c, _) \<Rightarrow> if kf HMAC = Some ''key'' \<and> time < claim_exp c then Some c else None
       | None \<Rightarrow> None),
     now = 0,
     jwt_secret = ''key''\<rparr>"

lemma iteration_identity [simp]: "iteration_ok (\<lambda>n. [0..<n])"
  by (simp add: iteration_ok_def)

lemma demo_env_simps [simp]:
  "iter demo_env = (\<lambda>n. [0..<n])" "now demo_env = 0" "jwt_secret demo_env = ''key''"
  "collate demo_env = text_le" "drv_text demo_env = demo_driver_text"
  by (simp_all add: demo_env_def)

lemma range_order_identity [simp]: "range_order (\<lambda>n. [0..<n]) xs = xs"
  by (simp add: range_order_def map_nth)

lemma jwt_law_demo: "jwt_law demo_env"
  by (auto simp: jwt_law_def demo_env_def demo_tokens_def split: if_splits)

text \<open>Carol, who leads the team, logs in.\<close>

definition carol_row :: account_row where
  "carol_row = \<lparr>ar_id = ''a-carol'', ar_username = ''carol'', ar_password_hash = demo_hash,
    ar_roles = [RoleTeamMember, RoleTeamLeader], ar_user_id = ''u-carol''\<rparr>"

definition carol_token :: auth_token where
  "carol_token = \<lparr>token_text = ''token-carol'', token_expires_at = now demo_env + token_lifetime,
    token_account_id = ar_id carol_row, token_roles = stringsToRoles (ar_roles carol_row)\<rparr>"

lemma carol_facts:
  "carol_row \<in> set (accounts_table seeded)" "ar_id carol_row = ''a-carol''"
  "ar_user_id carol_row = ''u-carol''" "set (ar_roles carol_row) = {RoleTeamMember, RoleTeamLeader}"
  by (simp_all add: carol_row_def seeded_tables)

lemma carol_logs_in:
  "run_state (AuthService_Login demo_env (ar_username carol_row) ''secret'') seeded = (Inr carol_token, seeded)"
  unfolding carol_token_def
proof (rule Login_ok [OF healthy_seeded schema_seeded carol_facts(1)])
  show "bcrypt_compare demo_env (ar_password_hash carol_row) ''secret''"
    by (simp add: demo_env_def carol_row_def)
  show "jwt_sign demo_env (jwt_secret demo_env) \<lparr>claim_sub = Some (ar_id carol_row),
      claim_roles = Some (map Some (RoleList (iter demo_env) (scanAccount carol_row))),
      claim_exp = now demo_env + token_lifetime, claim_iat = now demo_env\<rparr> = Inr ''token-carol''"
    by (simp add: demo_env_def demo_tokens_def demo_claims_def RoleList_def range_order_def
        stringsToRoles_def token_lifetime_def role_defs carol_row_def)
qed

end
