(* ===== verification/Ports.thy ===== *)
theory Ports
  imports Streaming Backup
begin

text \<open>
  The ports of the program (\<open>application/ports.go\<close>): every interface is a record of operations over
  an arbitrary state \<open>'s\<close>, a value of the interface is a value of the record. The adapters of
  \<open>infrastructure/persistence\<close> are the values over the store \<open>db\<close> that their constructors give; what
  they share, the connection pool, is the store itself. The two fetcher ports are \<open>fetcher\<close> and
  \<open>fetcher_factory\<close> of \<open>Fetching\<close>.
\<close>

section \<open>Service ports\<close>

record 's auth_service_port =
  asp_Login :: "string \<Rightarrow> string \<Rightarrow> ('s, app_error + auth_token) state"
  asp_Validate :: "string \<Rightarrow> ('s, app_error + auth_context) state"

record 's report_service_port =
  rsp_GenerateReport :: "report_query \<Rightarrow> ('s, report_event list \<times> ending) state"

record 's backup_service_port =
  bsp_Export :: "('s, backup_file result) state"
  bsp_Restore :: "backup_file \<Rightarrow> ('s, unit result) state"

section \<open>Persistence ports\<close>

record 's user_account_repository =
  uar_FindByUsername :: "string \<Rightarrow> ('s, user_account result) state"
  uar_FindByID :: "string \<Rightarrow> ('s, user_account result) state"
  uar_Save :: "user_account \<Rightarrow> ('s, unit result) state"
  uar_Delete :: "string \<Rightarrow> ('s, unit result) state"
  uar_FindAll :: "('s, user_account list result) state"

record 's user_repository =
  usr_FindByID :: "string \<Rightarrow> ('s, user result) state"
  usr_FindByIDs :: "string list \<Rightarrow> ('s, user list result) state"
  usr_FindByAccountID :: "string \<Rightarrow> ('s, user result) state"
  usr_UpdatePlatformUsername :: "string \<Rightarrow> git_platform \<Rightarrow> string \<Rightarrow> ('s, unit result) state"
  usr_FindAll :: "('s, user list result) state"
  usr_Save :: "user \<Rightarrow> ('s, unit result) state"
  usr_Delete :: "string \<Rightarrow> ('s, unit result) state"

record 's team_repository =
  tmr_FindByID :: "string \<Rightarrow> ('s, team result) state"
  tmr_FindByMemberID :: "string \<Rightarrow> ('s, team list result) state"
  tmr_Save :: "team \<Rightarrow> ('s, unit result) state"
  tmr_FindAll :: "('s, team list result) state"
  tmr_AddRepository :: "string \<Rightarrow> string \<Rightarrow> ('s, unit result) state"
  tmr_RemoveRepository :: "string \<Rightarrow> string \<Rightarrow> ('s, unit result) state"
  tmr_AddMember :: "string \<Rightarrow> string \<Rightarrow> ('s, unit result) state"
  tmr_RemoveMember :: "string \<Rightarrow> string \<Rightarrow> ('s, unit result) state"
  tmr_AddLeader :: "string \<Rightarrow> string \<Rightarrow> ('s, unit result) state"
  tmr_RemoveLeader :: "string \<Rightarrow> string \<Rightarrow> ('s, unit result) state"
  tmr_Delete :: "string \<Rightarrow> ('s, unit result) state"

record 's repository_store =
  rps_FindByID :: "string \<Rightarrow> ('s, repository result) state"
  rps_FindByIDs :: "string list \<Rightarrow> ('s, repository list result) state"
  rps_Save :: "repository \<Rightarrow> ('s, unit result) state"
  rps_Upsert :: "repository \<Rightarrow> ('s, repository result) state"
  rps_FindAll :: "('s, repository list result) state"

record 's config_repository =
  cfr_Get :: "string \<Rightarrow> ('s, string result) state"
  cfr_Set :: "string \<Rightarrow> string \<Rightarrow> ('s, unit result) state"
  cfr_FindAll :: "('s, (string, string) go_map result) state"

record 's backup_repository =
  bkr_Export :: "('s, backup_file result) state"
  bkr_Restore :: "backup_file \<Rightarrow> ('s, unit result) state"

section \<open>The adapters of the persistence layer\<close>

definition NewPgxUserAccountRepo :: "env \<Rightarrow> db user_account_repository" where
  "NewPgxUserAccountRepo E = \<lparr>uar_FindByUsername = AccountRepo_FindByUsername,
     uar_FindByID = AccountRepo_FindByID, uar_Save = AccountRepo_Save E,
     uar_Delete = AccountRepo_Delete, uar_FindAll = AccountRepo_FindAll E\<rparr>"

definition NewPgxUserRepo :: "env \<Rightarrow> db user_repository" where
  "NewPgxUserRepo E = \<lparr>usr_FindByID = UserRepo_FindByID, usr_FindByIDs = UserRepo_FindByIDs,
     usr_FindByAccountID = UserRepo_FindByAccountID,
     usr_UpdatePlatformUsername = UserRepo_UpdatePlatformUsername,
     usr_FindAll = UserRepo_FindAll E, usr_Save = UserRepo_Save, usr_Delete = UserRepo_Delete\<rparr>"

definition NewPgxTeamRepo :: "env \<Rightarrow> db team_repository" where
  "NewPgxTeamRepo E = \<lparr>tmr_FindByID = TeamRepo_FindByID, tmr_FindByMemberID = TeamRepo_FindByMemberID,
     tmr_Save = TeamRepo_Save, tmr_FindAll = TeamRepo_FindAll E,
     tmr_AddRepository = TeamRepo_AddRepository, tmr_RemoveRepository = TeamRepo_RemoveRepository,
     tmr_AddMember = TeamRepo_AddMember, tmr_RemoveMember = TeamRepo_RemoveMember,
     tmr_AddLeader = TeamRepo_AddLeader, tmr_RemoveLeader = TeamRepo_RemoveLeader,
     tmr_Delete = TeamRepo_Delete\<rparr>"

definition NewPgxRepositoryStore :: "env \<Rightarrow> db repository_store" where
  "NewPgxRepositoryStore E = \<lparr>rps_FindByID = RepoStore_FindByID, rps_FindByIDs = RepoStore_FindByIDs,
     rps_Save = RepoStore_Save, rps_Upsert = RepoStore_Upsert, rps_FindAll = RepoStore_FindAll E\<rparr>"

definition NewPgxConfigRepo :: "env \<Rightarrow> db config_repository" where
  "NewPgxConfigRepo E = \<lparr>cfr_Get = ConfigRepo_Get, cfr_Set = ConfigRepo_Set,
     cfr_FindAll = ConfigRepo_FindAll E\<rparr>"

definition NewPgxBackupRepo :: "env \<Rightarrow> db backup_repository" where
  "NewPgxBackupRepo E = \<lparr>bkr_Export = BackupRepo_Export E, bkr_Restore = BackupRepo_Restore E\<rparr>"

text \<open>What a call through a port reaches.\<close>

named_theorems injected "calls through ports, as calls of the code behind them"

lemma pgx_account_calls [injected]:
  "uar_FindByUsername (NewPgxUserAccountRepo E) = AccountRepo_FindByUsername"
  "uar_FindByID (NewPgxUserAccountRepo E) = AccountRepo_FindByID"
  "uar_Save (NewPgxUserAccountRepo E) = AccountRepo_Save E"
  "uar_Delete (NewPgxUserAccountRepo E) = AccountRepo_Delete"
  "uar_FindAll (NewPgxUserAccountRepo E) = AccountRepo_FindAll E"
  by (simp_all add: NewPgxUserAccountRepo_def)

lemma pgx_user_calls [injected]:
  "usr_FindByID (NewPgxUserRepo E) = UserRepo_FindByID"
  "usr_FindByIDs (NewPgxUserRepo E) = UserRepo_FindByIDs"
  "usr_FindByAccountID (NewPgxUserRepo E) = UserRepo_FindByAccountID"
  "usr_UpdatePlatformUsername (NewPgxUserRepo E) = UserRepo_UpdatePlatformUsername"
  "usr_FindAll (NewPgxUserRepo E) = UserRepo_FindAll E"
  "usr_Save (NewPgxUserRepo E) = UserRepo_Save"
  "usr_Delete (NewPgxUserRepo E) = UserRepo_Delete"
  by (simp_all add: NewPgxUserRepo_def)

lemma pgx_team_calls [injected]:
  "tmr_FindByID (NewPgxTeamRepo E) = TeamRepo_FindByID"
  "tmr_FindByMemberID (NewPgxTeamRepo E) = TeamRepo_FindByMemberID"
  "tmr_Save (NewPgxTeamRepo E) = TeamRepo_Save"
  "tmr_FindAll (NewPgxTeamRepo E) = TeamRepo_FindAll E"
  "tmr_AddRepository (NewPgxTeamRepo E) = TeamRepo_AddRepository"
  "tmr_RemoveRepository (NewPgxTeamRepo E) = TeamRepo_RemoveRepository"
  "tmr_AddMember (NewPgxTeamRepo E) = TeamRepo_AddMember"
  "tmr_RemoveMember (NewPgxTeamRepo E) = TeamRepo_RemoveMember"
  "tmr_AddLeader (NewPgxTeamRepo E) = TeamRepo_AddLeader"
  "tmr_RemoveLeader (NewPgxTeamRepo E) = TeamRepo_RemoveLeader"
  "tmr_Delete (NewPgxTeamRepo E) = TeamRepo_Delete"
  by (simp_all add: NewPgxTeamRepo_def)

lemma pgx_store_calls [injected]:
  "rps_FindByID (NewPgxRepositoryStore E) = RepoStore_FindByID"
  "rps_FindByIDs (NewPgxRepositoryStore E) = RepoStore_FindByIDs"
  "rps_Save (NewPgxRepositoryStore E) = RepoStore_Save"
  "rps_Upsert (NewPgxRepositoryStore E) = RepoStore_Upsert"
  "rps_FindAll (NewPgxRepositoryStore E) = RepoStore_FindAll E"
  by (simp_all add: NewPgxRepositoryStore_def)

lemma pgx_config_calls [injected]:
  "cfr_Get (NewPgxConfigRepo E) = ConfigRepo_Get"
  "cfr_Set (NewPgxConfigRepo E) = ConfigRepo_Set"
  "cfr_FindAll (NewPgxConfigRepo E) = ConfigRepo_FindAll E"
  by (simp_all add: NewPgxConfigRepo_def)

lemma pgx_backup_calls [injected]:
  "bkr_Export (NewPgxBackupRepo E) = BackupRepo_Export E"
  "bkr_Restore (NewPgxBackupRepo E) = BackupRepo_Restore E"
  by (simp_all add: NewPgxBackupRepo_def)

end
