(* ===== verification/Services.thy ===== *)
theory Services
  imports Ports
begin

text \<open>
  The services of \<open>internal/application\<close> as the code has them: a struct of ports that a constructor
  fills, and methods that reach the store through these ports only. Over the adapters of \<open>Ports\<close> a
  method is the one that the other theories model over the store directly (\<open>injected\<close>). The locale
  \<open>account_directory\<close> is what the authentication service relies on; its facts hold of any accounts
  that keep it.
\<close>

section \<open>The authentication service\<close>

record 's auth_service =
  svc_accounts :: "'s user_account_repository"
  svc_users :: "'s user_repository"
  svc_teams :: "'s team_repository"
  svc_jwtSecret :: string

definition NewAuthService ::
    "'s user_account_repository \<Rightarrow> 's user_repository \<Rightarrow> 's team_repository \<Rightarrow> string \<Rightarrow> 's auth_service" where
  "NewAuthService accounts users teams jwtSecret =
     \<lparr>svc_accounts = accounts, svc_users = users, svc_teams = teams, svc_jwtSecret = jwtSecret\<rparr>"

definition Login_of :: "env \<Rightarrow> 's auth_service \<Rightarrow> string \<Rightarrow> string \<Rightarrow> ('s, app_error + auth_token) state" where
  "Login_of E s username password = do {
     r \<leftarrow> uar_FindByUsername (svc_accounts s) username;
     State_Monad.return (case r of
       Inl err \<Rightarrow> Inl (NewUnauthorizedError ''invalid credentials'')
     | Inr account \<Rightarrow>
         if \<not> bcrypt_compare E (account_password_hash account) password
         then Inl (NewUnauthorizedError ''invalid credentials'')
         else
           let expiresAt = now E + token_lifetime;
               roleStrings = map fst (range_order (iter E) (account_roles account));
               claims = \<lparr>claim_sub = Some (account_id account),
                 claim_roles = Some (map Some roleStrings),
                 claim_exp = expiresAt, claim_iat = now E\<rparr>
           in (case jwt_sign E (svc_jwtSecret s) claims of
                 Inl err \<Rightarrow> Inl (NewInternalError ''failed to sign token'' (Some err))
               | Inr tokenStr \<Rightarrow> Inr \<lparr>token_text = tokenStr, token_expires_at = expiresAt,
                   token_account_id = account_id account, token_roles = account_roles account\<rparr>))
   }"

definition key_of :: "'s auth_service \<Rightarrow> signing_method \<Rightarrow> string option" where
  "key_of s m = (case m of HMAC \<Rightarrow> Some (svc_jwtSecret s) | Other_Method x \<Rightarrow> None)"

definition Validate_of :: "env \<Rightarrow> 's auth_service \<Rightarrow> string \<Rightarrow> ('s, app_error + auth_context) state" where
  "Validate_of E s tokenStr =
     (case jwt_parse E tokenStr (key_of s) (now E) of
        None \<Rightarrow> State_Monad.return (Inl (NewUnauthorizedError ''invalid token''))
      | Some claims \<Rightarrow>
          let accountID = (case claim_sub claims of None \<Rightarrow> [] | Some sub \<Rightarrow> sub) in
          if accountID = [] then State_Monad.return (Inl (NewUnauthorizedError ''missing subject''))
          else do {
            r \<leftarrow> uar_FindByID (svc_accounts s) accountID;
            case r of
              Inl err \<Rightarrow> State_Monad.return (Inl (NewUnauthorizedError ''account not found''))
            | Inr account \<Rightarrow> do {
                ru \<leftarrow> usr_FindByAccountID (svc_users s) accountID;
                State_Monad.return (case ru of
                  Inl err \<Rightarrow> Inl (NewUnauthorizedError ''user not found'')
                | Inr user \<Rightarrow> Inr \<lparr>ctx_account_id = account_id account, ctx_user_id = user_id user,
                    ctx_roles = claimed_roles claims\<rparr>)
              }
          })"

text \<open>The service as a value of its port.\<close>

definition auth_port :: "env \<Rightarrow> 's auth_service \<Rightarrow> 's auth_service_port" where
  "auth_port E s = \<lparr>asp_Login = Login_of E s, asp_Validate = Validate_of E s\<rparr>"

lemma auth_service_injected [injected]:
  "Login_of E (NewAuthService (NewPgxUserAccountRepo E') (NewPgxUserRepo E') teams (jwt_secret E)) =
     AuthService_Login E"
  "Validate_of E (NewAuthService (NewPgxUserAccountRepo E') (NewPgxUserRepo E') teams (jwt_secret E)) =
     AuthService_Validate E"
proof -
  have key: "key_of (NewAuthService (NewPgxUserAccountRepo E') (NewPgxUserRepo E') teams (jwt_secret E)) =
      validate_key E"
    by (rule ext) (simp add: key_of_def validate_key_def NewAuthService_def split: signing_method.split)
  show "Login_of E (NewAuthService (NewPgxUserAccountRepo E') (NewPgxUserRepo E') teams (jwt_secret E)) =
      AuthService_Login E"
    unfolding Login_of_def AuthService_Login_def NewAuthService_def auth_service.select_convs injected RoleList_def
    by (rule refl)
  show "Validate_of E (NewAuthService (NewPgxUserAccountRepo E') (NewPgxUserRepo E') teams (jwt_secret E)) =
      AuthService_Validate E"
    unfolding Validate_of_def AuthService_Validate_def key
    unfolding NewAuthService_def auth_service.select_convs injected by (rule refl)
qed

section \<open>The backup service\<close>

record 's backup_service =
  bsv_backupRepo :: "'s backup_repository"

definition NewBackupService :: "'s backup_repository \<Rightarrow> 's backup_service" where
  "NewBackupService backupRepo = \<lparr>bsv_backupRepo = backupRepo\<rparr>"

definition backup_port :: "'s backup_service \<Rightarrow> 's backup_service_port" where
  "backup_port s = \<lparr>bsp_Export = bkr_Export (bsv_backupRepo s), bsp_Restore = bkr_Restore (bsv_backupRepo s)\<rparr>"

lemma backup_service_injected [injected]:
  "bsp_Export (backup_port (NewBackupService (NewPgxBackupRepo E))) = BackupService_Export E"
  "bsp_Restore (backup_port (NewBackupService (NewPgxBackupRepo E))) = BackupService_Restore E"
  by (auto simp: backup_port_def NewBackupService_def injected BackupService_Export_def BackupService_Restore_def)

section \<open>The report service\<close>

record 's report_service =
  rsv_users :: "'s user_repository"
  rsv_teams :: "'s team_repository"
  rsv_repos :: "'s repository_store"
  rsv_registry :: fetcher_registry

definition NewReportService ::
    "'s user_repository \<Rightarrow> 's team_repository \<Rightarrow> 's repository_store \<Rightarrow> fetcher_registry \<Rightarrow> 's report_service" where
  "NewReportService users teams repos registry =
     \<lparr>rsv_users = users, rsv_teams = teams, rsv_repos = repos, rsv_registry = registry\<rparr>"

definition upsert_discovered_of :: "'s report_service \<Rightarrow> fetcher \<Rightarrow> string \<Rightarrow> ('s, unit outcome) state" where
  "upsert_discovered_of s f username =
     (case f_discover f of
        None \<Rightarrow> State_Monad.return (Returned ())
      | Some discover \<Rightarrow>
          (case discover username of
             Panicked \<Rightarrow> State_Monad.return Panicked
           | Diverged \<Rightarrow> State_Monad.return Diverged
           | Returned (Inl err) \<Rightarrow> State_Monad.return (Returned ())
           | Returned (Inr discovered) \<Rightarrow> do {
               _ \<leftarrow> do_each (rps_Upsert (rsv_repos s)) discovered;
               State_Monad.return (Returned ())
             }))"

fun start_groups_of ::
    "'s report_service \<Rightarrow> user \<Rightarrow> report_query \<Rightarrow> fetcher_group list
      \<Rightarrow> ('s, activity call list list outcome) state" where
  "start_groups_of s member q [] = State_Monad.return (Returned [])"
| "start_groups_of s member q (g # gs) =
     (case registry_Build (rsv_registry s) (group_platform g) (group_token g) of
        Inl err \<Rightarrow> start_groups_of s member q gs
      | Inr f \<Rightarrow> do {
          let username = GetPlatformUsername member (group_platform g);
          d \<leftarrow> upsert_discovered_of s f username;
          case d of
            Panicked \<Rightarrow> State_Monad.return Panicked
          | Diverged \<Rightarrow> State_Monad.return Diverged
          | Returned _ \<Rightarrow> do {
              rest \<leftarrow> start_groups_of s member q gs;
              State_Monad.return (case rest of
                Returned calls \<Rightarrow> Returned (member_calls f (group_repos g) username q # calls)
              | Panicked \<Rightarrow> Panicked
              | Diverged \<Rightarrow> Diverged)
            }
        })"

definition fetchMemberReport_of ::
    "env \<Rightarrow> 's report_service \<Rightarrow> nat list \<Rightarrow> user \<Rightarrow> fetcher_group list \<Rightarrow> report_query
      \<Rightarrow> ('s, user_report outcome) state" where
  "fetchMemberReport_of E s sched member groups q = do {
     started \<leftarrow> start_groups_of s member q groups;
     State_Monad.return (case started of
       Panicked \<Rightarrow> Panicked
     | Diverged \<Rightarrow> Diverged
     | Returned calls \<Rightarrow>
         (case pool_outcome (wait_all sched (spawn calls)) of
            Panicked \<Rightarrow> Panicked
          | Diverged \<Rightarrow> Diverged
          | Returned activities \<Rightarrow> Returned \<lparr>report_user = member,
              report_counts = buildActivityCounts (iter E) activities,
              report_activities = activities\<rparr>))
   }"

fun send_reports_of ::
    "env \<Rightarrow> 's report_service \<Rightarrow> (nat \<Rightarrow> nat list) \<Rightarrow> nat \<Rightarrow> fetcher_group list \<Rightarrow> report_query
      \<Rightarrow> user list \<Rightarrow> ('s, report_event list \<times> ending) state" where
  "send_reports_of E s scheds n groups q [] = State_Monad.return ([ReportCompleteEvent], Closed)"
| "send_reports_of E s scheds n groups q (m # ms) = do {
     r \<leftarrow> fetchMemberReport_of E s (scheds n) m groups q;
     case r of
       Panicked \<Rightarrow> State_Monad.return ([], Crashed)
     | Diverged \<Rightarrow> State_Monad.return ([], Hangs)
     | Returned report \<Rightarrow> do {
         (events, e) \<leftarrow> send_reports_of E s scheds (Suc n) groups q ms;
         State_Monad.return (UserReportEvent report # events, e)
       }
   }"

definition GenerateReport_of ::
    "env \<Rightarrow> 's report_service \<Rightarrow> (nat \<Rightarrow> nat list) \<Rightarrow> report_query
      \<Rightarrow> ('s, report_event list \<times> ending) state" where
  "GenerateReport_of E s scheds q = do {
     rt \<leftarrow> tmr_FindByID (rsv_teams s) (query_team_id q);
     case rt of
       Inl err \<Rightarrow> State_Monad.return (error_event E ''team not found'' err)
     | Inr team \<Rightarrow> do {
         rm \<leftarrow> usr_FindByIDs (rsv_users s) (report_member_ids q team);
         case rm of
           Inl err \<Rightarrow> State_Monad.return (error_event E ''failed to load members'' err)
         | Inr members \<Rightarrow> do {
             rr \<leftarrow> rps_FindByIDs (rsv_repos s) (team_repository_ids team);
             case rr of
               Inl err \<Rightarrow> State_Monad.return (error_event E ''failed to load repos'' err)
             | Inr repos \<Rightarrow>
                 send_reports_of E s scheds 0 (report_groups (iter E) repos) q members
           }
       }
   }"

definition service_of_reports :: "env \<Rightarrow> (nat \<Rightarrow> nat list) \<Rightarrow> 's report_service \<Rightarrow> 's report_service_port" where
  "service_of_reports E scheds s = \<lparr>rsp_GenerateReport = GenerateReport_of E s scheds\<rparr>"

abbreviation pgx_reports :: "env \<Rightarrow> fetcher_registry \<Rightarrow> db report_service" where
  "pgx_reports E reg \<equiv> NewReportService (NewPgxUserRepo E) (NewPgxTeamRepo E) (NewPgxRepositoryStore E) reg"

lemma report_fields:
  "rsv_users (NewReportService us ts rs reg) = us" "rsv_teams (NewReportService us ts rs reg) = ts"
  "rsv_repos (NewReportService us ts rs reg) = rs" "rsv_registry (NewReportService us ts rs reg) = reg"
  by (simp_all add: NewReportService_def)

lemma upsert_discovered_injected: "upsert_discovered_of (pgx_reports E reg) = upsert_discovered"
  by (intro ext, unfold upsert_discovered_of_def upsert_discovered_def report_fields injected) (rule refl)

lemma start_groups_injected: "start_groups_of (pgx_reports E reg) member q gs = start_groups reg member q gs"
proof (induction gs)
  case (Cons g gs)
  show ?case
    unfolding start_groups_of.simps start_groups.simps Cons.IH upsert_discovered_injected report_fields
    by (rule refl)
qed simp

lemma fetchMemberReport_injected:
  "fetchMemberReport_of E (pgx_reports E' reg) = fetchMemberReport E reg"
  by (intro ext, unfold fetchMemberReport_of_def fetchMemberReport_def start_groups_injected) (rule refl)

lemma send_reports_injected:
  "send_reports_of E (pgx_reports E' reg) scheds n groups q ms = send_reports E reg scheds n groups q ms"
proof (induction ms arbitrary: n)
  case (Cons m ms)
  show ?case
    unfolding send_reports_of.simps send_reports.simps Cons.IH fetchMemberReport_injected by (rule refl)
qed simp

lemma report_service_injected [injected]:
  "GenerateReport_of E (pgx_reports E' reg) scheds = GenerateReport E reg scheds"
  by (intro ext, unfold GenerateReport_of_def GenerateReport_def report_fields injected send_reports_injected)
    (rule refl)

section \<open>What the authentication service relies on\<close>

text \<open>Accounts that can be found by name and by identifier, and a user for each. \<open>ready\<close> tells the
  states in which the store answers, \<open>account_at\<close> is the directory that a state stands for.\<close>

locale account_directory =
  fixes accounts :: "'s user_account_repository" and users :: "'s user_repository"
    and ready :: "'s \<Rightarrow> bool" and account_at :: "'s \<Rightarrow> string \<Rightarrow> user_account option"
  assumes find_name: "ready s \<Longrightarrow> \<exists>r. run_state (uar_FindByUsername accounts u) s = (r, s) \<and>
      (case r of Inl err \<Rightarrow> \<forall>i a. account_at s i = Some a \<longrightarrow> account_username a \<noteq> u
       | Inr a \<Rightarrow> account_username a = u \<and> account_at s (account_id a) = Some a)"
    and find_id: "ready s \<Longrightarrow> \<exists>r. run_state (uar_FindByID accounts i) s = (r, s) \<and>
      (case r of Inl err \<Rightarrow> account_at s i = None | Inr a \<Rightarrow> account_at s i = Some a)"
    and find_user: "ready s \<Longrightarrow> account_at s i = Some a \<Longrightarrow>
      \<exists>u. run_state (usr_FindByAccountID users i) s = (Inr u, s) \<and> user_id u = account_user_id a"
    and at_id: "account_at s i = Some a \<Longrightarrow> account_id a = i"
begin

text \<open>A login that succeeds changes nothing, names an account of the directory with that name and
  password, and its token is signed with the claims of this account.\<close>

lemma login_ok:
  assumes "ready s" and "run_state (Login_of E (NewAuthService accounts users teams k) u p) s = (Inr tok, s')"
  obtains a where "s' = s" "account_at s (token_account_id tok) = Some a" "account_username a = u"
    "bcrypt_compare E (account_password_hash a) p"
    "jwt_sign E k \<lparr>claim_sub = Some (account_id a),
       claim_roles = Some (map Some (map fst (range_order (iter E) (account_roles a)))),
       claim_exp = now E + token_lifetime, claim_iat = now E\<rparr> = Inr (token_text tok)"
proof -
  obtain r where r: "run_state (uar_FindByUsername accounts u) s = (r, s)"
    "case r of Inl err \<Rightarrow> \<forall>i a. account_at s i = Some a \<longrightarrow> account_username a \<noteq> u
     | Inr a \<Rightarrow> account_username a = u \<and> account_at s (account_id a) = Some a"
    using find_name [OF assms(1)] by blast
  show thesis
  proof (cases r)
    case (Inl err)
    with r(1) assms(2) show thesis by (simp add: Login_of_def NewAuthService_def)
  next
    case (Inr a)
    with r assms(2) show thesis
      by (intro that [of a])
        (auto simp: Login_of_def NewAuthService_def Let_def split: if_splits sum.splits)
  qed
qed

text \<open>A token whose account is gone is refused, a token of an account yields its user.\<close>

lemma validate_claims:
  assumes "ready s" "jwt_parse E tok (key_of (NewAuthService accounts users teams k)) (now E) = Some c"
    and "claim_sub c = Some i" "i \<noteq> []"
  shows "run_state (Validate_of E (NewAuthService accounts users teams k) tok) s =
    (case account_at s i of
       None \<Rightarrow> (Inl (NewUnauthorizedError ''account not found''), s)
     | Some a \<Rightarrow> (Inr \<lparr>ctx_account_id = i, ctx_user_id = account_user_id a,
         ctx_roles = claimed_roles c\<rparr>, s))"
proof -
  obtain r where r: "run_state (uar_FindByID accounts i) s = (r, s)"
    "case r of Inl err \<Rightarrow> account_at s i = None | Inr a \<Rightarrow> account_at s i = Some a"
    using find_id [OF assms(1)] by blast
  show ?thesis
  proof (cases r)
    case (Inl err)
    with r assms(2-4) show ?thesis by (simp add: Validate_of_def NewAuthService_def Let_def)
  next
    case (Inr a)
    with r have "account_at s i = Some a" by simp
    moreover from this find_user [OF assms(1)] obtain u where
      "run_state (usr_FindByAccountID users i) s = (Inr u, s)" "user_id u = account_user_id a" by blast
    ultimately show ?thesis
      using Inr r assms(2-4) at_id by (auto simp: Validate_of_def NewAuthService_def Let_def)
  qed
qed

text \<open>The life of a token: from the login in \<open>s\<close> it is accepted for 24 hours in every state \<open>s'\<close> that
  still has the account, with the user that the account has there and the roles it had in \<open>s\<close>.\<close>

theorem token_life:
  assumes "ready s" "ready s'" "iteration_ok (iter E)" "jwt_law E"
    and "run_state (Login_of E (NewAuthService accounts users teams k) u p) s = (Inr tok, s)"
    and "token_account_id tok \<noteq> []"
  obtains a where "account_at s (token_account_id tok) = Some a" "account_username a = u"
    "bcrypt_compare E (account_password_hash a) p"
    "case run_state (Validate_of (E\<lparr>now := t\<rparr>) (NewAuthService accounts users teams k) (token_text tok)) s' of
       (Inl err, s'') \<Rightarrow> s'' = s' \<and> app_code err = 401 \<and>
         (t < now E + token_lifetime \<longrightarrow> account_at s' (token_account_id tok) = None)
     | (Inr ctx, s'') \<Rightarrow> s'' = s' \<and> t < now E + token_lifetime \<and>
         ctx_account_id ctx = token_account_id tok \<and>
         (\<exists>a'. account_at s' (token_account_id tok) = Some a' \<and> ctx_user_id ctx = account_user_id a') \<and>
         (\<forall>r. map_flag (ctx_roles ctx) r \<longleftrightarrow> r \<in> set (map fst (account_roles a)))"
proof -
  obtain a where a: "account_at s (token_account_id tok) = Some a" "account_username a = u"
    "bcrypt_compare E (account_password_hash a) p" and
    signed: "jwt_sign E k \<lparr>claim_sub = Some (account_id a),
       claim_roles = Some (map Some (map fst (range_order (iter E) (account_roles a)))),
       claim_exp = now E + token_lifetime, claim_iat = now E\<rparr> = Inr (token_text tok)"
    using login_ok [OF assms(1,5)] by metis
  let ?S = "NewAuthService accounts users teams k" and ?E = "E\<lparr>now := t\<rparr>"
  let ?c = "\<lparr>claim_sub = Some (account_id a),
       claim_roles = Some (map Some (map fst (range_order (iter E) (account_roles a)))),
       claim_exp = now E + token_lifetime, claim_iat = now E\<rparr>"
  have i: "account_id a = token_account_id tok" using at_id [OF a(1)] .
  have parse: "jwt_parse ?E (token_text tok) (key_of ?S) (now ?E) =
      (if t < now E + token_lifetime then Some ?c else None)"
    using assms(4) signed unfolding jwt_law_def by (auto simp: key_of_def NewAuthService_def)
  have roles: "map_flag (claimed_roles ?c) r \<longleftrightarrow> r \<in> set (map fst (account_roles a))" for r
    unfolding map_flag_claimed_roles using assms(3) by (auto simp: iteration_ok_def)
  show thesis
  proof (cases "t < now E + token_lifetime")
    case True
    then have "run_state (Validate_of ?E ?S (token_text tok)) s' =
      (case account_at s' (token_account_id tok) of
         None \<Rightarrow> (Inl (NewUnauthorizedError ''account not found''), s')
       | Some a' \<Rightarrow> (Inr \<lparr>ctx_account_id = token_account_id tok, ctx_user_id = account_user_id a',
           ctx_roles = claimed_roles ?c\<rparr>, s'))"
      using parse assms(6) i by (intro validate_claims [OF assms(2)]) auto
    with True a roles show thesis
      by (intro that [of a]) (auto simp: NewUnauthorizedError_def split: option.splits)
  next
    case False
    then have "run_state (Validate_of ?E ?S (token_text tok)) s' =
        (Inl (NewUnauthorizedError ''invalid token''), s')"
      using parse by (simp add: Validate_of_def)
    with False a show thesis
      by (intro that [of a]) (auto simp: NewUnauthorizedError_def)
  qed
qed

end

section \<open>The accounts of the database\<close>

text \<open>The directory that the tables stand for.\<close>

definition stored_account :: "db \<Rightarrow> string \<Rightarrow> user_account option" where
  "stored_account s i =
     (case by_key ar_id i (accounts_table s) of [] \<Rightarrow> None | r # rs \<Rightarrow> Some (scanAccount r))"

lemma stored_account_row:
  assumes "schema_ok s"
  shows "stored_account s i = Some x \<longleftrightarrow> (\<exists>a\<in>set (accounts_table s). ar_id a = i \<and> x = scanAccount a)"
proof -
  have keys: "distinct (map ar_id (accounts_table s))" using assms by (simp add: schema_keys)
  from keys show ?thesis
  proof (cases rule: by_key_cases [where k = i])
    case absent
    then show ?thesis by (auto simp: stored_account_def)
  next
    case (present r)
    have only: "a = r" if "a \<in> set (accounts_table s)" "ar_id a = i" for a
      using by_key_distinct [OF keys that(1)] present(1) that(2) by simp
    have "stored_account s i = Some (scanAccount r)"
      by (simp add: stored_account_def present(1))
    then show ?thesis using only present(2,3) by (metis option.inject)
  qed
qed

lemma stored_account_none:
  assumes "schema_ok s"
  shows "stored_account s i = None \<longleftrightarrow> i \<notin> ar_id ` set (accounts_table s)"
  using stored_account_row [OF assms, of i] by (cases "stored_account s i") auto

interpretation pgx: account_directory "NewPgxUserAccountRepo E" "NewPgxUserRepo E"
    "\<lambda>s. healthy s \<and> schema_ok s" stored_account for E
proof
  fix s u
  assume s: "healthy s \<and> schema_ok s"
  then have names: "distinct (map ar_username (accounts_table s))"
    by (auto simp: schema_ok_def accounts_ok_def)
  show "\<exists>r. run_state (uar_FindByUsername (NewPgxUserAccountRepo E) u) s = (r, s) \<and>
      (case r of Inl err \<Rightarrow> \<forall>i a. stored_account s i = Some a \<longrightarrow> account_username a \<noteq> u
       | Inr a \<Rightarrow> account_username a = u \<and> stored_account s (account_id a) = Some a)"
    using s by (cases rule: by_key_cases [OF names, of u])
      (auto simp: injected run_account_reads stored_account_row scanAccount_def)
next
  fix s i
  assume s: "healthy s \<and> schema_ok s"
  show "\<exists>r. run_state (uar_FindByID (NewPgxUserAccountRepo E) i) s = (r, s) \<and>
      (case r of Inl err \<Rightarrow> stored_account s i = None | Inr a \<Rightarrow> stored_account s i = Some a)"
    using s by (auto simp: injected run_account_reads first_or_def stored_account_def split: list.splits)
next
  fix s i a
  assume s: "healthy s \<and> schema_ok s" and a: "stored_account s i = Some a"
  then obtain x where x: "x \<in> set (accounts_table s)" "ar_id x = i" "a = scanAccount x"
    by (auto simp: stored_account_row)
  obtain u where "ur_id u = ar_user_id x"
    "[u. u \<leftarrow> users_table s, y \<leftarrow> accounts_table s, ur_id u = ar_user_id y \<and> ar_id y = ar_id x] = [u]"
    using account_user_row x(1) s by blast
  with s x show "\<exists>u. run_state (usr_FindByAccountID (NewPgxUserRepo E) i) s = (Inr u, s) \<and>
      user_id u = account_user_id a"
    by (simp add: injected run_user_reads user_view_def user_of_row_def scanAccount_def)
next
  fix s i a
  assume "stored_account s i = Some a"
  then show "account_id a = i"
    by (auto simp: stored_account_def scanAccount_def by_key_def filter_eq_Cons_iff split: list.splits)
qed

abbreviation pgx_auth_service :: "env \<Rightarrow> db auth_service" where
  "pgx_auth_service E \<equiv>
     NewAuthService (NewPgxUserAccountRepo E) (NewPgxUserRepo E) (NewPgxTeamRepo E) (jwt_secret E)"

lemma login_names_account:
  assumes "healthy s" "schema_ok s" and a: "a \<in> set (accounts_table s)"
    and "run_state (Login_of E (pgx_auth_service E) (ar_username a) password) s = (Inr token, s)"
  shows "stored_account s (token_account_id token) = Some (scanAccount a) \<and> token_account_id token = ar_id a"
proof -
  have row: "x = a" if "x \<in> set (accounts_table s)" "ar_username x = ar_username a" for x
    using assms(2) that a by (auto simp: schema_ok_def accounts_ok_def distinct_map inj_on_def)
  obtain b where b: "stored_account s (token_account_id token) = Some b" "account_username b = ar_username a"
    using pgx.login_ok [OF _ assms(4)] assms(1,2) by metis
  then obtain x where "x \<in> set (accounts_table s)" "ar_id x = token_account_id token" "b = scanAccount x"
    "ar_username x = ar_username a"
    by (auto simp: stored_account_row [OF assms(2)] scanAccount_def)
  moreover from this row have "x = a" by blast
  ultimately show ?thesis using b by auto
qed

text \<open>The life of a token, over the store.\<close>

lemma stored_token_life:
  assumes "healthy s" "schema_ok s" "healthy s'" "schema_ok s'" "iteration_ok (iter E)" "jwt_law E"
    and a: "a \<in> set (accounts_table s)" "ar_id a \<noteq> []"
    and login: "run_state (AuthService_Login E (ar_username a) password) s = (Inr token, s)"
  shows "if t < now E + 24 * 60 * 60 \<and> ar_id a \<in> ar_id ` set (accounts_table s')
    then \<exists>ctx. run_state (AuthService_Validate (E\<lparr>now := t\<rparr>) (token_text token)) s' = (Inr ctx, s') \<and>
      ctx_account_id ctx = ar_id a \<and>
      (\<exists>a'\<in>set (accounts_table s'). ar_id a' = ar_id a \<and> ctx_user_id ctx = ar_user_id a') \<and>
      (\<forall>r. map_flag (ctx_roles ctx) r \<longleftrightarrow> r \<in> set (ar_roles a))
    else \<exists>err. run_state (AuthService_Validate (E\<lparr>now := t\<rparr>) (token_text token)) s' = (Inl err, s') \<and>
      app_code err = 401"
proof -
  let ?S = "pgx_auth_service E"
  have ready: "healthy s \<and> schema_ok s" "healthy s' \<and> schema_ok s'" using assms by simp_all
  have login': "run_state (Login_of E ?S (ar_username a) password) s = (Inr token, s)"
    using login by (simp add: injected)
  have validate: "Validate_of (E\<lparr>now := t\<rparr>) ?S = AuthService_Validate (E\<lparr>now := t\<rparr>)"
    using auth_service_injected(2) [of "E\<lparr>now := t\<rparr>" E] by simp
  note same = login_names_account [OF assms(1,2) a(1) login', THEN conjunct1]
    login_names_account [OF assms(1,2) a(1) login', THEN conjunct2]
  have roles: "set (map fst (account_roles (scanAccount a))) = set (ar_roles a)"
    by (simp add: scanAccount_def)
  obtain r s'' where run:
    "run_state (AuthService_Validate (E\<lparr>now := t\<rparr>) (token_text token)) s' = (r, s'')" by fastforce
  have life: "case (r, s'') of
       (Inl err, s'') \<Rightarrow> s'' = s' \<and> app_code err = 401 \<and>
         (t < now E + token_lifetime \<longrightarrow> stored_account s' (ar_id a) = None)
     | (Inr ctx, s'') \<Rightarrow> s'' = s' \<and> t < now E + token_lifetime \<and> ctx_account_id ctx = ar_id a \<and>
         (\<exists>a'. stored_account s' (ar_id a) = Some a' \<and> ctx_user_id ctx = account_user_id a') \<and>
         (\<forall>r. map_flag (ctx_roles ctx) r \<longleftrightarrow> r \<in> set (ar_roles a))"
  proof (rule pgx.token_life [OF ready assms(5,6) login', where t = t])
    fix b
    assume b: "stored_account s (token_account_id token) = Some b"
    assume case_b: "case run_state (Validate_of (E\<lparr>now := t\<rparr>) ?S (token_text token)) s' of
       (Inl err, s'') \<Rightarrow> s'' = s' \<and> app_code err = 401 \<and>
         (t < now E + token_lifetime \<longrightarrow> stored_account s' (token_account_id token) = None)
     | (Inr ctx, s'') \<Rightarrow> s'' = s' \<and> t < now E + token_lifetime \<and>
         ctx_account_id ctx = token_account_id token \<and>
         (\<exists>a'. stored_account s' (token_account_id token) = Some a' \<and> ctx_user_id ctx = account_user_id a') \<and>
         (\<forall>r. map_flag (ctx_roles ctx) r \<longleftrightarrow> r \<in> set (map fst (account_roles b)))"
    from b same(1) have "b = scanAccount a" by simp
    from case_b [unfolded this roles validate run same(2)] show ?thesis .
  qed (simp add: same(2) a(2))
  show ?thesis
  proof (cases r)
    case (Inl err)
    with life have "s'' = s'" "app_code err = 401"
      "t < now E + token_lifetime \<Longrightarrow> ar_id a \<notin> ar_id ` set (accounts_table s')"
      by (simp_all add: stored_account_none [OF assms(4)])
    with run Inl show ?thesis by (simp add: token_lifetime_def)
  next
    case (Inr ctx)
    with life obtain a' where ctx: "s'' = s'" "t < now E + 24 * 60 * 60" "ctx_account_id ctx = ar_id a"
      "\<forall>r. map_flag (ctx_roles ctx) r \<longleftrightarrow> r \<in> set (ar_roles a)"
      "stored_account s' (ar_id a) = Some a'" "ctx_user_id ctx = account_user_id a'"
      by (auto simp: token_lifetime_def)
    then obtain x where x: "x \<in> set (accounts_table s')" "ar_id x = ar_id a" "ctx_user_id ctx = ar_user_id x"
      by (auto simp: stored_account_row [OF assms(4)] scanAccount_def)
    have "ar_id a \<in> ar_id ` set (accounts_table s')" using imageI [OF x(1), of ar_id] x(2) by simp
    with ctx(2) show ?thesis using run Inr ctx x by auto
  qed
qed

end
