(* ===== verification/Router.thy ===== *)
theory Router
  imports Streaming Admin Backup
begin

text \<open>
  The router (\<open>presentation/router.go\<close>): which middleware guards which handler. A request is one
  that the router of the library has matched with a route: a constructor per route, with the
  parameters of its path, the decoded body, and the random identifiers the handler draws. The
  middleware \<open>Recoverer\<close> and \<open>RealIP\<close> of the library are left out; the other paths are those of the
  frontend's files (\<open>Static_Files\<close>).
\<close>

section \<open>Routes\<close>

datatype api_request =
    Req_Login "login_request option"
  | Req_StreamReport "report_request option"
  | Req_GetProfile
  | Req_SetPlatformUsername "platform_username_request option"
  | Req_ListTeams
  | Req_AddRepository string string "add_repo_request option"
  | Req_RemoveRepository string string
  | Req_AddMember string "string option"
  | Req_RemoveMember string string
  | Req_BackupExport
  | Req_BackupRestore "backup_file option"
  | Req_ConfigGetAll
  | Req_ConfigSet "config_set_request option"
  | Req_ListUsers
  | Req_CreateUser string string "create_user_request option"
  | Req_DeleteUser string
  | Req_CreateTeam string "create_team_request option"
  | Req_DeleteTeam string
  | Req_AddLeader string "string option"
  | Req_RemoveLeader string string

text \<open>The groups of the router, in which a route's middleware is the group's.\<close>

datatype route_group = Public | Authenticated | Team_Leader_Or_Admin string | Admin_Only

fun group_of :: "api_request \<Rightarrow> route_group" where
  "group_of (Req_Login b) = Public"
| "group_of (Req_StreamReport b) = Authenticated"
| "group_of Req_GetProfile = Authenticated"
| "group_of (Req_SetPlatformUsername b) = Authenticated"
| "group_of Req_ListTeams = Authenticated"
| "group_of (Req_AddRepository uuid t b) = Team_Leader_Or_Admin t"
| "group_of (Req_RemoveRepository t r) = Team_Leader_Or_Admin t"
| "group_of (Req_AddMember t b) = Team_Leader_Or_Admin t"
| "group_of (Req_RemoveMember t u) = Team_Leader_Or_Admin t"
| "group_of _ = Admin_Only"

definition handle :: "env \<Rightarrow> report_port \<Rightarrow> api_request \<Rightarrow> auth_context option \<Rightarrow> handler" where
  "handle E R req actx =
     (case req of
        Req_Login b \<Rightarrow> AuthHandler_Login E b
      | Req_StreamReport b \<Rightarrow> ReportHandler_StreamReport E R b actx
      | Req_GetProfile \<Rightarrow> ProfileHandler_GetProfile E actx
      | Req_SetPlatformUsername b \<Rightarrow> ProfileHandler_SetPlatformUsername b actx
      | Req_ListTeams \<Rightarrow> TeamHandler_ListTeams E actx
      | Req_AddRepository uuid t b \<Rightarrow> TeamHandler_AddRepository E uuid t b
      | Req_RemoveRepository t r \<Rightarrow> TeamHandler_RemoveRepository t r
      | Req_AddMember t b \<Rightarrow> AdminHandler_AddMember t b
      | Req_RemoveMember t u \<Rightarrow> AdminHandler_RemoveMember E t u
      | Req_BackupExport \<Rightarrow> BackupHandler_Export E
      | Req_BackupRestore b \<Rightarrow> BackupHandler_Restore E b
      | Req_ConfigGetAll \<Rightarrow> ConfigHandler_GetAll E
      | Req_ConfigSet b \<Rightarrow> ConfigHandler_Set b
      | Req_ListUsers \<Rightarrow> AdminHandler_ListUsers E
      | Req_CreateUser uuid1 uuid2 b \<Rightarrow> AdminHandler_CreateUser E uuid1 uuid2 b
      | Req_DeleteUser u \<Rightarrow> AdminHandler_DeleteUser u
      | Req_CreateTeam uuid b \<Rightarrow> AdminHandler_CreateTeam E uuid b
      | Req_DeleteTeam t \<Rightarrow> AdminHandler_DeleteTeam E t
      | Req_AddLeader t b \<Rightarrow> AdminHandler_AddLeader E t b
      | Req_RemoveLeader t u \<Rightarrow> AdminHandler_RemoveLeader E t u)"

definition serve :: "env \<Rightarrow> report_port \<Rightarrow> string \<Rightarrow> api_request \<Rightarrow> handler" where
  "serve E R authHeader req =
     (case group_of req of
        Public \<Rightarrow> handle E R req None
      | Authenticated \<Rightarrow> RequireAuth E authHeader (handle E R req)
      | Team_Leader_Or_Admin t \<Rightarrow>
          RequireAuth E authHeader (RequireTeamLeaderOrAdmin t (handle E R req))
      | Admin_Only \<Rightarrow> RequireAuth E authHeader (RequireRole [RoleAdmin] (handle E R req)))"

text \<open>Requests one after the other.\<close>

fun serve_all :: "env \<Rightarrow> report_port \<Rightarrow> (string \<times> api_request) list \<Rightarrow> (db, response list) state" where
  "serve_all E R [] = State_Monad.return []"
| "serve_all E R ((h, req) # reqs) = do {
     r \<leftarrow> serve E R h req;
     rs \<leftarrow> serve_all E R reqs;
     State_Monad.return (r # rs)
   }"

end
