(* ===== verification/Handler_Structs.thy ===== *)
theory Handler_Structs
  imports Services Router
begin

text \<open>
  The handlers of \<open>internal/presentation\<close> as the code has them: a struct of ports per handler, its
  constructor, and the methods, which reach the store through the ports only. The state is
  arbitrary. Over the adapters and services of the program each method is the one that \<open>Handlers\<close>,
  \<open>Admin\<close>, \<open>Backup\<close> and \<open>Streaming\<close> model over the store (\<open>injected\<close>).
\<close>

abbreviation answer :: "response \<Rightarrow> ('s, response) state" where
  "answer r \<equiv> State_Monad.return r"

section \<open>The context of a request\<close>

text \<open>\<open>context.WithValue\<close> and \<open>Value\<close>, for the values that the program stores; a later value of a key
  hides an earlier one.\<close>

type_synonym request_context = "(string \<times> auth_context) list"

definition authContextKey :: string where
  "authContextKey = ''authContext''"

definition WithValue :: "request_context \<Rightarrow> string \<Rightarrow> auth_context \<Rightarrow> request_context" where
  "WithValue ctx key v = (key, v) # ctx"

definition GetAuthContext :: "request_context \<Rightarrow> auth_context option" where
  "GetAuthContext ctx = map_of ctx authContextKey"

lemma GetAuthContext_WithValue [simp]: "GetAuthContext (WithValue ctx authContextKey c) = Some c"
  by (simp add: GetAuthContext_def WithValue_def)

lemma GetAuthContext_empty [simp]: "GetAuthContext [] = None"
  by (simp add: GetAuthContext_def)

section \<open>Middleware\<close>

record 's auth_middleware =
  mwr_authService :: "'s auth_service_port"

definition NewAuthMiddleware :: "'s auth_service_port \<Rightarrow> 's auth_middleware" where
  "NewAuthMiddleware authService = \<lparr>mwr_authService = authService\<rparr>"

definition RequireAuth_of ::
    "'s auth_middleware \<Rightarrow> string \<Rightarrow> (request_context \<Rightarrow> ('s, response) state) \<Rightarrow> request_context
      \<Rightarrow> ('s, response) state" where
  "RequireAuth_of m authHeader nxt ctx =
     (if authHeader = [] then answer (writeError 401 ''missing authorization header'')
      else
        let tokenStr = TrimPrefix authHeader ''Bearer '' in
        if tokenStr = authHeader then answer (writeError 401 ''invalid authorization format'')
        else do {
          r \<leftarrow> asp_Validate (mwr_authService m) tokenStr;
          case r of
            Inl err \<Rightarrow> answer (writeError 401 ''invalid token'')
          | Inr authCtx \<Rightarrow> nxt (WithValue ctx authContextKey authCtx)
        })"

definition RequireRole_of ::
    "role list \<Rightarrow> (request_context \<Rightarrow> ('s, response) state) \<Rightarrow> request_context \<Rightarrow> ('s, response) state" where
  "RequireRole_of roles nxt ctx =
     (case GetAuthContext ctx of
        None \<Rightarrow> answer (writeError 401 ''not authenticated'')
      | Some authCtx \<Rightarrow>
          if \<not> has_some_role (ctx_roles authCtx) roles
          then answer (writeError 403 ''insufficient permissions'')
          else nxt ctx)"

definition RequireTeamLeaderOrAdmin_of ::
    "'s team_repository \<Rightarrow> string \<Rightarrow> (request_context \<Rightarrow> ('s, response) state) \<Rightarrow> request_context
      \<Rightarrow> ('s, response) state" where
  "RequireTeamLeaderOrAdmin_of teamRepo teamID nxt ctx =
     (case GetAuthContext ctx of
        None \<Rightarrow> answer (writeError 401 ''not authenticated'')
      | Some authCtx \<Rightarrow>
          if map_flag (ctx_roles authCtx) RoleAdmin then nxt ctx
          else if teamID = [] then answer (writeError 400 ''team ID required'')
          else do {
            r \<leftarrow> tmr_FindByID teamRepo teamID;
            case r of
              Inl err \<Rightarrow> answer (writeError 404 ''team not found'')
            | Inr team \<Rightarrow>
                if ctx_user_id authCtx \<in> set (team_leader_ids team) then nxt ctx
                else answer (writeError 403 ''you are not a leader of this team'')
          })"

section \<open>AuthHandler\<close>

record 's auth_handler =
  ahd_authService :: "'s auth_service_port"
  ahd_userRepo :: "'s user_repository"

definition NewAuthHandler :: "'s auth_service_port \<Rightarrow> 's user_repository \<Rightarrow> 's auth_handler" where
  "NewAuthHandler authService userRepo = \<lparr>ahd_authService = authService, ahd_userRepo = userRepo\<rparr>"

definition AuthHandler_Login_of :: "env \<Rightarrow> 's auth_handler \<Rightarrow> login_request option \<Rightarrow> ('s, response) state" where
  "AuthHandler_Login_of E h body =
     (case body of
        None \<Rightarrow> answer (writeError 400 ''invalid request body'')
      | Some req \<Rightarrow>
          if lr_username req = [] \<or> lr_password req = []
          then answer (writeError 400 ''username and password required'')
          else do {
            r \<leftarrow> asp_Login (ahd_authService h) (lr_username req) (lr_password req);
            case r of
              Inl err \<Rightarrow> answer (writeError 401 ''invalid credentials'')
            | Inr token \<Rightarrow> do {
                ru \<leftarrow> usr_FindByAccountID (ahd_userRepo h) (token_account_id token);
                answer (case ru of
                  Inl err \<Rightarrow> writeError 500 ''failed to load user''
                | Inr user \<Rightarrow> writeJSON 200 (LoginBody \<lparr>login_token = token_text token,
                    login_roles = map fst (range_order (iter E) (token_roles token)),
                    login_user = UserToDTO (iter E) user\<rparr>))
              }
          })"

section \<open>ProfileHandler\<close>

record 's profile_handler =
  prh_userRepo :: "'s user_repository"

definition NewProfileHandler :: "'s user_repository \<Rightarrow> 's profile_handler" where
  "NewProfileHandler userRepo = \<lparr>prh_userRepo = userRepo\<rparr>"

definition ProfileHandler_GetProfile_of ::
    "env \<Rightarrow> 's profile_handler \<Rightarrow> request_context \<Rightarrow> ('s, response) state" where
  "ProfileHandler_GetProfile_of E h ctx =
     (case GetAuthContext ctx of
        None \<Rightarrow> answer (writeError 401 ''not authenticated'')
      | Some authCtx \<Rightarrow> do {
          r \<leftarrow> usr_FindByID (prh_userRepo h) (ctx_user_id authCtx);
          answer (case r of
            Inl err \<Rightarrow> writeError 404 ''user not found''
          | Inr user \<Rightarrow> writeJSON 200 (UserBody (UserToDTO (iter E) user)))
        })"

definition ProfileHandler_SetPlatformUsername_of ::
    "'s profile_handler \<Rightarrow> platform_username_request option \<Rightarrow> request_context \<Rightarrow> ('s, response) state" where
  "ProfileHandler_SetPlatformUsername_of h body ctx =
     (case GetAuthContext ctx of
        None \<Rightarrow> answer (writeError 401 ''not authenticated'')
      | Some authCtx \<Rightarrow>
         (case body of
            None \<Rightarrow> answer (writeError 400 ''invalid request body'')
          | Some req \<Rightarrow>
              if pu_platform req = [] \<or> pu_username req = []
              then answer (writeError 400 ''platform and username required'')
              else do {
                r \<leftarrow> usr_UpdatePlatformUsername (prh_userRepo h) (ctx_user_id authCtx)
                       \<lparr>platform_name = pu_platform req\<rparr> (pu_username req);
                answer (case r of
                  Inl err \<Rightarrow> writeError 500 ''failed to update platform username''
                | Inr _ \<Rightarrow> write_status ''updated'')
              }))"

section \<open>ConfigHandler\<close>

record 's config_handler =
  cfh_configRepo :: "'s config_repository"

definition NewConfigHandler :: "'s config_repository \<Rightarrow> 's config_handler" where
  "NewConfigHandler configRepo = \<lparr>cfh_configRepo = configRepo\<rparr>"

definition ConfigHandler_GetAll_of ::
    "'s config_handler \<Rightarrow> ('s, response) state" where
  "ConfigHandler_GetAll_of h = do {
     r \<leftarrow> cfr_FindAll (cfh_configRepo h);
     answer (case r of
       Inl err \<Rightarrow> writeError 500 ''failed to load config''
     | Inr config \<Rightarrow> writeJSON 200 (ConfigBody config))
   }"

definition ConfigHandler_Set_of ::
    "'s config_handler \<Rightarrow> config_set_request option \<Rightarrow> ('s, response) state" where
  "ConfigHandler_Set_of h body =
     (case body of
        None \<Rightarrow> answer (writeError 400 ''invalid request body'')
      | Some req \<Rightarrow>
          if cs_key req = [] then answer (writeError 400 ''key is required'')
          else do {
            r \<leftarrow> cfr_Set (cfh_configRepo h) (cs_key req) (cs_setting req);
            answer (case r of
              Inl err \<Rightarrow> writeError 500 ''failed to update config''
            | Inr _ \<Rightarrow> write_status ''updated'')
          })"

section \<open>BackupHandler\<close>

record 's backup_handler =
  bkh_backupService :: "'s backup_service_port"

definition NewBackupHandler :: "'s backup_service_port \<Rightarrow> 's backup_handler" where
  "NewBackupHandler backupService = \<lparr>bkh_backupService = backupService\<rparr>"

definition BackupHandler_Export_of :: "'s backup_handler \<Rightarrow> ('s, response) state" where
  "BackupHandler_Export_of h = do {
     r \<leftarrow> bsp_Export (bkh_backupService h);
     answer (case r of
       Inl err \<Rightarrow> writeError 500 ''failed to export backup''
     | Inr backup \<Rightarrow> writeJSON 200 (BackupBody backup))
   }"

definition BackupHandler_Restore_of :: "'s backup_handler \<Rightarrow> backup_file option \<Rightarrow> ('s, response) state" where
  "BackupHandler_Restore_of h body =
     (case body of
        None \<Rightarrow> answer (writeError 400 ''invalid backup data'')
      | Some backup \<Rightarrow> do {
          r \<leftarrow> bsp_Restore (bkh_backupService h) backup;
          answer (case r of
            Inl err \<Rightarrow> writeError 500 ''failed to restore backup''
          | Inr _ \<Rightarrow> write_status ''restored'')
        })"

section \<open>ReportHandler\<close>

text \<open>\<open>flusher\<close>: whether the response writer is one that can flush.\<close>

record 's report_handler =
  rph_reportService :: "'s report_service_port"

definition NewReportHandler :: "'s report_service_port \<Rightarrow> 's report_handler" where
  "NewReportHandler reportService = \<lparr>rph_reportService = reportService\<rparr>"

definition ReportHandler_StreamReport_of ::
    "env \<Rightarrow> 's report_handler \<Rightarrow> bool \<Rightarrow> report_request option \<Rightarrow> request_context \<Rightarrow> ('s, response) state" where
  "ReportHandler_StreamReport_of E h flusher body ctx =
     (case GetAuthContext ctx of
        None \<Rightarrow> answer (writeError 401 ''not authenticated'')
      | Some authCtx \<Rightarrow>
         (case body of
            None \<Rightarrow> answer (writeError 400 ''invalid request body'')
          | Some req \<Rightarrow>
             (case Parse_Date (rq_since req) of
                None \<Rightarrow> answer (writeError 400 ''invalid since date'')
              | Some since \<Rightarrow>
                 (case Parse_Date (rq_until req) of
                    None \<Rightarrow> answer (writeError 400 ''invalid until date'')
                  | Some until \<Rightarrow>
                     (case NewSSEWriter flusher of
                        Inl err \<Rightarrow> answer (writeError 500 ''streaming not supported'')
                      | Inr headers \<Rightarrow> do {
                          (events, e) \<leftarrow> rsp_GenerateReport (rph_reportService h)
                            (report_query_of authCtx req since until);
                          answer \<lparr>status = 200,
                            resp_body = EventStream (map (event_data (iter E)) events) e\<rparr>
                        })))))"

section \<open>TeamHandler\<close>

record 's team_handler =
  tmh_teamRepo :: "'s team_repository"
  tmh_repoStore :: "'s repository_store"
  tmh_userRepo :: "'s user_repository"

definition NewTeamHandler ::
    "'s team_repository \<Rightarrow> 's repository_store \<Rightarrow> 's user_repository \<Rightarrow> 's team_handler" where
  "NewTeamHandler teamRepo repoStore userRepo =
     \<lparr>tmh_teamRepo = teamRepo, tmh_repoStore = repoStore, tmh_userRepo = userRepo\<rparr>"

definition repo_dtos_of ::
    "'s team_handler \<Rightarrow> string list \<Rightarrow> ('s, repo_dto list) state" where
  "repo_dtos_of h ids =
     (if ids = [] then State_Monad.return []
      else do {
        r \<leftarrow> rps_FindByIDs (tmh_repoStore h) ids;
        State_Monad.return (case r of Inl err \<Rightarrow> [] | Inr repos \<Rightarrow> map repo_to_dto repos)
      })"

definition member_dtos_of ::
    "'s team_handler \<Rightarrow> string list \<Rightarrow> ('s, member_dto list) state" where
  "member_dtos_of h ids =
     (if ids = [] then State_Monad.return []
      else do {
        r \<leftarrow> usr_FindByIDs (tmh_userRepo h) ids;
        State_Monad.return (case r of Inl err \<Rightarrow> [] | Inr us \<Rightarrow> map member_to_dto us)
      })"

definition team_to_dto_of :: "'s team_handler \<Rightarrow> team \<Rightarrow> ('s, team_dto) state" where
  "team_to_dto_of h t = do {
     repos \<leftarrow> repo_dtos_of h (team_repository_ids t);
     leaders \<leftarrow> member_dtos_of h (team_leader_ids t);
     members \<leftarrow> member_dtos_of h (team_member_ids t);
     State_Monad.return \<lparr>td_id = team_id t, td_name = team_name t,
       td_leader_ids = team_leader_ids t, td_leaders = leaders,
       td_member_ids = team_member_ids t, td_members = members,
       td_repository_ids = team_repository_ids t, td_repositories = repos\<rparr>
   }"

definition TeamHandler_ListTeams_of ::
    "'s team_handler \<Rightarrow> request_context \<Rightarrow> ('s, response) state" where
  "TeamHandler_ListTeams_of h ctx =
     (case GetAuthContext ctx of
        None \<Rightarrow> answer (writeError 401 ''not authenticated'')
      | Some authCtx \<Rightarrow> do {
          r \<leftarrow> (if IsAdmin authCtx then tmr_FindAll (tmh_teamRepo h)
                else tmr_FindByMemberID (tmh_teamRepo h) (ctx_user_id authCtx));
          case r of
            Inl err \<Rightarrow> answer (writeError 500 ''failed to load teams'')
          | Inr teams \<Rightarrow> do {
              dtos \<leftarrow> map_state (team_to_dto_of h) teams;
              answer (writeJSON 200 (TeamsBody dtos))
            }
        })"

definition reuse_token_of ::
    "'s team_handler \<Rightarrow> string \<Rightarrow> git_platform \<Rightarrow> ('s, string) state" where
  "reuse_token_of h teamID platform = do {
     r \<leftarrow> tmr_FindByID (tmh_teamRepo h) teamID;
     case r of
       Inl err \<Rightarrow> State_Monad.return []
     | Inr team \<Rightarrow>
         if team_repository_ids team = [] then State_Monad.return []
         else do {
           re \<leftarrow> rps_FindByIDs (tmh_repoStore h) (team_repository_ids team);
           State_Monad.return (case re of Inl err \<Rightarrow> [] | Inr existing \<Rightarrow> existing_token platform existing)
         }
   }"

definition TeamHandler_AddRepository_of ::
    "env \<Rightarrow> 's team_handler \<Rightarrow> string \<Rightarrow> string \<Rightarrow> add_repo_request option \<Rightarrow> ('s, response) state" where
  "TeamHandler_AddRepository_of E h uuid teamID body =
     (if teamID = [] then answer (writeError 400 ''team ID required'')
      else case body of
        None \<Rightarrow> answer (writeError 400 ''invalid request body'')
      | Some req \<Rightarrow>
          if ar_full_name req = [] \<or> ar_platform req = []
          then answer (writeError 400 ''fullName and platform are required'')
          else do {
            let platform = \<lparr>platform_name = ToUpper (unicode_upper E) (ar_platform req)\<rparr>;
            apiToken \<leftarrow> (if ar_api_token req = [] then reuse_token_of h teamID platform
                         else State_Monad.return (ar_api_token req));
            if apiToken = []
            then answer (writeError 400 ''apiToken is required (no existing token found for this platform)'')
            else do {
              let repo = \<lparr>repo_id = ''r-'' @ take 8 uuid, repo_name = repo_short_name (ar_full_name req),
                repo_full_name = ar_full_name req, repo_url = [], repo_platform = platform,
                repo_api_token = apiToken\<rparr>;
              rs \<leftarrow> rps_Upsert (tmh_repoStore h) repo;
              case rs of
                Inl err \<Rightarrow> answer (writeError 500 ''failed to save repository'')
              | Inr saved \<Rightarrow> do {
                  ra \<leftarrow> tmr_AddRepository (tmh_teamRepo h) teamID (repo_id saved);
                  answer (case ra of
                    Inl err \<Rightarrow> writeError 500 ''failed to add repository to team''
                  | Inr _ \<Rightarrow> writeJSON 200
                      (FieldsBody [(''status'', ''added''), (''repoId'', repo_id saved)]))
                }
            }
          })"

definition TeamHandler_RemoveRepository_of ::
    "'s team_handler \<Rightarrow> string \<Rightarrow> string \<Rightarrow> ('s, response) state" where
  "TeamHandler_RemoveRepository_of h teamID repoID =
     (if teamID = [] \<or> repoID = [] then answer (writeError 400 ''team ID and repo ID required'')
      else do {
        r \<leftarrow> tmr_RemoveRepository (tmh_teamRepo h) teamID repoID;
        answer (case r of
          Inl err \<Rightarrow> writeError 500 ''failed to remove repository''
        | Inr _ \<Rightarrow> write_status ''removed'')
      })"

section \<open>AdminHandler\<close>

record add_member_request =
  am_user_id :: string

record add_leader_request =
  al_user_id :: string

record 's admin_handler =
  adm_userRepo :: "'s user_repository"
  adm_userAccountRepo :: "'s user_account_repository"
  adm_teamRepo :: "'s team_repository"

definition NewAdminHandler ::
    "'s user_repository \<Rightarrow> 's user_account_repository \<Rightarrow> 's team_repository \<Rightarrow> 's admin_handler" where
  "NewAdminHandler userRepo userAccountRepo teamRepo =
     \<lparr>adm_userRepo = userRepo, adm_userAccountRepo = userAccountRepo, adm_teamRepo = teamRepo\<rparr>"

definition ensureLeaderRole_of ::
    "'s admin_handler \<Rightarrow> string \<Rightarrow> ('s, unit) state" where
  "ensureLeaderRole_of h uid = do {
     r \<leftarrow> uar_FindAll (adm_userAccountRepo h);
     case r of
       Inl err \<Rightarrow> State_Monad.return ()
     | Inr accounts \<Rightarrow>
         (case List.find (\<lambda>a. account_user_id a = uid) accounts of
            None \<Rightarrow> State_Monad.return ()
          | Some a \<Rightarrow>
              if \<not> map_flag (account_roles a) RoleTeamLeader then do {
                _ \<leftarrow> uar_Save (adm_userAccountRepo h)
                  (a\<lparr>account_roles := map_put RoleTeamLeader True (account_roles a)\<rparr>);
                State_Monad.return ()
              }
              else State_Monad.return ())
   }"

definition removeLeaderRoleIfOrphaned_of ::
    "'s admin_handler \<Rightarrow> string \<Rightarrow> ('s, unit) state" where
  "removeLeaderRoleIfOrphaned_of h uid = do {
     rt \<leftarrow> tmr_FindAll (adm_teamRepo h);
     case rt of
       Inl err \<Rightarrow> State_Monad.return ()
     | Inr teams \<Rightarrow>
         if \<exists>t\<in>set teams. uid \<in> set (team_leader_ids t) then State_Monad.return ()
         else do {
           r \<leftarrow> uar_FindAll (adm_userAccountRepo h);
           case r of
             Inl err \<Rightarrow> State_Monad.return ()
           | Inr accounts \<Rightarrow>
               (case List.find (\<lambda>a. account_user_id a = uid \<and>
                   map_flag (account_roles a) RoleTeamLeader) accounts of
                  None \<Rightarrow> State_Monad.return ()
                | Some a \<Rightarrow> do {
                    _ \<leftarrow> uar_Save (adm_userAccountRepo h)
                  (a\<lparr>account_roles := map_delete RoleTeamLeader (account_roles a)\<rparr>);
                    State_Monad.return ()
                  })
         }
   }"

definition AdminHandler_ListUsers_of ::
    "env \<Rightarrow> 's admin_handler \<Rightarrow> ('s, response) state" where
  "AdminHandler_ListUsers_of E h = do {
     ru \<leftarrow> usr_FindAll (adm_userRepo h);
     case ru of
       Inl err \<Rightarrow> answer (writeError 500 ''failed to load users'')
     | Inr users \<Rightarrow> do {
         ra \<leftarrow> uar_FindAll (adm_userAccountRepo h);
         case ra of
           Inl err \<Rightarrow> answer (writeError 500 ''failed to load accounts'')
         | Inr accounts \<Rightarrow> do {
             rt \<leftarrow> tmr_FindAll (adm_teamRepo h);
             answer (case rt of
               Inl err \<Rightarrow> writeError 500 ''failed to load teams''
             | Inr teams \<Rightarrow> writeJSON 200 (AdminUsersBody
                 (map (admin_user_of E (account_index accounts []) teams) users)))
           }
       }
   }"

definition AdminHandler_CreateUser_of ::
    "env \<Rightarrow> 's admin_handler \<Rightarrow> string \<Rightarrow> string \<Rightarrow> create_user_request option \<Rightarrow> ('s, response) state" where
  "AdminHandler_CreateUser_of E h uuid1 uuid2 body =
     (case body of
        None \<Rightarrow> answer (writeError 400 ''invalid request body'')
      | Some req \<Rightarrow>
          if cu_username req = [] \<or> cu_password req = [] \<or> cu_display_name req = []
          then answer (writeError 400 ''username, displayName, and password are required'')
          else
            let req_roles = (if cu_roles req = [] then [RoleTeamMember] else cu_roles req) in
            (case bcrypt_hash E (cu_password req) of
               None \<Rightarrow> answer (writeError 500 ''failed to hash password'')
             | Some hash \<Rightarrow> do {
                 let userID = ''u-'' @ take 8 uuid1;
                 let accountID = ''a-'' @ take 8 uuid2;
                 ru \<leftarrow> usr_Save (adm_userRepo h) \<lparr>user_id = userID, user_username = cu_username req,
                   user_display_name = cu_display_name req, user_email = cu_email req,
                   user_avatar_url = [], user_platform_usernames = []\<rparr>;
                 case ru of
                   Inl err \<Rightarrow> answer (writeError 500 ''failed to create user'')
                 | Inr _ \<Rightarrow> do {
                     ra \<leftarrow> uar_Save (adm_userAccountRepo h) \<lparr>account_id = accountID,
                       account_username = cu_username req,
                       account_password_hash = hash, account_roles = role_set req_roles [],
                       account_user_id = userID\<rparr>;
                     case ra of
                       Inl err \<Rightarrow> do {
                         _ \<leftarrow> usr_Delete (adm_userRepo h) userID;
                         answer (writeError 500 ''failed to create account'')
                       }
                     | Inr _ \<Rightarrow> answer (writeJSON 201 (AdminUserBody \<lparr>au_id = userID,
                         au_username = cu_username req, au_display_name = cu_display_name req,
                         au_email = cu_email req, au_roles = req_roles, au_teams = []\<rparr>))
                   }
               }))"

definition AdminHandler_DeleteUser_of ::
    "'s admin_handler \<Rightarrow> string \<Rightarrow> ('s, response) state" where
  "AdminHandler_DeleteUser_of h userID = do {
     rt \<leftarrow> tmr_FindByMemberID (adm_teamRepo h) userID;
     case (case rt of Inl err \<Rightarrow> None | Inr teams \<Rightarrow> only_leader_of userID teams) of
       Some t \<Rightarrow> answer (writeError 400
         (''user is the only leader of team '' @ team_name t @ ''; reassign leadership first''))
     | None \<Rightarrow> do {
         ra \<leftarrow> uar_Delete (adm_userAccountRepo h) userID;
         case ra of
           Inl err \<Rightarrow> answer (writeError 500 ''failed to delete account'')
         | Inr _ \<Rightarrow> do {
             ru \<leftarrow> usr_Delete (adm_userRepo h) userID;
             answer (case ru of
               Inl err \<Rightarrow> writeError 500 ''failed to delete user''
             | Inr _ \<Rightarrow> write_status ''deleted'')
           }
       }
   }"

definition AdminHandler_CreateTeam_of ::
    "'s admin_handler \<Rightarrow> string \<Rightarrow> create_team_request option \<Rightarrow> ('s, response) state" where
  "AdminHandler_CreateTeam_of h uuid body =
     (case body of
        None \<Rightarrow> answer (writeError 400 ''invalid request body'')
      | Some req \<Rightarrow>
          if ct_name req = [] \<or> ct_leader_id req = []
          then answer (writeError 400 ''name and leaderId are required'')
          else do {
            rl \<leftarrow> usr_FindByID (adm_userRepo h) (ct_leader_id req);
            case rl of
              Inl err \<Rightarrow> answer (writeError 400 ''leader user not found'')
            | Inr leader \<Rightarrow> do {
                let teamID = ''t-'' @ take 8 uuid;
                r \<leftarrow> tmr_Save (adm_teamRepo h) \<lparr>team_id = teamID, team_name = ct_name req,
                  team_leader_ids = [ct_leader_id req], team_member_ids = [ct_leader_id req],
                  team_repository_ids = []\<rparr>;
                case r of
                  Inl err \<Rightarrow> answer (writeError 500 ''failed to create team'')
                | Inr _ \<Rightarrow> do {
                    _ \<leftarrow> ensureLeaderRole_of h (ct_leader_id req);
                    answer (writeJSON 201 (TeamSummaryBody \<lparr>ts_id = teamID, ts_name = ct_name req,
                      ts_leader_ids = [ct_leader_id req]\<rparr>))
                  }
              }
          })"

definition AdminHandler_DeleteTeam_of ::
    "'s admin_handler \<Rightarrow> string \<Rightarrow> ('s, response) state" where
  "AdminHandler_DeleteTeam_of h teamID = do {
     rt \<leftarrow> tmr_FindByID (adm_teamRepo h) teamID;
     case rt of
       Inl err \<Rightarrow> answer (writeError 404 ''team not found'')
     | Inr team \<Rightarrow> do {
         r \<leftarrow> tmr_Delete (adm_teamRepo h) teamID;
         case r of
           Inl err \<Rightarrow> answer (writeError 500 ''failed to delete team'')
         | Inr _ \<Rightarrow> do {
             _ \<leftarrow> do_each (removeLeaderRoleIfOrphaned_of h) (team_leader_ids team);
             answer (write_status ''deleted'')
           }
       }
   }"

definition AdminHandler_AddMember_of ::
    "'s admin_handler \<Rightarrow> string \<Rightarrow> add_member_request option \<Rightarrow> ('s, response) state" where
  "AdminHandler_AddMember_of h teamID body =
     (case body of
        None \<Rightarrow> answer (writeError 400 ''invalid request body'')
      | Some req \<Rightarrow>
          if am_user_id req = [] then answer (writeError 400 ''userId is required'')
          else do {
            r \<leftarrow> tmr_AddMember (adm_teamRepo h) teamID (am_user_id req);
            answer (case r of
              Inl err \<Rightarrow> writeError 500 ''failed to add member''
            | Inr _ \<Rightarrow> write_status ''added'')
          })"

definition AdminHandler_RemoveMember_of ::
    "env \<Rightarrow> 's admin_handler \<Rightarrow> string \<Rightarrow> string \<Rightarrow> ('s, response) state" where
  "AdminHandler_RemoveMember_of E h teamID userID = do {
     r \<leftarrow> tmr_RemoveMember (adm_teamRepo h) teamID userID;
     answer (case r of
       Inl err \<Rightarrow>
         if Contains (error_text (drv_text E) err) ''leader''
         then writeError 400 (error_text (drv_text E) err)
         else writeError 500 ''failed to remove member''
     | Inr _ \<Rightarrow> write_status ''removed'')
   }"

definition AdminHandler_AddLeader_of ::
    "'s admin_handler \<Rightarrow> string \<Rightarrow> add_leader_request option \<Rightarrow> ('s, response) state" where
  "AdminHandler_AddLeader_of h teamID body =
     (case body of
        None \<Rightarrow> answer (writeError 400 ''invalid request body'')
      | Some req \<Rightarrow>
          if al_user_id req = [] then answer (writeError 400 ''userId is required'')
          else do {
            rt \<leftarrow> tmr_FindByID (adm_teamRepo h) teamID;
            case rt of
              Inl err \<Rightarrow> answer (writeError 404 ''team not found'')
            | Inr team \<Rightarrow>
                if al_user_id req \<notin> set (team_member_ids team)
                then answer (writeError 400 ''user must be a member of the team first'')
                else do {
                  r \<leftarrow> tmr_AddLeader (adm_teamRepo h) teamID (al_user_id req);
                  case r of
                    Inl err \<Rightarrow> answer (writeError 500 ''failed to add leader'')
                  | Inr _ \<Rightarrow> do {
                      _ \<leftarrow> ensureLeaderRole_of h (al_user_id req);
                      answer (write_status ''added'')
                    }
                }
          })"

definition AdminHandler_RemoveLeader_of ::
    "env \<Rightarrow> 's admin_handler \<Rightarrow> string \<Rightarrow> string \<Rightarrow> ('s, response) state" where
  "AdminHandler_RemoveLeader_of E h teamID userID = do {
     r \<leftarrow> tmr_RemoveLeader (adm_teamRepo h) teamID userID;
     case r of
       Inl err \<Rightarrow>
         if Contains (error_text (drv_text E) err) ''last leader''
         then answer (writeError 400 (error_text (drv_text E) err))
         else answer (writeError 500 ''failed to remove leader'')
     | Inr _ \<Rightarrow> do {
         _ \<leftarrow> removeLeaderRoleIfOrphaned_of h userID;
         answer (write_status ''removed'')
       }
   }"

section \<open>The handlers of the program\<close>

lemma handler_fields:
  "mwr_authService (NewAuthMiddleware a) = a"
  "ahd_authService (NewAuthHandler a u) = a" "ahd_userRepo (NewAuthHandler a u) = u"
  "prh_userRepo (NewProfileHandler u) = u" "cfh_configRepo (NewConfigHandler c) = c"
  "bkh_backupService (NewBackupHandler b) = b" "rph_reportService (NewReportHandler p) = p"
  "tmh_teamRepo (NewTeamHandler t rs u) = t" "tmh_repoStore (NewTeamHandler t rs u) = rs"
  "tmh_userRepo (NewTeamHandler t rs u) = u"
  "adm_userRepo (NewAdminHandler u ac t) = u" "adm_userAccountRepo (NewAdminHandler u ac t) = ac"
  "adm_teamRepo (NewAdminHandler u ac t) = t"
  by (simp_all add: NewAuthMiddleware_def NewAuthHandler_def NewProfileHandler_def NewConfigHandler_def
      NewBackupHandler_def NewReportHandler_def NewTeamHandler_def NewAdminHandler_def)

abbreviation pgx_auth :: "env \<Rightarrow> db auth_service_port" where
  "pgx_auth E \<equiv> auth_port E
     (NewAuthService (NewPgxUserAccountRepo E) (NewPgxUserRepo E) (NewPgxTeamRepo E) (jwt_secret E))"

abbreviation pgx_teams :: "env \<Rightarrow> db team_handler" where
  "pgx_teams E \<equiv> NewTeamHandler (NewPgxTeamRepo E) (NewPgxRepositoryStore E) (NewPgxUserRepo E)"

abbreviation pgx_admin :: "env \<Rightarrow> db admin_handler" where
  "pgx_admin E \<equiv> NewAdminHandler (NewPgxUserRepo E) (NewPgxUserAccountRepo E) (NewPgxTeamRepo E)"

lemma port_calls [injected]:
  "asp_Login (pgx_auth E) = AuthService_Login E" "asp_Validate (pgx_auth E) = AuthService_Validate E"
  "rsp_GenerateReport (service_of_reports E scheds (pgx_reports E reg)) = GenerateReport E reg scheds"
  by (simp_all add: auth_port_def service_of_reports_def injected)

text \<open>A guarded handler sees the context that the guard has put into the request.\<close>

lemma middleware_injected:
  assumes "\<And>ctx. nxt ctx = f (GetAuthContext ctx)"
  shows "RequireAuth_of (NewAuthMiddleware (pgx_auth E)) hdr nxt ctx = RequireAuth E hdr f"
    and "RequireRole_of roles nxt ctx = RequireRole roles f (GetAuthContext ctx)"
    and "RequireTeamLeaderOrAdmin_of (NewPgxTeamRepo E) t nxt ctx =
      RequireTeamLeaderOrAdmin t f (GetAuthContext ctx)"
  unfolding RequireAuth_of_def RequireAuth_def RequireRole_of_def RequireRole_def
    RequireTeamLeaderOrAdmin_of_def RequireTeamLeaderOrAdmin_def handler_fields injected assms
    GetAuthContext_WithValue
  by (rule refl)+

lemma auth_handler_injected [injected]:
  "AuthHandler_Login_of E (NewAuthHandler (pgx_auth E) (NewPgxUserRepo E)) = AuthHandler_Login E"
  by (intro ext, unfold AuthHandler_Login_of_def AuthHandler_Login_def handler_fields injected) (rule refl)

lemma profile_handler_injected [injected]:
  "ProfileHandler_GetProfile_of E (NewProfileHandler (NewPgxUserRepo E)) ctx =
     ProfileHandler_GetProfile E (GetAuthContext ctx)"
  "ProfileHandler_SetPlatformUsername_of (NewProfileHandler (NewPgxUserRepo E)) b ctx =
     ProfileHandler_SetPlatformUsername b (GetAuthContext ctx)"
  unfolding ProfileHandler_GetProfile_of_def ProfileHandler_GetProfile_def
    ProfileHandler_SetPlatformUsername_of_def ProfileHandler_SetPlatformUsername_def handler_fields injected
  by (rule refl)+

lemma config_handler_injected [injected]:
  "ConfigHandler_GetAll_of (NewConfigHandler (NewPgxConfigRepo E)) = ConfigHandler_GetAll E"
  "ConfigHandler_Set_of (NewConfigHandler (NewPgxConfigRepo E)) b = ConfigHandler_Set b"
  unfolding ConfigHandler_GetAll_of_def ConfigHandler_GetAll_def ConfigHandler_Set_of_def
    ConfigHandler_Set_def handler_fields injected
  by (rule refl)+

lemma backup_handler_injected [injected]:
  "BackupHandler_Export_of (NewBackupHandler (backup_port (NewBackupService (NewPgxBackupRepo E)))) =
     BackupHandler_Export E"
  "BackupHandler_Restore_of (NewBackupHandler (backup_port (NewBackupService (NewPgxBackupRepo E)))) b =
     BackupHandler_Restore E b"
  unfolding BackupHandler_Export_of_def BackupHandler_Export_def BackupHandler_Restore_of_def
    BackupHandler_Restore_def handler_fields injected
  by (rule refl)+

lemma report_handler_injected [injected]:
  "ReportHandler_StreamReport_of E (NewReportHandler (service_of_reports E scheds (pgx_reports E reg))) fl b ctx =
     ReportHandler_StreamReport E \<lparr>rp_registry = reg, rp_schedules = scheds, rp_flusher = fl\<rparr> b (GetAuthContext ctx)"
  unfolding ReportHandler_StreamReport_of_def ReportHandler_StreamReport_def handler_fields injected
    report_port.select_convs
  by (rule refl)

lemma team_handler_parts [injected]:
  "repo_dtos_of (pgx_teams E) = repo_dtos" "member_dtos_of (pgx_teams E) = member_dtos"
  "reuse_token_of (pgx_teams E) = reuse_token"
  by (intro ext; unfold repo_dtos_of_def repo_dtos_def member_dtos_of_def member_dtos_def
      reuse_token_of_def reuse_token_def handler_fields injected; rule refl)+

lemma team_to_dto_injected [injected]: "team_to_dto_of (pgx_teams E) = team_to_dto"
  by (intro ext, unfold team_to_dto_of_def team_to_dto_def injected) (rule refl)

lemma team_handler_injected [injected]:
  "TeamHandler_ListTeams_of (pgx_teams E) ctx = TeamHandler_ListTeams E (GetAuthContext ctx)"
  "TeamHandler_AddRepository_of E' (pgx_teams E) uuid t b = TeamHandler_AddRepository E' uuid t b"
  "TeamHandler_RemoveRepository_of (pgx_teams E) t r = TeamHandler_RemoveRepository t r"
  unfolding TeamHandler_ListTeams_of_def TeamHandler_ListTeams_def TeamHandler_AddRepository_of_def
    TeamHandler_AddRepository_def TeamHandler_RemoveRepository_of_def TeamHandler_RemoveRepository_def
    handler_fields injected
  by (rule refl)+

lemma admin_roles_injected [injected]:
  "ensureLeaderRole_of (pgx_admin E) = ensureLeaderRole E"
  "removeLeaderRoleIfOrphaned_of (pgx_admin E) = removeLeaderRoleIfOrphaned E"
  by (intro ext; unfold ensureLeaderRole_of_def ensureLeaderRole_def removeLeaderRoleIfOrphaned_of_def
      removeLeaderRoleIfOrphaned_def handler_fields injected; rule refl)+

lemma admin_users_injected [injected]:
  "AdminHandler_ListUsers_of E (pgx_admin E) = AdminHandler_ListUsers E"
  "AdminHandler_CreateUser_of E (pgx_admin E) = AdminHandler_CreateUser E"
  "AdminHandler_DeleteUser_of (pgx_admin E) u = AdminHandler_DeleteUser u"
  by ((intro ext)?; unfold AdminHandler_ListUsers_of_def AdminHandler_ListUsers_def
      AdminHandler_CreateUser_of_def AdminHandler_CreateUser_def
      AdminHandler_DeleteUser_of_def AdminHandler_DeleteUser_def handler_fields injected; rule refl)+

lemma admin_teams_injected [injected]:
  "AdminHandler_CreateTeam_of (pgx_admin E) = AdminHandler_CreateTeam E"
  "AdminHandler_DeleteTeam_of (pgx_admin E) = AdminHandler_DeleteTeam E"
  "AdminHandler_RemoveMember_of E (pgx_admin E) = AdminHandler_RemoveMember E"
  "AdminHandler_RemoveLeader_of E (pgx_admin E) = AdminHandler_RemoveLeader E"
  by (intro ext; unfold AdminHandler_CreateTeam_of_def AdminHandler_CreateTeam_def
      AdminHandler_DeleteTeam_of_def AdminHandler_DeleteTeam_def
      AdminHandler_RemoveMember_of_def AdminHandler_RemoveMember_def
      AdminHandler_RemoveLeader_of_def AdminHandler_RemoveLeader_def handler_fields injected; rule refl)+

lemma admin_bodies_injected [injected]:
  "AdminHandler_AddMember_of (pgx_admin E) t (map_option (\<lambda>u. \<lparr>am_user_id = u\<rparr>) b) = AdminHandler_AddMember t b"
  "AdminHandler_AddLeader_of (pgx_admin E) t (map_option (\<lambda>u. \<lparr>al_user_id = u\<rparr>) b) = AdminHandler_AddLeader E t b"
  unfolding AdminHandler_AddMember_of_def AdminHandler_AddMember_def AdminHandler_AddLeader_of_def
    AdminHandler_AddLeader_def handler_fields injected case_map_option o_def
    add_member_request.select_convs add_leader_request.select_convs
  by (rule refl)+

end
