(* ===== verification/Static_Files.thy ===== *)
theory Static_Files
  imports Dto
begin

text \<open>
  The files of the frontend (\<open>presentation/static.go\<close>): the embedded directory \<open>frontend\<close>, served by the
  file server of Go's standard library, of which the paths, the redirects and the errors are
  modelled. Conditional and range requests, and the headers that depend on the content, are not.
  No path leads out of the directory.
\<close>

section \<open>Paths\<close>

definition HasSuffix :: "string \<Rightarrow> string \<Rightarrow> bool" where
  "HasSuffix s t = HasPrefix (rev s) (rev t)"

definition TrimSuffix :: "string \<Rightarrow> string \<Rightarrow> string" where
  "TrimSuffix s t = (if HasSuffix s t then take (length s - length t) s else s)"

text \<open>\<open>path.Clean\<close> of a path that starts with a slash: empty elements and single dots are dropped, and two
  dots take the element before them away. \<open>out\<close> holds the elements kept so far, the last one first.\<close>

fun clean_onto :: "string list \<Rightarrow> string list \<Rightarrow> string list" where
  "clean_onto out [] = rev out"
| "clean_onto out (e # es) =
     (if e = [] \<or> e = ''.'' then clean_onto out es
      else if e = ''..'' then clean_onto (drop 1 out) es
      else clean_onto (e # out) es)"

definition clean_parts :: "string \<Rightarrow> string list" where
  "clean_parts p = clean_onto [] (Split p (CHR ''/''))"

definition Clean :: "string \<Rightarrow> string" where
  "Clean p = ''/'' @ Join (clean_parts p) ''/''"

text \<open>\<open>path.Base\<close>\<close>

definition Base :: "string \<Rightarrow> string" where
  "Base p = (if p = [] then ''.''
     else let q = TrimRight p (CHR ''/'') in if q = [] then ''/'' else last (Split q (CHR ''/'')))"

text \<open>\<open>utf8.ValidString\<close>: the number of bytes of the rune at the start, where there is a valid one.\<close>

definition in_range :: "nat \<Rightarrow> nat \<Rightarrow> char \<Rightarrow> bool" where
  "in_range lo hi c \<longleftrightarrow> lo \<le> of_char c \<and> of_char c \<le> hi"

definition rune_width :: "string \<Rightarrow> nat option" where
  "rune_width s =
     (case s of
        [] \<Rightarrow> None
      | b # r \<Rightarrow>
          let next_ok = (\<lambda>lo hi. r \<noteq> [] \<and> in_range lo hi (r ! 0));
              tail_ok = (\<lambda>i. i < length r \<and> in_range 0x80 0xBF (r ! i)) in
          if in_range 0 0x7F b then Some 1
          else if in_range 0xC2 0xDF b then (if next_ok 0x80 0xBF then Some 2 else None)
          else if in_range 0xE0 0xEF b then
            (if next_ok (if of_char b = (0xE0 :: nat) then 0xA0 else 0x80)
                 (if of_char b = (0xED :: nat) then 0x9F else 0xBF) \<and> tail_ok 1
             then Some 3 else None)
          else if in_range 0xF0 0xF4 b then
            (if next_ok (if of_char b = (0xF0 :: nat) then 0x90 else 0x80)
                 (if of_char b = (0xF4 :: nat) then 0x8F else 0xBF) \<and> tail_ok 1 \<and> tail_ok 2
             then Some 4 else None)
          else None)"

fun ValidString :: "string \<Rightarrow> bool" where
  "ValidString [] = True"
| "ValidString (b # r) =
     (case rune_width (b # r) of None \<Rightarrow> False | Some n \<Rightarrow> ValidString (drop (n - 1) r))"

text \<open>\<open>fs.ValidPath\<close>\<close>

definition ValidPath :: "string \<Rightarrow> bool" where
  "ValidPath name \<longleftrightarrow> ValidString name \<and>
     (name = ''.'' \<or> list_all (\<lambda>e. e \<notin> {[], ''.'', ''..''}) (Split name (CHR ''/'')))"

section \<open>Files\<close>

text \<open>Embedded files by their full names; the directories are the prefixes of these names.\<close>

type_synonym file_tree = "(string \<times> string) list"

datatype fs_node = File_Node string | Dir_Node

datatype fs_error = Not_Exist | Invalid_Path

definition embed_Open :: "file_tree \<Rightarrow> string \<Rightarrow> fs_error + fs_node" where
  "embed_Open files name =
     (if \<not> ValidPath name then Inl Not_Exist
      else case map_of files name of
        Some content \<Rightarrow> Inr (File_Node content)
      | None \<Rightarrow>
          if name = ''.'' \<or> list_ex (\<lambda>(f, content). HasPrefix f (name @ ''/'')) files then Inr Dir_Node
          else Inl Not_Exist)"

text \<open>\<open>fs.Sub\<close>: the tree below a directory.\<close>

definition Sub_Open :: "file_tree \<Rightarrow> string \<Rightarrow> string \<Rightarrow> fs_error + fs_node" where
  "Sub_Open files dir name =
     (if \<not> ValidPath name then Inl Invalid_Path
      else embed_Open files (if name = ''.'' then dir else dir @ ''/'' @ name))"

text \<open>\<open>http.FS\<close>: an error that is not \<open>Not_Exist\<close> becomes this one when an element before the last that
  exists is a file. \<open>before\<close> is the path up to the elements that are left.\<close>

fun crosses_file :: "(string \<Rightarrow> fs_error + fs_node) \<Rightarrow> string list \<Rightarrow> string list \<Rightarrow> bool" where
  "crosses_file opn before [] = False"
| "crosses_file opn before (e # es) =
     (if e = [] then crosses_file opn (before @ [e]) es
      else case opn (Join (before @ [e]) ''/'') of
        Inl err \<Rightarrow> False
      | Inr (File_Node content) \<Rightarrow> True
      | Inr Dir_Node \<Rightarrow> crosses_file opn (before @ [e]) es)"

definition FS_Open :: "(string \<Rightarrow> fs_error + fs_node) \<Rightarrow> string \<Rightarrow> fs_error + fs_node" where
  "FS_Open opn path =
     (let name = (if path = ''/'' then ''.'' else TrimPrefix path ''/'')
      in case opn name of
           Inl Invalid_Path \<Rightarrow>
             Inl (if crosses_file opn [] (Split name (CHR ''/'')) then Not_Exist else Invalid_Path)
         | r \<Rightarrow> r)"

section \<open>The file server\<close>

definition localRedirect :: "string \<Rightarrow> string \<Rightarrow> response" where
  "localRedirect rawQuery newPath =
     \<lparr>status = 301, resp_body = LocationBody (if rawQuery \<noteq> [] then newPath @ ''?'' @ rawQuery else newPath)\<rparr>"

definition toHTTPError :: "fs_error \<Rightarrow> response" where
  "toHTTPError err =
     (case err of
        Not_Exist \<Rightarrow> \<lparr>status = 404, resp_body = TextBody ''404 page not found''\<rparr>
      | Invalid_Path \<Rightarrow> \<lparr>status = 500, resp_body = TextBody ''500 Internal Server Error''\<rparr>)"

definition file_answer :: "string \<Rightarrow> response" where
  "file_answer content = \<lparr>status = 200, resp_body = FileBody content\<rparr>"

definition serveFile :: "(string \<Rightarrow> fs_error + fs_node) \<Rightarrow> string \<Rightarrow> string \<Rightarrow> string \<Rightarrow> response" where
  "serveFile opn url rawQuery name =
     (if HasSuffix url ''/index.html'' then localRedirect rawQuery ''./''
      else case FS_Open opn name of
        Inl err \<Rightarrow> toHTTPError err
      | Inr (File_Node content) \<Rightarrow>
          if last url \<noteq> CHR ''/'' then file_answer content
          else if Base url \<in> {''/'', ''.''} then \<lparr>status = 500, resp_body = TextBody ''http: attempting to traverse a non-directory''\<rparr>
          else localRedirect rawQuery (''../'' @ Base url)
      | Inr Dir_Node \<Rightarrow>
          if last url \<noteq> CHR ''/'' then localRedirect rawQuery (Base url @ ''/'')
          else (let index = TrimSuffix name ''/'' @ ''/index.html''
                in case FS_Open opn index of
                     Inr (File_Node content) \<Rightarrow> file_answer content
                   | Inr Dir_Node \<Rightarrow> \<lparr>status = 200, resp_body = ListingBody index\<rparr>
                   | Inl err \<Rightarrow> \<lparr>status = 200, resp_body = ListingBody name\<rparr>))"

definition FileServer :: "(string \<Rightarrow> fs_error + fs_node) \<Rightarrow> string \<Rightarrow> string \<Rightarrow> response" where
  "FileServer opn urlPath rawQuery =
     (let upath = (if HasPrefix urlPath ''/'' then urlPath else ''/'' @ urlPath)
      in serveFile opn upath rawQuery (Clean upath))"

text \<open>The repository's own files; \<open>contents\<close> gives what is in each.\<close>

definition frontend_names :: "string list" where
  "frontend_names = [''app.js'', ''index.html'', ''styles.css'']"

definition frontendFS :: "(string \<Rightarrow> string) \<Rightarrow> file_tree" where
  "frontendFS contents = map (\<lambda>f. (''frontend/'' @ f, contents f)) frontend_names"

definition frontendFileServer :: "(string \<Rightarrow> string) \<Rightarrow> string \<Rightarrow> string \<Rightarrow> response" where
  "frontendFileServer contents = FileServer (Sub_Open (frontendFS contents) ''frontend'')"

section \<open>What is served\<close>

lemma clean_onto_proper:
  "\<forall>e\<in>set out. e \<notin> {[], ''.'', ''..''} \<Longrightarrow> e \<in> set (clean_onto out es) \<Longrightarrow> e \<notin> {[], ''.'', ''..''}"
proof (induction out es rule: clean_onto.induct)
  case (2 out e es)
  have "\<forall>x\<in>set (drop 1 out). x \<notin> {[], ''.'', ''..''}"
    using 2(4) by (meson in_set_dropD)
  with 2 show ?case by (auto split: if_splits)
qed simp

lemma clean_onto_from: "e \<in> set (clean_onto out es) \<Longrightarrow> e \<in> set out \<or> e \<in> set es"
proof (induction out es rule: clean_onto.induct)
  case (2 out e' es)
  then show ?case by (auto split: if_splits dest: in_set_dropD)
qed simp

text \<open>A cleaned path has no element that leads out of the directory.\<close>

lemma clean_parts_proper:
  assumes "e \<in> set (clean_parts p)"
  shows "e \<noteq> []" "e \<noteq> ''.''" "e \<noteq> ''..''" "CHR ''/'' \<notin> set e"
  using clean_onto_proper [of "[]" e "Split p (CHR ''/'')"] clean_onto_from [of e "[]" "Split p (CHR ''/'')"]
    Split_no_sep [of e p] assms
  by (auto simp: clean_parts_def)

lemma valid_cleaned:
  assumes "clean_parts p \<noteq> []"
  shows "ValidPath (Join (clean_parts p) ''/'') \<longleftrightarrow> ValidString (Join (clean_parts p) ''/'')"
  using Split_Join [OF assms, of "CHR ''/''"] clean_parts_proper [of _ p]
  by (auto simp: ValidPath_def list_all_iff)

lemma FS_Open_opens: "FS_Open opn path = Inr node \<Longrightarrow> \<exists>name. opn name = Inr node"
  by (auto simp: FS_Open_def Let_def split: sum.splits fs_error.splits)

lemma embedded_content:
  "embed_Open (frontendFS contents) name = Inr (File_Node c) \<Longrightarrow> \<exists>f\<in>set frontend_names. c = contents f"
  by (auto simp: embed_Open_def frontendFS_def split: if_splits option.splits dest!: map_of_SomeD)

lemma opened_file:
  "FS_Open (Sub_Open (frontendFS contents) ''frontend'') path = Inr (File_Node c) \<Longrightarrow>
   \<exists>f\<in>set frontend_names. c = contents f"
  by (auto simp: Sub_Open_def split: if_splits dest!: FS_Open_opens embedded_content)

lemma serveFile_content:
  assumes "resp_body (serveFile opn url rawQuery name) = FileBody c"
  shows "status (serveFile opn url rawQuery name) = 200 \<and> (\<exists>path. FS_Open opn path = Inr (File_Node c))"
proof (cases "FS_Open opn name")
  case (Inl err)
  with assms show ?thesis
    by (auto simp: serveFile_def localRedirect_def toHTTPError_def split: if_splits fs_error.splits)
next
  case (Inr node)
  with assms show ?thesis
    by (cases node)
      (auto simp: serveFile_def localRedirect_def file_answer_def Let_def
        split: if_splits sum.splits fs_node.splits)
qed

text \<open>Whatever path is asked for, only the content of one of the files of the directory is sent.\<close>

theorem frontend_confined:
  assumes "resp_body (frontendFileServer contents url rawQuery) = FileBody c"
  shows "status (frontendFileServer contents url rawQuery) = 200 \<and> (\<exists>f\<in>set frontend_names. c = contents f)"
  using assms unfolding frontendFileServer_def FileServer_def Let_def
  by (meson serveFile_content opened_file)

text \<open>The page, its two files, and what becomes of other paths.\<close>

lemma frontend_examples:
  "frontendFileServer contents ''/'' [] = file_answer (contents ''index.html'')"
  "frontendFileServer contents ''/app.js'' ''v=1'' = file_answer (contents ''app.js'')"
  "frontendFileServer contents ''/styles.css'' [] = file_answer (contents ''styles.css'')"
  "frontendFileServer contents ''/index.html'' ''a'' = localRedirect ''a'' ''./''"
  "frontendFileServer contents ''/x/../app.js/'' [] = localRedirect [] ''../app.js''"
  "status (frontendFileServer contents ''/../../main.go'' []) = 404"
  "status (frontendFileServer contents ''/app.js/main.go'' []) = 404"
  "status (frontendFileServer contents [CHR ''/'', CHR 0xFF] []) = 500"
  by code_simp+

end
