(* ===== verification/Go_Url.thy ===== *)
theory Go_Url
  imports Go_Strings
begin

text \<open>
  What the program uses of Go's package \<open>net/url\<close>: percent-encoding in the modes of a query
  component and a path segment, \<open>Values.Encode\<close>, and the path of a parsed URL. Shown: decoding
  undoes encoding, and a server that decodes an encoded query gets the parameters that were set.
\<close>

section \<open>Percent-encoding\<close>

definition byte :: "char \<Rightarrow> nat" where
  "byte c = of_char c"

lemma byte_less [simp]: "byte c < 256"
  using nat_of_char_less_256 [of c] by (simp add: byte_def)

lemma byte_inject [simp]: "byte c = byte d \<longleftrightarrow> c = d"
  by (simp add: byte_def)

lemma char_of_byte [simp]: "char_of (byte c) = c"
  by (simp add: byte_def)

datatype encoding = EncodePath | EncodePathSegment | EncodeQueryComponent | EncodeFragment

definition alphanumeric :: "char \<Rightarrow> bool" where
  "alphanumeric c \<longleftrightarrow> (let n = byte c in 97 \<le> n \<and> n \<le> 122 \<or> 65 \<le> n \<and> n \<le> 90 \<or> 48 \<le> n \<and> n \<le> 57)"

definition should_escape :: "char \<Rightarrow> encoding \<Rightarrow> bool" where
  "should_escape c mode =
     (if alphanumeric c \<or> c \<in> set ''-_.~'' then False
      else if c \<in> set ''$&+,/:;=?@''
      then (case mode of
          EncodePath \<Rightarrow> c = CHR ''?''
        | EncodePathSegment \<Rightarrow> c \<in> set ''/;,?''
        | EncodeQueryComponent \<Rightarrow> True
        | EncodeFragment \<Rightarrow> False)
      else \<not> (mode = EncodeFragment \<and> c \<in> set ''!()*''))"

definition hex_digit :: "nat \<Rightarrow> char" where
  "hex_digit n = (if n < 10 then char_of (48 + n) else char_of (55 + n))"

fun url_escape :: "encoding \<Rightarrow> string \<Rightarrow> string" where
  "url_escape mode [] = []"
| "url_escape mode (c # s) =
     (if \<not> should_escape c mode then c # url_escape mode s
      else if c = CHR '' '' \<and> mode = EncodeQueryComponent then CHR ''+'' # url_escape mode s
      else CHR ''%'' # hex_digit (byte c div 16) # hex_digit (byte c mod 16) # url_escape mode s)"

definition QueryEscape :: "string \<Rightarrow> string" where
  "QueryEscape s = url_escape EncodeQueryComponent s"

definition PathEscape :: "string \<Rightarrow> string" where
  "PathEscape s = url_escape EncodePathSegment s"

text \<open>\<open>unescape\<close>, which fails on a \<open>%\<close> that two hexadecimal digits do not follow.\<close>

definition hex_value :: "char \<Rightarrow> nat option" where
  "hex_value c = (let n = byte c in
     if 48 \<le> n \<and> n \<le> 57 then Some (n - 48)
     else if 97 \<le> n \<and> n \<le> 102 then Some (n - 87)
     else if 65 \<le> n \<and> n \<le> 70 then Some (n - 55)
     else None)"

fun url_unescape :: "encoding \<Rightarrow> string \<Rightarrow> string option" where
  "url_unescape mode [] = Some []"
| "url_unescape mode (c # s) =
     (if c = CHR ''%'' then
        (case s of
           a # b # t \<Rightarrow>
             (case (hex_value a, hex_value b) of
                (Some m, Some n) \<Rightarrow> map_option ((#) (char_of (16 * m + n))) (url_unescape mode t)
              | _ \<Rightarrow> None)
         | _ \<Rightarrow> None)
      else if c = CHR ''+'' \<and> mode = EncodeQueryComponent
      then map_option ((#) (CHR '' '')) (url_unescape mode s)
      else map_option ((#) c) (url_unescape mode s))"

lemma hex_value_digit [simp]: "n < 16 \<Longrightarrow> hex_value (hex_digit n) = Some n"
  by (simp add: hex_value_def hex_digit_def byte_def Let_def)

lemma alphanumeric_plain: "alphanumeric c \<Longrightarrow> c \<noteq> CHR ''%'' \<and> c \<noteq> CHR ''+'' \<and> c \<noteq> CHR ''&'' \<and> c \<noteq> CHR ''=''"
  by (auto simp: alphanumeric_def byte_def Let_def)

lemma escaped_percent: "should_escape CHR ''%'' mode"
  by (cases mode) (simp_all add: should_escape_def alphanumeric_def byte_def Let_def)

lemma unescape_escape: "url_unescape mode (url_escape mode s) = Some s"
proof (induction s)
  case Nil
  then show ?case by simp
next
  case (Cons c s)
  have hex: "hex_value (hex_digit (byte c div 16)) = Some (byte c div 16)"
    "hex_value (hex_digit (byte c mod 16)) = Some (byte c mod 16)"
    using byte_less [of c] by (simp_all del: byte_less)
  have "16 * (byte c div 16) + byte c mod 16 = byte c" by simp
  show ?case
  proof (cases "should_escape c mode")
    case True
    with Cons hex show ?thesis by auto
  next
    case False
    then have "c \<noteq> CHR ''%''" using escaped_percent by auto
    moreover have "\<not> (c = CHR ''+'' \<and> mode = EncodeQueryComponent)"
      using False by (auto simp: should_escape_def alphanumeric_def byte_def Let_def)
    ultimately show ?thesis using False Cons by simp
  qed
qed

lemma QueryEscape_inj [simp]: "QueryEscape s = QueryEscape t \<longleftrightarrow> s = t"
  unfolding QueryEscape_def by (metis option.inject unescape_escape)

lemma PathEscape_inj [simp]: "PathEscape s = PathEscape t \<longleftrightarrow> s = t"
  unfolding PathEscape_def by (metis option.inject unescape_escape)

text \<open>The characters of an escaped text.\<close>

lemma hex_digit_plain: "n < 16 \<Longrightarrow> alphanumeric (hex_digit n)"
  by (auto simp: hex_digit_def alphanumeric_def byte_def Let_def)

lemma escape_chars:
  "c \<in> set (url_escape mode s) \<Longrightarrow> \<not> should_escape c mode \<or> c = CHR ''%'' \<or>
     (c = CHR ''+'' \<and> mode = EncodeQueryComponent)"
proof (induction s)
  case (Cons d s)
  have "\<not> should_escape (hex_digit n) mode" if "n < 16" for n
    using hex_digit_plain [OF that] by (simp add: should_escape_def)
  with Cons show ?case
    using byte_less [of d] by (auto split: if_splits simp del: byte_less)
qed simp

lemma QueryEscape_separators: "CHR ''&'' \<notin> set (QueryEscape s)" "CHR ''='' \<notin> set (QueryEscape s)"
  unfolding QueryEscape_def
  by (auto dest!: escape_chars simp: should_escape_def alphanumeric_def byte_def Let_def)

lemma PathEscape_separators: "CHR ''/'' \<notin> set (PathEscape s)" "CHR ''?'' \<notin> set (PathEscape s)"
  unfolding PathEscape_def
  by (auto dest!: escape_chars simp: should_escape_def alphanumeric_def byte_def Let_def)

section \<open>Query parameters\<close>

text \<open>\<open>url.Values\<close> with one value per key: the program only calls \<open>Set\<close>. \<open>Encode\<close> sorts by key.\<close>

type_synonym url_values = "(string, string) go_map"

definition Values_Set :: "string \<Rightarrow> string \<Rightarrow> url_values \<Rightarrow> url_values" where
  "Values_Set k v vs = map_put k v vs"

fun bytes_le :: "string \<Rightarrow> string \<Rightarrow> bool" where
  "bytes_le [] t = True"
| "bytes_le (c # s) [] = False"
| "bytes_le (c # s) (d # t) = (byte c < byte d \<or> c = d \<and> bytes_le s t)"

definition encode_param :: "string \<times> string \<Rightarrow> string" where
  "encode_param kv = QueryEscape (fst kv) @ ''='' @ QueryEscape (snd kv)"

definition Values_Encode :: "url_values \<Rightarrow> string" where
  "Values_Encode vs = Join (map encode_param (order_by bytes_le fst vs)) ''&''"

text \<open>What a server makes of a query: split at \<open>&\<close>, cut at the first \<open>=\<close>, decode.\<close>

definition decode_param :: "string \<Rightarrow> (string \<times> string) option" where
  "decode_param p =
     (let (k, v) = (case Index p ''='' of None \<Rightarrow> (p, []) | Some i \<Rightarrow> (take i p, drop (Suc i) p))
      in (case (url_unescape EncodeQueryComponent k, url_unescape EncodeQueryComponent v) of
            (Some k', Some v') \<Rightarrow> Some (k', v')
          | _ \<Rightarrow> None))"

definition decode_query :: "string \<Rightarrow> (string \<times> string) option list" where
  "decode_query q = map decode_param (Split q (CHR ''&''))"

lemma Index_char: "c \<notin> set s \<Longrightarrow> Index (s @ c # t) [c] = Some (length s)"
  by (induction s) (auto simp: HasPrefix_iff)

lemma decode_encode_param: "decode_param (encode_param kv) = Some kv"
proof -
  have "Index (encode_param kv) ''='' = Some (length (QueryEscape (fst kv)))"
    unfolding encode_param_def using Index_char [OF QueryEscape_separators(2)] by simp
  then show ?thesis
    by (simp add: decode_param_def encode_param_def QueryEscape_def unescape_escape)
qed

lemma encode_param_no_amp: "CHR ''&'' \<notin> set (encode_param kv)"
  using QueryEscape_separators by (simp add: encode_param_def)

lemma decode_Encode:
  assumes "vs \<noteq> []"
  shows "decode_query (Values_Encode vs) = map Some (order_by bytes_le fst vs)"
proof -
  have "map encode_param (order_by bytes_le fst vs) \<noteq> []"
    using assms by (metis length_0_conv length_map length_order_by)
  then have "Split (Values_Encode vs) (CHR ''&'') = map encode_param (order_by bytes_le fst vs)"
    unfolding Values_Encode_def by (rule Split_Join) (auto simp: encode_param_no_amp)
  then show ?thesis
    by (simp add: decode_query_def decode_encode_param)
qed

section \<open>The path of a URL\<close>

text \<open>\<open>getScheme\<close>: \<open>None\<close> for an error, otherwise scheme and rest.\<close>

definition is_letter :: "char \<Rightarrow> bool" where
  "is_letter c \<longleftrightarrow> (let n = byte c in 97 \<le> n \<and> n \<le> 122 \<or> 65 \<le> n \<and> n \<le> 90)"

definition scheme_char :: "char \<Rightarrow> bool" where
  "scheme_char c \<longleftrightarrow> alphanumeric c \<or> c \<in> set ''+-.''"

definition getScheme :: "string \<Rightarrow> (string \<times> string) option" where
  "getScheme raw =
     (case raw of
        [] \<Rightarrow> Some ([], raw)
      | c # _ \<Rightarrow>
          if c = CHR '':'' then None
          else if \<not> is_letter c then Some ([], raw)
          else (case dropWhile scheme_char raw of
              d # rest \<Rightarrow> if d = CHR '':'' then Some (takeWhile scheme_char raw, rest) else Some ([], raw)
            | [] \<Rightarrow> Some ([], raw)))"

definition cut :: "string \<Rightarrow> char \<Rightarrow> string \<times> string" where
  "cut s c = (case Index s [c] of None \<Rightarrow> (s, []) | Some i \<Rightarrow> (take i s, drop (Suc i) s))"

definition control_byte :: "char \<Rightarrow> bool" where
  "control_byte c \<longleftrightarrow> byte c < 32 \<or> byte c = 127"

text \<open>The field \<open>Path\<close> of \<open>url.Parse(raw)\<close>, \<open>None\<close> for an error. What is checked of an authority
  (userinfo, host, port) is the parameter \<open>authority_ok\<close>.\<close>

definition parse_hierarchy :: "(string \<Rightarrow> bool) \<Rightarrow> string \<Rightarrow> string \<Rightarrow> string option" where
  "parse_hierarchy authority_ok scheme rest =
     (if \<not> HasPrefix rest ''/'' \<and> scheme \<noteq> [] then Some []
      else if \<not> HasPrefix rest ''/'' \<and> CHR '':'' \<in> set (fst (cut rest (CHR ''/''))) then None
      else if (scheme \<noteq> [] \<or> \<not> HasPrefix rest ''///'') \<and> HasPrefix rest ''//''
      then (let authority = takeWhile (\<lambda>c. c \<noteq> CHR ''/'') (drop 2 rest);
                path = dropWhile (\<lambda>c. c \<noteq> CHR ''/'') (drop 2 rest)
            in if authority_ok authority then url_unescape EncodePath path else None)
      else url_unescape EncodePath rest)"

definition url_Path :: "(string \<Rightarrow> bool) \<Rightarrow> string \<Rightarrow> string option" where
  "url_Path authority_ok raw =
     (let (u, frag) = cut raw (CHR ''#'')
      in if list_ex control_byte u then None
         else if u = ''*'' then (case url_unescape EncodeFragment frag of None \<Rightarrow> None | Some _ \<Rightarrow> Some ''*'')
         else (case getScheme u of
             None \<Rightarrow> None
           | Some (scheme, rest) \<Rightarrow>
               (case parse_hierarchy authority_ok scheme (fst (cut rest (CHR ''?''))) of
                  None \<Rightarrow> None
                | Some path \<Rightarrow> (case url_unescape EncodeFragment frag of None \<Rightarrow> None | Some _ \<Rightarrow> Some path))))"

end
