(* ===== verification/Migrator.thy ===== *)
theory Migrator
  imports Seed Go_Url
begin

text \<open>
  The migrator (\<open>persistence/migrator.go\<close>) and the connection pool (\<open>db.go\<close>). The database is seen
  here through its contents \<open>'d\<close> and the log \<open>schema_migrations\<close>; what the text of a migration does
  to the contents is a parameter (the SQL engine), as are the directory and its files. Shown: the
  log tells exactly which migrations the contents have been through, whatever fails, so that a
  start after a failed one ends where an undisturbed start would have ended.
\<close>

section \<open>The pool\<close>

record pool_config =
  database_url :: string
  MaxConns :: int
  MinConns :: int

text \<open>The calls of the pool library: \<open>ParseConfig\<close>, \<open>NewWithConfig\<close> and \<open>Ping\<close>.\<close>

record 'p pool_library =
  ParseConfig :: "string \<Rightarrow> pool_config result"
  NewWithConfig :: "pool_config \<Rightarrow> 'p result"
  Ping :: "'p \<Rightarrow> unit result"

definition NewPool :: "'p pool_library \<Rightarrow> string \<Rightarrow> 'p result" where
  "NewPool L databaseURL =
     (case ParseConfig L databaseURL of
        Inl err \<Rightarrow> Inl (Errorf ''parse database URL'' err)
      | Inr config \<Rightarrow>
          (case NewWithConfig L (config\<lparr>MaxConns := 10, MinConns := 2\<rparr>) of
             Inl err \<Rightarrow> Inl (Errorf ''create connection pool'' err)
           | Inr pool \<Rightarrow>
               (case Ping L pool of
                  Inl err \<Rightarrow> Inl (Errorf ''ping database'' err)
                | Inr _ \<Rightarrow> Inr pool)))"

section \<open>State\<close>

text \<open>\<open>mig_log\<close> is \<open>None\<close> while the table \<open>schema_migrations\<close> does not exist.\<close>

record 'd migration_db =
  mig_data :: 'd
  mig_log :: "string list option"
  mig_faults :: "fault list"

record dir_entry =
  entry_name :: string
  entry_is_dir :: bool

text \<open>\<open>os.ReadDir\<close>, and \<open>os.ReadFile\<close> of a file in a directory.\<close>

record file_system =
  ReadDir :: "string \<Rightarrow> dir_entry list result"
  ReadFile :: "string \<Rightarrow> string \<Rightarrow> string result"

definition mig_fault :: "('d migration_db, string option) state" where
  "mig_fault = State (\<lambda>s. case mig_faults s of
     [] \<Rightarrow> (None, s)
   | f # fs \<Rightarrow> (fault_text f, s\<lparr>mig_faults := fs\<rparr>))"

text \<open>A statement outside a transaction.\<close>

definition mig_call :: "('d migration_db \<Rightarrow> 'a \<times> 'd migration_db) \<Rightarrow> ('d migration_db, 'a result) state" where
  "mig_call f = do {
     o1 \<leftarrow> mig_fault;
     case o1 of
       Some m \<Rightarrow> State_Monad.return (Inl (Driver (Driver_Fault m)))
     | None \<Rightarrow> State (\<lambda>s. case f s of (x, s') \<Rightarrow> (Inr x, s'))
   }"

definition logged :: "'d migration_db \<Rightarrow> string list" where
  "logged s = (case mig_log s of None \<Rightarrow> [] | Some fs \<Rightarrow> fs)"

definition create_log :: "'d migration_db \<Rightarrow> unit \<times> 'd migration_db" where
  "create_log s = ((), s\<lparr>mig_log := Some (logged s)\<rparr>)"

section \<open>RunMigrations\<close>

definition Ext :: "string \<Rightarrow> string" where
  "Ext path =
     (let r = takeWhile (\<lambda>c. c \<noteq> CHR ''.'' \<and> c \<noteq> CHR ''/'') (rev path)
      in case drop (length r) (rev path) of
           [] \<Rightarrow> []
         | c # rest \<Rightarrow> if c = CHR ''.'' then CHR ''.'' # rev r else [])"

definition migration_files :: "dir_entry list \<Rightarrow> string list" where
  "migration_files entries = order_by bytes_le id
     (map entry_name (filter (\<lambda>e. \<not> entry_is_dir e \<and> Ext (entry_name e) = ''.sql'') entries))"

text \<open>The transaction of one migration: each of its four calls may fail, and then nothing of it
  stays. The insert into the log fails on a duplicate.\<close>

definition migration_tx ::
    "(string \<Rightarrow> 'd \<Rightarrow> db_error + 'd) \<Rightarrow> string \<Rightarrow> string \<Rightarrow> ('d migration_db, unit result) state" where
  "migration_tx script f content = do {
     o1 \<leftarrow> mig_fault;
     case o1 of
       Some m \<Rightarrow> State_Monad.return (Inl (Errorf (''begin tx for '' @ f) (Driver (Driver_Fault m))))
     | None \<Rightarrow> do {
         s0 \<leftarrow> State_Monad.get;
         o2 \<leftarrow> mig_fault;
         case (case o2 of Some m \<Rightarrow> Inl (Driver_Fault m) | None \<Rightarrow> script content (mig_data s0)) of
           Inl e \<Rightarrow> State_Monad.return (Inl (Errorf (''exec migration '' @ f) (Driver e)))
         | Inr data \<Rightarrow> do {
             o3 \<leftarrow> mig_fault;
             case (case o3 of Some m \<Rightarrow> Some (Driver_Fault m)
                   | None \<Rightarrow> if f \<in> set (logged s0)
                       then Some (Unique_Violation ''schema_migrations_pkey'') else None) of
               Some e \<Rightarrow> State_Monad.return (Inl (Errorf (''record migration '' @ f) (Driver e)))
             | None \<Rightarrow> do {
                 o4 \<leftarrow> mig_fault;
                 case o4 of
                   Some m \<Rightarrow> State_Monad.return (Inl (Errorf (''commit migration '' @ f) (Driver (Driver_Fault m))))
                 | None \<Rightarrow> State (\<lambda>s. (Inr (), s\<lparr>mig_data := data, mig_log := Some (logged s0 @ [f])\<rparr>))
               }
           }
       }
   }"

definition apply_migration ::
    "file_system \<Rightarrow> (string \<Rightarrow> 'd \<Rightarrow> db_error + 'd) \<Rightarrow> string \<Rightarrow> string \<Rightarrow> ('d migration_db, unit result) state" where
  "apply_migration FS script dir f =
     check_err (wrapf (''check migration '' @ f) (mig_call (\<lambda>s. (f \<in> set (logged s), s)))) (\<lambda>exists.
       if exists then State_Monad.return (Inr ())
       else case ReadFile FS dir f of
         Inl err \<Rightarrow> State_Monad.return (Inl (Errorf (''read migration '' @ f) err))
       | Inr content \<Rightarrow> migration_tx script f content)"

definition RunMigrations ::
    "file_system \<Rightarrow> (string \<Rightarrow> 'd \<Rightarrow> db_error + 'd) \<Rightarrow> string \<Rightarrow> ('d migration_db, unit result) state" where
  "RunMigrations FS script dir =
     check_err (wrapf ''create schema_migrations table'' (mig_call create_log)) (\<lambda>_.
       case ReadDir FS dir of
         Inl err \<Rightarrow> State_Monad.return (Inl (Errorf (''read migrations dir '' @ dir) err))
       | Inr entries \<Rightarrow> for_each (apply_migration FS script dir) (migration_files entries))"

section \<open>What the log says\<close>

text \<open>The effect of migrations on the contents, without the log; \<open>None\<close> when one of them cannot be
  read or applied.\<close>

fun migrate ::
    "file_system \<Rightarrow> (string \<Rightarrow> 'd \<Rightarrow> db_error + 'd) \<Rightarrow> string \<Rightarrow> string list \<Rightarrow> 'd \<Rightarrow> 'd option" where
  "migrate FS script dir [] d = Some d"
| "migrate FS script dir (f # fs) d =
     (case ReadFile FS dir f of
        Inl err \<Rightarrow> None
      | Inr content \<Rightarrow>
          (case script content d of Inl e \<Rightarrow> None | Inr d' \<Rightarrow> migrate FS script dir fs d'))"

lemma migrate_append:
  "migrate FS script dir (fs @ gs) d = Option.bind (migrate FS script dir fs d) (migrate FS script dir gs)"
  by (induction fs arbitrary: d) (auto split: sum.splits)

definition to_apply :: "string list \<Rightarrow> 'd migration_db \<Rightarrow> string list" where
  "to_apply files s = filter (\<lambda>f. f \<notin> set (logged s)) files"

lemma logged_simps [simp]:
  "logged (s\<lparr>mig_faults := fs\<rparr>) = logged s" "logged (s\<lparr>mig_data := d\<rparr>) = logged s"
  "logged (s\<lparr>mig_log := Some l\<rparr>) = l"
  by (simp_all add: logged_def)

lemma run_mig_fault:
  "run_state mig_fault s = (m, s') \<Longrightarrow> mig_data s' = mig_data s \<and> mig_log s' = mig_log s"
  by (auto simp: mig_fault_def split: list.splits)

lemma logged_cong: "mig_log s' = mig_log s \<Longrightarrow> logged s' = logged s"
  by (simp add: logged_def)

lemma run_mig_fault_healthy [simp]: "mig_faults s = [] \<Longrightarrow> run_state mig_fault s = (None, s)"
  by (simp add: mig_fault_def)

lemma migration_tx_effect:
  assumes run: "run_state (migration_tx script f content) s = (r, s')"
  shows "(\<exists>e. r = Inl e) \<and> mig_data s' = mig_data s \<and> mig_log s' = mig_log s \<or>
    r = Inr () \<and> script content (mig_data s) = Inr (mig_data s') \<and> mig_log s' = Some (logged s @ [f])"
  using run unfolding migration_tx_def logged_def
  by (auto split: prod.splits option.splits sum.splits if_splits dest!: run_mig_fault)

lemma apply_migration_effect:
  assumes run: "run_state (apply_migration FS script dir f) s = (r, s')"
  shows "(\<exists>e. r = Inl e) \<and> mig_data s' = mig_data s \<and> mig_log s' = mig_log s \<or>
    r = Inr () \<and> f \<in> set (logged s) \<and> mig_data s' = mig_data s \<and> mig_log s' = mig_log s \<or>
    r = Inr () \<and> f \<notin> set (logged s) \<and> migrate FS script dir [f] (mig_data s) = Some (mig_data s') \<and>
       mig_log s' = Some (logged s @ [f])"
proof -
  obtain v s1 where v: "run_state (mig_call (\<lambda>s. (f \<in> set (logged s), s))) s = (v, s1)" by fastforce
  then have s1: "mig_data s1 = mig_data s" "mig_log s1 = mig_log s"
    and val: "v = Inr b \<Longrightarrow> b = (f \<in> set (logged s))" for b
    by (auto simp: mig_call_def logged_def split: prod.splits option.splits dest!: run_mig_fault)
  show ?thesis
  proof (cases v)
    case (Inl e)
    with run v s1 show ?thesis by (auto simp: apply_migration_def run_rules)
  next
    case (Inr b)
    note b = val [OF Inr]
    show ?thesis
    proof (cases "b \<or> (\<exists>err. ReadFile FS dir f = Inl err)")
      case True
      with run v s1 Inr b show ?thesis by (auto simp: apply_migration_def run_rules split: if_splits)
    next
      case False
      then obtain content where content: "ReadFile FS dir f = Inr content"
        by (cases "ReadFile FS dir f") auto
      with False run v Inr have "run_state (migration_tx script f content) s1 = (r, s')"
        by (simp add: apply_migration_def run_rules)
      from migration_tx_effect [OF this] False content b s1 logged_cong [OF s1(2)] show ?thesis by auto
    qed
  qed
qed

text \<open>Whatever fails, the log grows by the next pending migrations, and the contents have been
  through exactly those.\<close>

lemma loop_effect:
  assumes "run_state (for_each (apply_migration FS script dir) files) s = (r, s')" "distinct files"
  shows "\<exists>k. migrate FS script dir (take k (to_apply files s)) (mig_data s) = Some (mig_data s') \<and>
    logged s' = logged s @ take k (to_apply files s) \<and> (r = Inr () \<longrightarrow> length (to_apply files s) \<le> k)"
  using assms
proof (induction files arbitrary: s)
  case Nil
  then show ?case by (auto simp: to_apply_def)
next
  case (Cons f files)
  obtain v s1 where v: "run_state (apply_migration FS script dir f) s = (v, s1)" by fastforce
  from apply_migration_effect [OF v]
  consider (err) e where "v = Inl e" "mig_data s1 = mig_data s" "mig_log s1 = mig_log s"
    | (skipped) "v = Inr ()" "f \<in> set (logged s)" "mig_data s1 = mig_data s" "mig_log s1 = mig_log s"
    | (applied) "v = Inr ()" "f \<notin> set (logged s)" "migrate FS script dir [f] (mig_data s) = Some (mig_data s1)"
        "logged s1 = logged s @ [f]"
    by (auto simp: logged_def)
  then show ?case
  proof cases
    case err
    then have "s' = s1" "r = Inl e" using Cons.prems(1) v by simp_all
    with err logged_cong [OF err(3)] show ?thesis by (intro exI [of _ 0]) simp
  next
    case skipped
    with Cons.prems v have "run_state (for_each (apply_migration FS script dir) files) s1 = (r, s')" by simp
    moreover note log = logged_cong [OF skipped(4)]
    moreover have "to_apply (f # files) s = to_apply files s1" using skipped(2) log by (simp add: to_apply_def)
    ultimately show ?thesis using Cons.IH [of s1] Cons.prems(2) skipped(3) by simp
  next
    case applied
    with Cons.prems v have rest: "run_state (for_each (apply_migration FS script dir) files) s1 = (r, s')" by simp
    have eq: "to_apply (f # files) s = f # to_apply files s1"
      using applied Cons.prems(2) by (auto simp: to_apply_def intro!: filter_cong)
    from Cons.IH [OF rest] Cons.prems(2) obtain k where
      k: "migrate FS script dir (take k (to_apply files s1)) (mig_data s1) = Some (mig_data s')"
      "logged s' = logged s1 @ take k (to_apply files s1)" "r = Inr () \<longrightarrow> length (to_apply files s1) \<le> k"
      by auto
    have "migrate FS script dir (f # take k (to_apply files s1)) (mig_data s) = Some (mig_data s')"
      using k(1) applied migrate_append [of FS script dir "[f]" "take k (to_apply files s1)"] by simp
    with k eq applied show ?thesis by (intro exI [of _ "Suc k"]) auto
  qed
qed

lemma apply_migration_healthy:
  assumes "mig_faults s = []" "f \<notin> set (logged s)" "migrate FS script dir [f] (mig_data s) = Some d"
  shows "run_state (apply_migration FS script dir f) s =
    (Inr (), s\<lparr>mig_data := d, mig_log := Some (logged s @ [f])\<rparr>)"
  using assms by (auto simp: apply_migration_def run_rules mig_call_def migration_tx_def split: sum.splits)

lemma loop_healthy:
  assumes "mig_faults s = []" "mig_log s = Some l" "distinct files"
    and "migrate FS script dir (to_apply files s) (mig_data s) = Some d"
  shows "run_state (for_each (apply_migration FS script dir) files) s =
    (Inr (), s\<lparr>mig_data := d, mig_log := Some (l @ to_apply files s)\<rparr>)"
  using assms
proof (induction files arbitrary: s l)
  case Nil
  then show ?case by (cases s) (simp add: to_apply_def)
next
  case (Cons f files)
  have l: "logged s = l" using Cons.prems(2) by (simp add: logged_def)
  show ?case
  proof (cases "f \<in> set l")
    case True
    then have "run_state (apply_migration FS script dir f) s = (Inr (), s)"
      using Cons.prems(1) l by (simp add: apply_migration_def run_rules mig_call_def)
    moreover have "to_apply (f # files) s = to_apply files s" using True l by (simp add: to_apply_def)
    ultimately show ?thesis using Cons.IH [OF Cons.prems(1,2)] Cons.prems(3,4) by simp
  next
    case False
    then have head: "to_apply (f # files) s = f # to_apply files s" using l by (simp add: to_apply_def)
    then obtain d1 where d1: "migrate FS script dir [f] (mig_data s) = Some d1"
      "migrate FS script dir (to_apply files s) d1 = Some d"
      using Cons.prems(4) by (auto split: sum.splits)
    let ?s1 = "s\<lparr>mig_data := d1, mig_log := Some (logged s @ [f])\<rparr>"
    have same: "to_apply files ?s1 = to_apply files s"
      using Cons.prems(3) by (auto simp: to_apply_def intro!: filter_cong)
    have "run_state (for_each (apply_migration FS script dir) files) ?s1 =
        (Inr (), ?s1\<lparr>mig_data := d, mig_log := Some ((l @ [f]) @ to_apply files s)\<rparr>)"
      using Cons.IH [of ?s1 "l @ [f]"] Cons.prems d1(2) l same by simp
    with apply_migration_healthy [OF Cons.prems(1) _ d1(1)] False l head show ?thesis by simp
  qed
qed

section \<open>Starting again after a failed start\<close>

lemma RunMigrations_healthy:
  assumes "ReadDir FS dir = Inr entries" "distinct (migration_files entries)" "mig_faults s = []"
    and "migrate FS script dir (to_apply (migration_files entries) s) (mig_data s) = Some d"
  shows "run_state (RunMigrations FS script dir) s =
    (Inr (), \<lparr>mig_data = d, mig_log = Some (logged s @ to_apply (migration_files entries) s), mig_faults = []\<rparr>)"
proof -
  let ?s0 = "s\<lparr>mig_log := Some (logged s)\<rparr>"
  have "run_state (for_each (apply_migration FS script dir) (migration_files entries)) ?s0 =
    (Inr (), ?s0\<lparr>mig_data := d, mig_log := Some (logged s @ to_apply (migration_files entries) ?s0)\<rparr>)"
    using assms by (intro loop_healthy) (simp_all add: to_apply_def)
  moreover have "?s0\<lparr>mig_data := d, mig_log := l\<rparr> = \<lparr>mig_data = d, mig_log = l, mig_faults = []\<rparr>" for l
    using assms(3) by (cases s) simp
  ultimately show ?thesis
    using assms(1,3) by (simp add: RunMigrations_def run_rules mig_call_def create_log_def to_apply_def)
qed

lemma RunMigrations_effect:
  assumes "run_state (RunMigrations FS script dir) s = (r, s')"
    and "ReadDir FS dir = Inr entries" "distinct (migration_files entries)"
  shows "\<exists>k. migrate FS script dir (take k (to_apply (migration_files entries) s)) (mig_data s) = Some (mig_data s') \<and>
    logged s' = logged s @ take k (to_apply (migration_files entries) s) \<and>
    (r = Inr () \<longrightarrow> length (to_apply (migration_files entries) s) \<le> k)"
proof -
  obtain v s1 where v: "run_state (mig_call create_log) s = (v, s1)" by fastforce
  show ?thesis
  proof (cases v)
    case (Inl e)
    with v assms(1) have "mig_data s' = mig_data s" "mig_log s' = mig_log s" "r \<noteq> Inr ()"
      by (auto simp: RunMigrations_def run_rules mig_call_def split: prod.splits option.splits dest!: run_mig_fault)
    with logged_cong [OF this(2)] show ?thesis by (intro exI [of _ 0]) simp
  next
    case (Inr u)
    with v have s1: "mig_data s1 = mig_data s" "logged s1 = logged s"
      by (auto simp: mig_call_def create_log_def logged_def split: prod.splits option.splits dest!: run_mig_fault)
    have "run_state (for_each (apply_migration FS script dir) (migration_files entries)) s1 = (r, s')"
      using assms(1,2) v Inr by (simp add: RunMigrations_def run_rules)
    from loop_effect [OF this assms(3)] s1 show ?thesis by (auto simp: to_apply_def)
  qed
qed

lemma to_apply_again:
  assumes "logged s' = logged s @ take k (to_apply files s)" "distinct files"
  shows "to_apply files s' = drop k (to_apply files s)"
proof -
  let ?p = "to_apply files s"
  have "distinct ?p" using assms(2) by (simp add: to_apply_def)
  then have "set (take k ?p) \<inter> set (drop k ?p) = {}"
    by (metis append_take_drop_id distinct_append)
  then have "filter (\<lambda>f. f \<notin> set (take k ?p)) (take k ?p) = []"
      "filter (\<lambda>f. f \<notin> set (take k ?p)) (drop k ?p) = drop k ?p"
    by (auto simp: filter_empty_conv intro!: filter_True)
  then have "filter (\<lambda>f. f \<notin> set (take k ?p)) (take k ?p @ drop k ?p) = drop k ?p"
    unfolding filter_append by (simp only: append_Nil)
  then have "filter (\<lambda>f. f \<notin> set (take k ?p)) ?p = drop k ?p" by simp
  moreover have "to_apply files s' = filter (\<lambda>f. f \<notin> set (take k ?p)) ?p"
    using assms(1) by (auto simp: to_apply_def filter_filter conj_commute intro!: filter_cong)
  ultimately show ?thesis by simp
qed

lemma migrations_resume:
  assumes "ReadDir FS dir = Inr entries" "distinct (migration_files entries)"
    and undisturbed: "run_state (RunMigrations FS script dir) (s\<lparr>mig_faults := []\<rparr>) = (Inr (), s2)"
    and disturbed: "run_state (RunMigrations FS script dir) (s\<lparr>mig_faults := fs\<rparr>) = (r, s1)"
  shows "run_state (RunMigrations FS script dir) (s1\<lparr>mig_faults := []\<rparr>) = (Inr (), s2)"
proof -
  let ?files = "migration_files entries"
  have p: "to_apply ?files (s\<lparr>mig_faults := x\<rparr>) = to_apply ?files s" for x by (simp add: to_apply_def)
  obtain d where d: "migrate FS script dir (to_apply ?files s) (mig_data s) = Some d"
    using RunMigrations_effect [OF undisturbed assms(1,2)] by (auto simp: p)
  then have s2: "s2 = \<lparr>mig_data = d, mig_log = Some (logged s @ to_apply ?files s), mig_faults = []\<rparr>"
    using RunMigrations_healthy [OF assms(1,2), of "s\<lparr>mig_faults := []\<rparr>" script d] undisturbed by (simp add: p)
  obtain k where k: "migrate FS script dir (take k (to_apply ?files s)) (mig_data s) = Some (mig_data s1)"
    "logged s1 = logged s @ take k (to_apply ?files s)"
    using RunMigrations_effect [OF disturbed assms(1,2)] by (auto simp: p)
  have rest: "to_apply ?files s1 = drop k (to_apply ?files s)"
    by (rule to_apply_again [OF k(2) assms(2)])
  have "migrate FS script dir (take k (to_apply ?files s) @ drop k (to_apply ?files s)) (mig_data s) = Some d"
    using d by simp
  then have "migrate FS script dir (to_apply ?files s1) (mig_data s1) = Some d"
    unfolding migrate_append using k(1) rest by simp
  with RunMigrations_healthy [OF assms(1,2), of "s1\<lparr>mig_faults := []\<rparr>" script d] k(2) rest s2
  show ?thesis by (simp add: to_apply_def)
qed

end
