(* ===== verification/Http_Client.thy ===== *)
theory Http_Client
  imports Fetching Go_Url
begin

text \<open>
  The clients of the platforms' APIs (\<open>infrastructure/github/client.go\<close>,
  \<open>infrastructure/gitlab/client.go\<close>): one GET request, and the loop that follows the next-page
  links. The network is a parameter, the record \<open>net\<close>: what making and sending a request yields,
  and what \<open>encoding/json\<close> makes of a body. The loop need not end: it is a partial function, and
  \<open>None\<close> is the run that fetches pages forever.
\<close>

section \<open>The network\<close>

record http_request =
  hq_url :: string
  hq_headers :: "(string \<times> string) list"

text \<open>The body is what \<open>io.ReadAll\<close> returns; a missing header reads as the empty text.\<close>

record http_response =
  hr_status :: nat
  hr_header :: "string \<Rightarrow> string"
  hr_body :: "string result"

text \<open>
  \<^item> \<open>new_request url\<close>: \<open>http.NewRequestWithContext\<close>, the text of the request's URL or an error;
  \<^item> \<open>do_request\<close>: \<open>httpClient.Do\<close>, which has no timeout;
  \<^item> \<open>authority_ok\<close>: the check of \<open>net/url\<close> on the authority of a URL.
\<close>

record net =
  new_request :: "string \<Rightarrow> string result"
  do_request :: "http_request \<Rightarrow> http_response result outcome"
  authority_ok :: "string \<Rightarrow> bool"

record api_client =
  client_baseURL :: string
  client_apiKey :: string

definition NewApiClient :: "string \<Rightarrow> string \<Rightarrow> api_client" where
  "NewApiClient baseURL apiKey =
     \<lparr>client_baseURL = TrimRight baseURL (CHR ''/''), client_apiKey = apiKey\<rparr>"

definition full_url :: "api_client \<Rightarrow> string \<Rightarrow> string" where
  "full_url c url = (if \<not> HasPrefix url ''http'' then client_baseURL c @ url else url)"

section \<open>One request\<close>

definition check_response :: "http_response \<Rightarrow> string result" where
  "check_response resp =
     (case hr_body resp of
        Inl err \<Rightarrow> Inl (Errorf ''reading response body'' err)
      | Inr body \<Rightarrow>
          if hr_status resp < 200 \<or> hr_status resp \<ge> 300
          then Inl (Msg (''unexpected status '' @ decimal (hr_status resp) @ '': '' @ body))
          else Inr body)"

text \<open>A request with given headers: the text of its URL, the response and its body.\<close>

definition get_page ::
    "net \<Rightarrow> (string \<times> string) list \<Rightarrow> string \<Rightarrow> (string \<times> http_response \<times> string) result outcome" where
  "get_page N headers url =
     (case new_request N url of
        Inl err \<Rightarrow> Returned (Inl (Errorf ''creating request'' err))
      | Inr requested \<Rightarrow>
          and_then (wrap_err ''executing request''
              (do_request N \<lparr>hq_url = requested, hq_headers = headers\<rparr>))
            (\<lambda>resp. Returned (case check_response resp of
               Inl err \<Rightarrow> Inl err
             | Inr body \<Rightarrow> Inr (requested, resp, body))))"

definition http_Get :: "net \<Rightarrow> (string \<times> string) list \<Rightarrow> string \<Rightarrow> string result outcome" where
  "http_Get N headers url =
     and_then (get_page N headers url) (\<lambda>(requested, resp, body). Returned (Inr body))"

section \<open>Following pages\<close>

text \<open>The loop of \<open>GetAll\<close>; \<open>nxt\<close> computes the URL of the next page, empty when there is none.\<close>

partial_function (option) get_all_loop ::
    "net \<Rightarrow> (string \<times> string) list \<Rightarrow> (string \<Rightarrow> http_response \<Rightarrow> string) \<Rightarrow> string \<Rightarrow> string list
      \<Rightarrow> string list result outcome option" where
  "get_all_loop N headers nxt currentURL pages =
     (if currentURL = [] then Some (Returned (Inr pages))
      else (case get_page N headers currentURL of
          Returned (Inl err) \<Rightarrow> Some (Returned (Inl err))
        | Panicked \<Rightarrow> Some Panicked
        | Diverged \<Rightarrow> Some Diverged
        | Returned (Inr page) \<Rightarrow>
            get_all_loop N headers nxt (nxt (fst page) (fst (snd page))) (pages @ [snd (snd page)])))"

definition http_GetAll ::
    "net \<Rightarrow> (string \<times> string) list \<Rightarrow> (string \<Rightarrow> http_response \<Rightarrow> string) \<Rightarrow> string
      \<Rightarrow> string list result outcome" where
  "http_GetAll N headers nxt url =
     (case get_all_loop N headers nxt url [] of None \<Rightarrow> Diverged | Some r \<Rightarrow> r)"

subsection \<open>When the loop ends\<close>

text \<open>A chain of pages: every page is fetched, and the last one names no next page.\<close>

inductive page_chain ::
    "net \<Rightarrow> (string \<times> string) list \<Rightarrow> (string \<Rightarrow> http_response \<Rightarrow> string) \<Rightarrow> string \<Rightarrow> string list \<Rightarrow> bool"
  for N headers nxt where
  last_page: "page_chain N headers nxt [] []"
| more_pages: "\<lbrakk>url \<noteq> []; get_page N headers url = Returned (Inr (requested, resp, body));
    page_chain N headers nxt (nxt requested resp) bodies\<rbrakk>
    \<Longrightarrow> page_chain N headers nxt url (body # bodies)"

inductive_cases page_chain_NilE: "page_chain N headers nxt [] bodies"
inductive_cases page_chain_ConsE: "page_chain N headers nxt (c # url) bodies"

text \<open>The URL that follows a URL, when its page can be fetched.\<close>

definition next_url ::
    "net \<Rightarrow> (string \<times> string) list \<Rightarrow> (string \<Rightarrow> http_response \<Rightarrow> string) \<Rightarrow> string \<Rightarrow> string option" where
  "next_url N headers nxt url =
     (if url = [] then None
      else case get_page N headers url of
        Returned (Inr page) \<Rightarrow> Some (nxt (fst page) (fst (snd page)))
      | _ \<Rightarrow> None)"

text \<open>The URL after \<open>n\<close> pages.\<close>

fun url_after ::
    "net \<Rightarrow> (string \<times> string) list \<Rightarrow> (string \<Rightarrow> http_response \<Rightarrow> string) \<Rightarrow> string \<Rightarrow> nat \<Rightarrow> string option" where
  "url_after N headers nxt url 0 = Some url"
| "url_after N headers nxt url (Suc n) =
     (case next_url N headers nxt url of None \<Rightarrow> None | Some u \<Rightarrow> url_after N headers nxt u n)"

lemma chain_loop:
  "page_chain N headers nxt url bodies \<Longrightarrow>
   get_all_loop N headers nxt url pages = Some (Returned (Inr (pages @ bodies)))"
proof (induction arbitrary: pages rule: page_chain.induct)
  case last_page
  then show ?case by (simp add: get_all_loop.simps)
next
  case (more_pages url requested resp body bodies)
  then show ?case by (subst get_all_loop.simps) simp
qed

lemma loop_chain:
  assumes "get_all_loop N headers nxt url pages = Some r"
  shows "\<forall>all_pages. r = Returned (Inr all_pages) \<longrightarrow>
    (\<exists>bodies. all_pages = pages @ bodies \<and> page_chain N headers nxt url bodies)"
proof (rule get_all_loop.raw_induct [where P = "\<lambda>N headers nxt url pages r. \<forall>all_pages.
    r = Returned (Inr all_pages) \<longrightarrow> (\<exists>bodies. all_pages = pages @ bodies \<and> page_chain N headers nxt url bodies)", OF _ assms],
    intro allI impI)
  fix loop N headers nxt url pages r all_pages
  assume IH: "\<And>N headers nxt url pages r. loop N headers nxt url pages = Some r \<Longrightarrow>
      \<forall>all_pages. r = Returned (Inr all_pages) \<longrightarrow>
        (\<exists>bodies. all_pages = pages @ bodies \<and> page_chain N headers nxt url bodies)"
    and body: "(if url = [] then Some (Returned (Inr pages))
      else case get_page N headers url of Returned (Inl err) \<Rightarrow> Some (Returned (Inl err))
        | Returned (Inr page) \<Rightarrow> loop N headers nxt (nxt (fst page) (fst (snd page))) (pages @ [snd (snd page)])
        | Panicked \<Rightarrow> Some Panicked | Diverged \<Rightarrow> Some Diverged) = Some r"
    and r: "r = Returned (Inr all_pages)"
  show "\<exists>bodies. all_pages = pages @ bodies \<and> page_chain N headers nxt url bodies"
  proof (cases "url = []")
    case True
    with body r have "all_pages = pages @ []" by simp
    with True show ?thesis using last_page by blast
  next
    case False
    with body r obtain requested resp body where
      page: "get_page N headers url = Returned (Inr (requested, resp, body))"
        "loop N headers nxt (nxt requested resp) (pages @ [body]) = Some r"
      by (auto split: outcome.splits sum.splits)
    from IH [OF page(2)] r obtain bodies where
      bodies: "all_pages = (pages @ [body]) @ bodies" "page_chain N headers nxt (nxt requested resp) bodies" by blast
    then have "all_pages = pages @ body # bodies" by simp
    with more_pages [OF False page(1) bodies(2)] show ?thesis by blast
  qed
qed

lemma GetAll_pages:
  "http_GetAll N headers nxt url = Returned (Inr bodies) \<longleftrightarrow> page_chain N headers nxt url bodies"
proof
  assume "http_GetAll N headers nxt url = Returned (Inr bodies)"
  then have "get_all_loop N headers nxt url [] = Some (Returned (Inr bodies))"
    by (auto simp: http_GetAll_def split: option.splits)
  from loop_chain [OF this] show "page_chain N headers nxt url bodies" by simp
next
  assume "page_chain N headers nxt url bodies"
  from chain_loop [OF this, of "[]"] show "http_GetAll N headers nxt url = Returned (Inr bodies)"
    by (simp add: http_GetAll_def)
qed

lemma loop_step:
  "next_url N headers nxt url = Some u \<Longrightarrow>
   \<exists>body. get_all_loop N headers nxt url pages = get_all_loop N headers nxt u (pages @ [body])"
  by (subst get_all_loop.simps) (auto simp: next_url_def split: if_splits outcome.splits sum.splits)

lemma loop_stops: "next_url N headers nxt url = None \<Longrightarrow> get_all_loop N headers nxt url pages \<noteq> None"
  by (subst get_all_loop.simps) (auto simp: next_url_def split: if_splits outcome.splits sum.splits)

lemma loop_ends: "url_after N headers nxt url n = None \<Longrightarrow> get_all_loop N headers nxt url pages \<noteq> None"
proof (induction n arbitrary: url pages)
  case (Suc n)
  show ?case
  proof (cases "next_url N headers nxt url")
    case None
    then show ?thesis by (rule loop_stops)
  next
    case (Some u)
    with Suc.prems have "url_after N headers nxt u n = None" by simp
    with loop_step [OF Some, of pages] Suc.IH show ?thesis by auto
  qed
qed simp

lemma loop_forever:
  assumes "get_all_loop N headers nxt url pages = Some r"
  shows "\<exists>n. url_after N headers nxt url n = None"
proof (rule get_all_loop.raw_induct [where P = "\<lambda>N headers nxt url pages r.
    \<exists>n. url_after N headers nxt url n = None", OF _ assms])
  fix loop N headers nxt url pages r
  assume IH: "\<And>N headers nxt url pages r. loop N headers nxt url pages = Some r \<Longrightarrow>
      \<exists>n. url_after N headers nxt url n = None"
    and body: "(if url = [] then Some (Returned (Inr pages))
      else case get_page N headers url of Returned (Inl err) \<Rightarrow> Some (Returned (Inl err))
        | Returned (Inr page) \<Rightarrow> loop N headers nxt (nxt (fst page) (fst (snd page))) (pages @ [snd (snd page)])
        | Panicked \<Rightarrow> Some Panicked | Diverged \<Rightarrow> Some Diverged) = Some r"
  show "\<exists>n. url_after N headers nxt url n = None"
  proof (cases "next_url N headers nxt url")
    case None
    then have "url_after N headers nxt url (Suc 0) = None" by simp
    then show ?thesis by (rule exI)
  next
    case (Some u)
    then obtain requested resp content where page: "url \<noteq> []" "get_page N headers url = Returned (Inr (requested, resp, content))"
      "u = nxt requested resp"
      by (auto simp: next_url_def split: if_splits outcome.splits sum.splits)
    with body have "loop N headers nxt u (pages @ [content]) = Some r" by simp
    from IH [OF this] obtain n where "url_after N headers nxt u n = None" by blast
    with Some have "url_after N headers nxt url (Suc n) = None" by simp
    then show ?thesis by (rule exI)
  qed
qed

text \<open>The loop ends exactly if after finitely many pages there is no next URL to fetch.\<close>

lemma loop_ends_iff:
  "get_all_loop N headers nxt url pages \<noteq> None \<longleftrightarrow> (\<exists>n. url_after N headers nxt url n = None)"
  using loop_ends loop_forever by (metis option.exhaust)

lemma url_after_add:
  "url_after N headers nxt url (m + n) =
     (case url_after N headers nxt url m of None \<Rightarrow> None | Some u \<Rightarrow> url_after N headers nxt u n)"
  by (induction m arbitrary: url) (auto split: option.splits)

text \<open>A server whose pages lead back to an earlier one keeps the loop going forever.\<close>

lemma cycle_diverges:
  assumes "url_after N headers nxt url m = Some u" "url_after N headers nxt u (Suc n) = Some u"
  shows "get_all_loop N headers nxt url pages = None"
proof -
  have "url_after N headers nxt u (k * Suc n) = Some u" for k
  proof (induction k)
    case (Suc k)
    then show ?case
      unfolding mult_Suc url_after_add assms(2) by simp
  qed simp
  then have loop: "url_after N headers nxt url (m + k * Suc n) = Some u" for k
    using assms(1) by (simp add: url_after_add)
  have "url_after N headers nxt url k \<noteq> None" for k
  proof
    assume none: "url_after N headers nxt url k = None"
    have "k \<le> m + k * Suc n" by simp
    then obtain j where "m + k * Suc n = k + j" using le_Suc_ex by blast
    with none loop [of k] show False by (simp add: url_after_add del: mult_Suc_right)
  qed
  then show ?thesis using loop_ends_iff by blast
qed

end
