(* ===== verification/GitHub.thy ===== *)
theory GitHub
  imports Http_Client
begin

text \<open>
  The GitHub fetcher (\<open>infrastructure/github\<close>): the client with its \<open>Link\<close> header, the entities of
  the API's answers, and the fetcher's methods. The decoders of \<open>encoding/json\<close> are a parameter, the
  record \<open>gh_json\<close>.
\<close>

section \<open>Client\<close>

definition re_space :: "char \<Rightarrow> bool" where
  "re_space c \<longleftrightarrow> c = CHR '' '' \<or> byte c \<in> {9, 10, 12, 13}"

text \<open>The regular expression \<open><([^>]+)>;\s*rel="next"\<close>, first at a given place, then anywhere.\<close>

definition link_at :: "string \<Rightarrow> string option" where
  "link_at s =
     (case s of
        [] \<Rightarrow> None
      | c # t \<Rightarrow>
          let url = takeWhile (\<lambda>x. x \<noteq> CHR ''>'') t; rest = dropWhile (\<lambda>x. x \<noteq> CHR ''>'') t
          in if c = CHR ''<'' \<and> url \<noteq> [] \<and> HasPrefix rest ''>;'' \<and>
               HasPrefix (dropWhile re_space (drop 2 rest)) (''rel='' @ [CHR 0x22] @ ''next'' @ [CHR 0x22])
             then Some url else None)"

fun find_next_link :: "string \<Rightarrow> string option" where
  "find_next_link [] = None"
| "find_next_link (c # s) = (case link_at (c # s) of Some url \<Rightarrow> Some url | None \<Rightarrow> find_next_link s)"

definition parseNextLink :: "string \<Rightarrow> string" where
  "parseNextLink header =
     (if header = [] then []
      else case find_next_link header of None \<Rightarrow> [] | Some url \<Rightarrow> url)"

definition gh_headers :: "api_client \<Rightarrow> (string \<times> string) list" where
  "gh_headers c = [(''Authorization'', ''Bearer '' @ client_apiKey c),
     (''Accept'', ''application/vnd.github+json'')]"

definition gh_Get :: "net \<Rightarrow> api_client \<Rightarrow> string \<Rightarrow> string result outcome" where
  "gh_Get N c url = http_Get N (gh_headers c) (full_url c url)"

definition gh_next :: "string \<Rightarrow> http_response \<Rightarrow> string" where
  "gh_next requested resp = parseNextLink (hr_header resp ''Link'')"

definition gh_GetAll :: "net \<Rightarrow> api_client \<Rightarrow> string \<Rightarrow> string list result outcome" where
  "gh_GetAll N c url = http_GetAll N (gh_headers c) gh_next (full_url c url)"

section \<open>Entities\<close>

record gh_commit_user =
  ghu_name :: string
  ghu_email :: string
  ghu_date :: go_time

record gh_commit_data =
  ghd_message :: string
  ghd_author :: gh_commit_user

record gh_commit =
  ghc_sha :: string
  ghc_commit :: gh_commit_data
  ghc_html_url :: string

record gh_label =
  ghl_name :: string

record gh_pr_ref =
  ghp_merged_at :: "go_time option"
  ghp_html_url :: string

record gh_search_repo =
  ghs_full_name :: string

record gh_issue =
  ghi_id :: int
  ghi_number :: int
  ghi_title :: string
  ghi_state :: string
  ghi_html_url :: string
  ghi_created_at :: go_time
  ghi_labels :: "gh_label list"
  ghi_repository :: "gh_search_repo option"
  ghi_pull_request :: "gh_pr_ref option"

record gh_pull_request =
  ghq_id :: int
  ghq_number :: int
  ghq_title :: string
  ghq_state :: string
  ghq_html_url :: string
  ghq_created_at :: go_time
  ghq_merged_at :: "go_time option"
  ghq_repository :: "gh_search_repo option"
  ghq_pull_request :: "gh_pr_ref option"

record gh_user =
  gh_login :: string

record gh_review =
  ghr_id :: int
  ghr_state :: string
  ghr_html_url :: string
  ghr_submitted_at :: go_time
  ghr_user :: gh_user

record gh_repository =
  ghrepo_id :: int
  ghrepo_name :: string
  ghrepo_full_name :: string
  ghrepo_html_url :: string

record 'a gh_search_result =
  gh_total_count :: int
  gh_items :: "'a list"

record gh_json =
  dec_gh_repos :: "string \<Rightarrow> gh_repository list result"
  dec_gh_commits :: "string \<Rightarrow> gh_commit list result"
  dec_gh_search :: "string \<Rightarrow> gh_issue gh_search_result result"
  dec_gh_reviews :: "string \<Rightarrow> gh_review list result"

section \<open>Helpers\<close>

text \<open>\<open>json.Unmarshal\<close> with its wrapped error.\<close>

definition unmarshal :: "string \<Rightarrow> (string \<Rightarrow> 'a result) \<Rightarrow> string \<Rightarrow> 'a result outcome" where
  "unmarshal msg dec text0 = wrap_err msg (Returned (dec text0))"

fun makeTypeSet :: "activity_type list \<Rightarrow> (string, bool) go_map \<Rightarrow> (string, bool) go_map" where
  "makeTypeSet [] m = m"
| "makeTypeSet (t # ts) m = makeTypeSet ts (map_put (type_name t) True m)"

fun makeRepoSet :: "repository list \<Rightarrow> (string, bool) go_map \<Rightarrow> (string, bool) go_map" where
  "makeRepoSet [] m = m"
| "makeRepoSet (r # rs) m = makeRepoSet rs (map_put (repo_full_name r) True m)"

definition wants :: "activity_type list \<Rightarrow> activity_type \<Rightarrow> bool" where
  "wants types t \<longleftrightarrow> map_of (makeTypeSet types []) (type_name t) \<noteq> None"

text \<open>\<open>if _, ok := typeSet[t.Name]; ok { xs, err := fetch(); if err != nil {...}; append }\<close>\<close>

definition fetch_if ::
    "activity_type list \<Rightarrow> activity_type \<Rightarrow> string \<Rightarrow> activity list result outcome
      \<Rightarrow> activity list result outcome" where
  "fetch_if types t msg m = (if wants types t then wrap_err msg m else Returned (Inr []))"

definition both ::
    "activity list result outcome \<Rightarrow> activity list result outcome \<Rightarrow> activity list result outcome" where
  "both m n = and_then m (\<lambda>xs. and_then n (\<lambda>ys. Returned (Inr (xs @ ys))))"

definition mapReviewState :: "string \<Rightarrow> review_state" where
  "mapReviewState s =
     (if s = ''APPROVED'' then ReviewStateApproved
      else if s = ''CHANGES_REQUESTED'' then ReviewStateChangesRequested
      else ReviewStateCommented)"

definition repoFromURL :: "string \<Rightarrow> string" where
  "repoFromURL htmlURL =
     (if \<not> HasPrefix htmlURL ''https://github.com/'' then []
      else let parts = SplitN (drop 19 htmlURL) (CHR ''/'') 4
        in if length parts < 2 then [] else parts ! 0 @ ''/'' @ parts ! 1)"

definition issue_state_of :: "string \<Rightarrow> issue_state" where
  "issue_state_of s = (if s = ''closed'' then IssueStateClosed else IssueStateOpen)"

definition gh_commit_activity :: "gh_commit \<Rightarrow> activity" where
  "gh_commit_activity c = NewCommit
     \<lparr>data_title = ghd_message (ghc_commit c), data_url = ghc_html_url c,
      data_created_at = ghu_date (ghd_author (ghc_commit c))\<rparr>
     (ghc_sha c) (ghd_message (ghc_commit c))"

definition gh_issue_activity :: "gh_issue \<Rightarrow> activity" where
  "gh_issue_activity i = NewIssue
     \<lparr>data_title = ghi_title i, data_url = ghi_html_url i, data_created_at = ghi_created_at i\<rparr>
     (ghi_title i) (issue_state_of (ghi_state i)) (map ghl_name (ghi_labels i))"

definition gh_merged_at :: "gh_issue \<Rightarrow> go_time" where
  "gh_merged_at i =
     (case ghi_pull_request i of
        None \<Rightarrow> ghi_created_at i
      | Some ref \<Rightarrow> (case ghp_merged_at ref of None \<Rightarrow> ghi_created_at i | Some t \<Rightarrow> t))"

definition gh_pr_activity :: "gh_issue \<Rightarrow> activity" where
  "gh_pr_activity i = NewMergedPullRequest
     \<lparr>data_title = ghi_title i, data_url = ghi_html_url i, data_created_at = ghi_created_at i\<rparr>
     (ghi_title i) (gh_merged_at i)"

definition gh_review_activity :: "gh_issue \<Rightarrow> gh_review \<Rightarrow> activity" where
  "gh_review_activity pr r = NewPullRequestReview
     \<lparr>data_title = ghi_title pr, data_url = ghr_html_url r, data_created_at = ghr_submitted_at r\<rparr>
     (ghi_title pr) (mapReviewState (ghr_state r)) (ghr_submitted_at r)"

definition gh_repo_of :: "gh_repository \<Rightarrow> repository" where
  "gh_repo_of r = \<lparr>repo_id = FormatInt (ghrepo_id r), repo_name = ghrepo_name r,
     repo_full_name = ghrepo_full_name r, repo_url = ghrepo_html_url r,
     repo_platform = PlatformGitHub, repo_api_token = []\<rparr>"

definition created_range :: "go_time \<Rightarrow> go_time \<Rightarrow> string" where
  "created_range since until = ''created:'' @ Format_Date since @ ''..'' @ Format_Date until"

section \<open>The methods\<close>

definition gh_DiscoverUserRepos :: "net \<Rightarrow> gh_json \<Rightarrow> api_client \<Rightarrow> string \<Rightarrow> repository list result outcome" where
  "gh_DiscoverUserRepos N J c username =
     (let path = ''/users/'' @ PathEscape username @ ''/repos?per_page=100''
      in and_then (wrap_err ''fetching user repos'' (gh_GetAll N c path))
        (append_each (\<lambda>page. and_then (unmarshal ''parsing repos response'' (dec_gh_repos J) page)
          (\<lambda>ghRepos. Returned (Inr (map gh_repo_of ghRepos))))))"

definition gh_fetchCommits ::
    "net \<Rightarrow> gh_json \<Rightarrow> api_client \<Rightarrow> string \<Rightarrow> repository \<Rightarrow> go_time \<Rightarrow> go_time \<Rightarrow> activity list result outcome" where
  "gh_fetchCommits N J c username repo since until =
     (let params = Values_Set ''until'' (Format_RFC3339 until)
            (Values_Set ''since'' (Format_RFC3339 since) (Values_Set ''author'' username []));
          path = ''/repos/'' @ repo_full_name repo @ ''/commits?'' @ Values_Encode params
      in and_then (gh_GetAll N c path)
        (append_each (\<lambda>page. and_then (unmarshal ''parsing commits response'' (dec_gh_commits J) page)
          (\<lambda>commits. Returned (Inr (map gh_commit_activity commits))))))"

text \<open>The loop over the reviews of a pull request: those of the user, within the period.\<close>

definition gh_user_reviews :: "string \<Rightarrow> go_time \<Rightarrow> go_time \<Rightarrow> gh_issue \<Rightarrow> gh_review list \<Rightarrow> activity list" where
  "gh_user_reviews username since until pr reviews =
     map (gh_review_activity pr) (filter (\<lambda>r. gh_login (ghr_user r) = username \<and>
       in_period since until (ghr_submitted_at r)) reviews)"

definition gh_pr_reviews ::
    "net \<Rightarrow> gh_json \<Rightarrow> api_client \<Rightarrow> string \<Rightarrow> repository \<Rightarrow> go_time \<Rightarrow> go_time \<Rightarrow> gh_issue
      \<Rightarrow> activity list result outcome" where
  "gh_pr_reviews N J c username repo since until pr =
     (let reviewsPath = ''/repos/'' @ repo_full_name repo @ ''/pulls/'' @ FormatInt (ghi_number pr) @ ''/reviews''
      in and_then (gh_Get N c reviewsPath) (\<lambda>reviewBody.
        and_then (unmarshal ''parsing reviews response'' (dec_gh_reviews J) reviewBody) (\<lambda>reviews.
        Returned (Inr (gh_user_reviews username since until pr reviews)))))"

definition gh_fetchReviews ::
    "net \<Rightarrow> gh_json \<Rightarrow> api_client \<Rightarrow> string \<Rightarrow> repository \<Rightarrow> go_time \<Rightarrow> go_time \<Rightarrow> activity list result outcome" where
  "gh_fetchReviews N J c username repo since until =
     (let q = ''reviewed-by:'' @ username @ '' repo:'' @ repo_full_name repo @ '' '' @ created_range since until;
          path = ''/search/issues?'' @ Values_Encode (Values_Set ''q'' q [])
      in and_then (gh_Get N c path) (\<lambda>body.
        and_then (unmarshal ''parsing search response'' (dec_gh_search J) body) (\<lambda>found.
        append_each (gh_pr_reviews N J c username repo since until) (gh_items found))))"

text \<open>The search loop shared by \<open>searchIssues\<close> and \<open>searchMergedPRs\<close>: one request per repository, in
  the order in which Go ranges over the set.\<close>

definition gh_search_items ::
    "net \<Rightarrow> gh_json \<Rightarrow> api_client \<Rightarrow> iteration \<Rightarrow> string \<Rightarrow> string \<Rightarrow> go_time \<Rightarrow> go_time
      \<Rightarrow> (string, bool) go_map \<Rightarrow> gh_issue list result outcome" where
  "gh_search_items N J c it username kind since until repoSet =
     append_each (\<lambda>name.
       (let q = ''author:'' @ username @ '' '' @ kind @ '' repo:'' @ name @ '' '' @ created_range since until;
            path = ''/search/issues?'' @ Values_Encode (Values_Set ''q'' q [])
        in and_then (gh_Get N c path) (\<lambda>body.
          and_then (unmarshal ''parsing search response'' (dec_gh_search J) body) (\<lambda>found.
          Returned (Inr (gh_items found))))))
       (map fst (range_order it repoSet))"

definition gh_searchIssues ::
    "net \<Rightarrow> gh_json \<Rightarrow> api_client \<Rightarrow> iteration \<Rightarrow> string \<Rightarrow> go_time \<Rightarrow> go_time
      \<Rightarrow> (string, bool) go_map \<Rightarrow> activity list result outcome" where
  "gh_searchIssues N J c it username since until repoSet =
     and_then (gh_search_items N J c it username ''type:issue'' since until repoSet)
       (\<lambda>allItems. Returned (Inr (map gh_issue_activity allItems)))"

definition gh_searchMergedPRs ::
    "net \<Rightarrow> gh_json \<Rightarrow> api_client \<Rightarrow> iteration \<Rightarrow> string \<Rightarrow> go_time \<Rightarrow> go_time
      \<Rightarrow> (string, bool) go_map \<Rightarrow> activity list result outcome" where
  "gh_searchMergedPRs N J c it username since until repoSet =
     and_then (gh_search_items N J c it username ''type:pr is:merged'' since until repoSet)
       (\<lambda>allItems. Returned (Inr (map gh_pr_activity allItems)))"

definition gh_FetchForUser ::
    "net \<Rightarrow> gh_json \<Rightarrow> api_client \<Rightarrow> string \<Rightarrow> repository \<Rightarrow> activities_call" where
  "gh_FetchForUser N J c username repo since until types =
     both (fetch_if types ActivityTypeCommit ''fetching commits''
             (gh_fetchCommits N J c username repo since until))
          (fetch_if types ActivityTypePullRequestReview ''fetching reviews''
             (gh_fetchReviews N J c username repo since until))"

definition gh_SearchActivities ::
    "net \<Rightarrow> gh_json \<Rightarrow> api_client \<Rightarrow> iteration \<Rightarrow> string \<Rightarrow> repository list \<Rightarrow> activities_call" where
  "gh_SearchActivities N J c it username repos since until types =
     (let repoSet = makeRepoSet repos []
      in both (fetch_if types ActivityTypeIssue ''searching issues''
                (gh_searchIssues N J c it username since until repoSet))
              (fetch_if types ActivityTypeMergedPullRequest ''searching merged PRs''
                (gh_searchMergedPRs N J c it username since until repoSet)))"

definition gh_GetSupportedPlatforms :: "git_platform list" where
  "gh_GetSupportedPlatforms = [PlatformGitHub]"

definition gh_GetSupportedTypes :: "activity_type list" where
  "gh_GetSupportedTypes = [ActivityTypeCommit, ActivityTypeMergedPullRequest, ActivityTypeIssue,
     ActivityTypePullRequestReview]"

definition gh_NewActivityFetcher :: "net \<Rightarrow> gh_json \<Rightarrow> iteration \<Rightarrow> api_client \<Rightarrow> fetcher" where
  "gh_NewActivityFetcher N J it c = \<lparr>f_platforms = gh_GetSupportedPlatforms, f_types = gh_GetSupportedTypes,
     f_fetch = gh_FetchForUser N J c, f_search = gh_SearchActivities N J c it,
     f_discover = Some (gh_DiscoverUserRepos N J c)\<rparr>"

text \<open>\<open>FetcherFactory.Build\<close>\<close>

text \<open>A factory keeps the address of the platform; \<open>Build\<close> makes a client with it.\<close>

definition gh_Build :: "net \<Rightarrow> gh_json \<Rightarrow> iteration \<Rightarrow> string \<Rightarrow> fetcher_factory" where
  "gh_Build N J it baseURL apiKey = gh_NewActivityFetcher N J it (NewApiClient baseURL apiKey)"

definition gh_NewFetcherFactory :: "net \<Rightarrow> gh_json \<Rightarrow> iteration \<Rightarrow> string \<Rightarrow> fetcher_factory" where
  [simp]: "gh_NewFetcherFactory N J it baseURL = gh_Build N J it baseURL"

end
