(* ===== verification/GitLab.thy ===== *)
theory GitLab
  imports GitHub
begin

text \<open>
  The GitLab fetcher (\<open>infrastructure/gitlab\<close>): the client with its \<open>X-Next-Page\<close> header, the
  entities, and the fetcher's methods. The project of an issue or a merge request is cut out of
  its web address; \<open>path[1:]\<close> panics on an address whose path is empty. The package's own client
  record and helpers (\<open>makeTypeSet\<close>, \<open>makeRepoSet\<close>, \<open>fetchIf\<close>) are modelled as they stand and proved
  equal to those of the GitHub package.
\<close>

section \<open>Client\<close>

text \<open>The package declares a client of its own, with the fields of the GitHub package's.\<close>

type_synonym gl_api_client = api_client

definition is_page_param :: "string \<Rightarrow> bool" where
  "is_page_param p \<longleftrightarrow> p = ''page'' \<or> HasPrefix p ''page=''"

definition hasPageParam :: "string \<Rightarrow> bool" where
  "hasPageParam raw =
     (case Index raw ''?'' of
        None \<Rightarrow> False
      | Some qIdx \<Rightarrow> list_ex is_page_param (Split (drop (qIdx + 1) raw) (CHR ''&'')))"

definition nextPageURL :: "string \<Rightarrow> string \<Rightarrow> string" where
  "nextPageURL raw nextPage =
     (if nextPage = [] \<or> nextPage = ''0'' then []
      else if hasPageParam raw then
        (let parts = SplitN raw (CHR ''?'') 2
         in if length parts \<noteq> 2 then []
            else parts ! 0 @ ''?'' @ Join (map (\<lambda>p. if is_page_param p then ''page='' @ nextPage else p)
              (Split (parts ! 1) (CHR ''&''))) ''&'')
      else if Contains raw ''?'' then raw @ ''&page='' @ nextPage
      else raw @ ''?page='' @ nextPage)"

definition gl_headers :: "api_client \<Rightarrow> (string \<times> string) list" where
  "gl_headers c = [(''PRIVATE-TOKEN'', client_apiKey c)]"

definition gl_Get :: "net \<Rightarrow> api_client \<Rightarrow> string \<Rightarrow> string result outcome" where
  "gl_Get N c url = http_Get N (gl_headers c) (full_url c url)"

definition gl_next :: "string \<Rightarrow> http_response \<Rightarrow> string" where
  "gl_next requested resp = nextPageURL requested (hr_header resp ''X-Next-Page'')"

definition gl_GetAll :: "net \<Rightarrow> api_client \<Rightarrow> string \<Rightarrow> string list result outcome" where
  "gl_GetAll N c url = http_GetAll N (gl_headers c) gl_next (full_url c url)"

section \<open>Entities\<close>

record gl_commit =
  glc_id :: string
  glc_short_id :: string
  glc_title :: string
  glc_message :: string
  glc_author_name :: string
  glc_author_email :: string
  glc_authored_date :: go_time
  glc_committed_date :: go_time
  glc_web_url :: string

record gl_issue =
  gli_id :: int
  gli_iid :: int
  gli_title :: string
  gli_state :: string
  gli_web_url :: string
  gli_created_at :: go_time
  gli_labels :: "string list"

record gl_merge_request =
  glm_id :: int
  glm_iid :: int
  glm_title :: string
  glm_state :: string
  glm_web_url :: string
  glm_created_at :: go_time
  glm_merged_at :: "go_time option"

record gl_project =
  glp_id :: int
  glp_name :: string
  glp_path_with_namespace :: string
  glp_web_url :: string

record gl_author =
  gl_author_username :: string

record gl_note =
  gln_id :: int
  gln_body :: string
  gln_author :: gl_author
  gln_created_at :: go_time
  gln_system :: bool
  gln_noteable :: string

record gl_json =
  dec_gl_projects :: "string \<Rightarrow> gl_project list result"
  dec_gl_commits :: "string \<Rightarrow> gl_commit list result"
  dec_gl_issues :: "string \<Rightarrow> gl_issue list result"
  dec_gl_mrs :: "string \<Rightarrow> gl_merge_request list result"
  dec_gl_notes :: "string \<Rightarrow> gl_note list result"

section \<open>Helpers\<close>

text \<open>\<open>path = path[1:]\<close>, then everything before the first \<open>/-/\<close> unless that is nothing.\<close>

definition extractProjectPath :: "net \<Rightarrow> string \<Rightarrow> string outcome" where
  "extractProjectPath N webURL =
     (case url_Path (authority_ok N) webURL of
        None \<Rightarrow> Returned []
      | Some [] \<Rightarrow> Panicked
      | Some (c # path) \<Rightarrow>
          (case Index path ''/-/'' of
             None \<Rightarrow> Returned []
           | Some idx \<Rightarrow> Returned (if idx > 0 then take idx path else [])))"

text \<open>The guard of the loops: an item whose project is not among the repositories is skipped.\<close>

definition if_in_repos ::
    "net \<Rightarrow> (string, bool) go_map \<Rightarrow> string \<Rightarrow> activity \<Rightarrow> activity list result outcome" where
  "if_in_repos N repoSet webURL a =
     (case extractProjectPath N webURL of
        Panicked \<Rightarrow> Panicked
      | Diverged \<Rightarrow> Diverged
      | Returned repoName \<Rightarrow> Returned (Inr (if map_flag repoSet repoName then [a] else [])))"

definition gl_commit_activity :: "gl_commit \<Rightarrow> activity" where
  "gl_commit_activity c = NewCommit
     \<lparr>data_title = glc_title c, data_url = glc_web_url c, data_created_at = glc_authored_date c\<rparr>
     (glc_id c) (glc_message c)"

definition gl_issue_activity :: "gl_issue \<Rightarrow> activity" where
  "gl_issue_activity i = NewIssue
     \<lparr>data_title = gli_title i, data_url = gli_web_url i, data_created_at = gli_created_at i\<rparr>
     (gli_title i) (issue_state_of (gli_state i)) (gli_labels i)"

definition gl_mr_activity :: "gl_merge_request \<Rightarrow> activity" where
  "gl_mr_activity m = NewMergedPullRequest
     \<lparr>data_title = glm_title m, data_url = glm_web_url m, data_created_at = glm_created_at m\<rparr>
     (glm_title m) (case glm_merged_at m of None \<Rightarrow> glm_created_at m | Some t \<Rightarrow> t)"

definition gl_note_activity :: "gl_merge_request \<Rightarrow> gl_note \<Rightarrow> activity" where
  "gl_note_activity m n = NewPullRequestReview
     \<lparr>data_title = glm_title m, data_url = glm_web_url m, data_created_at = gln_created_at n\<rparr>
     (glm_title m) ReviewStateCommented (gln_created_at n)"

definition gl_repo_of :: "gl_project \<Rightarrow> repository" where
  "gl_repo_of p = \<lparr>repo_id = FormatInt (glp_id p), repo_name = glp_name p,
     repo_full_name = glp_path_with_namespace p, repo_url = glp_web_url p,
     repo_platform = PlatformGitLab, repo_api_token = []\<rparr>"

section \<open>The methods\<close>

definition gl_DiscoverUserRepos :: "net \<Rightarrow> gl_json \<Rightarrow> api_client \<Rightarrow> string \<Rightarrow> repository list result outcome" where
  "gl_DiscoverUserRepos N J c username =
     and_then (wrap_err ''fetching user projects''
         (gl_GetAll N c ''/api/v4/projects?membership=true&per_page=100''))
       (append_each (\<lambda>page. and_then (unmarshal ''parsing projects response'' (dec_gl_projects J) page)
         (\<lambda>projects. Returned (Inr (map gl_repo_of projects)))))"

definition gl_fetchCommits ::
    "net \<Rightarrow> gl_json \<Rightarrow> api_client \<Rightarrow> string \<Rightarrow> repository \<Rightarrow> go_time \<Rightarrow> go_time \<Rightarrow> activity list result outcome" where
  "gl_fetchCommits N J c username repo since until =
     (let params = Values_Set ''until'' (Format_RFC3339 until)
            (Values_Set ''since'' (Format_RFC3339 since) (Values_Set ''author'' username []));
          path = ''/api/v4/projects/'' @ PathEscape (repo_full_name repo) @ ''/repository/commits?'' @
            Values_Encode params
      in and_then (gl_GetAll N c path)
        (append_each (\<lambda>page. and_then (unmarshal ''parsing commits response'' (dec_gl_commits J) page)
          (\<lambda>commits. Returned (Inr (map gl_commit_activity commits))))))"

definition created_params :: "go_time \<Rightarrow> go_time \<Rightarrow> url_values \<Rightarrow> url_values" where
  "created_params since until vs = Values_Set ''per_page'' ''100''
     (Values_Set ''created_before'' (Format_RFC3339 until)
       (Values_Set ''created_after'' (Format_RFC3339 since) vs))"

definition gl_searchIssues ::
    "net \<Rightarrow> gl_json \<Rightarrow> api_client \<Rightarrow> string \<Rightarrow> go_time \<Rightarrow> go_time \<Rightarrow> (string, bool) go_map
      \<Rightarrow> activity list result outcome" where
  "gl_searchIssues N J c username since until repoSet =
     (let params = created_params since until (Values_Set ''author_username'' username [])
      in and_then (gl_GetAll N c (''/api/v4/issues?'' @ Values_Encode params))
        (append_each (\<lambda>page. and_then (unmarshal ''parsing issues response'' (dec_gl_issues J) page)
          (append_each (\<lambda>issue. if_in_repos N repoSet (gli_web_url issue) (gl_issue_activity issue))))))"

definition gl_searchMergedMRs ::
    "net \<Rightarrow> gl_json \<Rightarrow> api_client \<Rightarrow> string \<Rightarrow> go_time \<Rightarrow> go_time \<Rightarrow> (string, bool) go_map
      \<Rightarrow> activity list result outcome" where
  "gl_searchMergedMRs N J c username since until repoSet =
     (let params = created_params since until
            (Values_Set ''state'' ''merged'' (Values_Set ''author_username'' username []))
      in and_then (gl_GetAll N c (''/api/v4/merge_requests?'' @ Values_Encode params))
        (append_each (\<lambda>page. and_then (unmarshal ''parsing merge requests response'' (dec_gl_mrs J) page)
          (append_each (\<lambda>mr. if_in_repos N repoSet (glm_web_url mr) (gl_mr_activity mr))))))"

text \<open>The loop over the notes of a merge request: those the user wrote, within the period.\<close>

definition gl_user_notes :: "string \<Rightarrow> go_time \<Rightarrow> go_time \<Rightarrow> gl_merge_request \<Rightarrow> gl_note list \<Rightarrow> activity list" where
  "gl_user_notes username since until mr ns =
     map (gl_note_activity mr) (filter (\<lambda>n. \<not> gln_system n \<and>
       gl_author_username (gln_author n) = username \<and> in_period since until (gln_created_at n)) ns)"

definition gl_mr_notes ::
    "net \<Rightarrow> gl_json \<Rightarrow> api_client \<Rightarrow> string \<Rightarrow> string \<Rightarrow> go_time \<Rightarrow> go_time \<Rightarrow> gl_merge_request
      \<Rightarrow> activity list result outcome" where
  "gl_mr_notes N J c username projectID since until mr =
     (let notesPath = ''/api/v4/projects/'' @ projectID @ ''/merge_requests/'' @ FormatInt (glm_iid mr) @
            ''/notes?per_page=100''
      in and_then (gl_Get N c notesPath) (\<lambda>notesBody.
        and_then (unmarshal ''parsing notes response'' (dec_gl_notes J) notesBody) (\<lambda>ns.
        Returned (Inr (gl_user_notes username since until mr ns)))))"

definition gl_repo_discussions ::
    "net \<Rightarrow> gl_json \<Rightarrow> api_client \<Rightarrow> string \<Rightarrow> go_time \<Rightarrow> go_time \<Rightarrow> repository
      \<Rightarrow> activity list result outcome" where
  "gl_repo_discussions N J c username since until repo =
     (let params = Values_Set ''per_page'' ''100'' (Values_Set ''updated_before'' (Format_RFC3339 until)
            (Values_Set ''updated_after'' (Format_RFC3339 since) (Values_Set ''state'' ''all'' [])));
          projectID = PathEscape (repo_full_name repo);
          path = ''/api/v4/projects/'' @ projectID @ ''/merge_requests?'' @ Values_Encode params
      in and_then (gl_Get N c path) (\<lambda>mrBody.
        and_then (unmarshal ''parsing merge requests response'' (dec_gl_mrs J) mrBody)
          (append_each (gl_mr_notes N J c username projectID since until))))"

definition gl_searchMRDiscussions ::
    "net \<Rightarrow> gl_json \<Rightarrow> api_client \<Rightarrow> string \<Rightarrow> repository list \<Rightarrow> go_time \<Rightarrow> go_time
      \<Rightarrow> activity list result outcome" where
  "gl_searchMRDiscussions N J c username repos since until =
     append_each (gl_repo_discussions N J c username since until) repos"

text \<open>The package has its own copies of \<open>makeTypeSet\<close> and \<open>makeRepoSet\<close>, which are the same.\<close>

fun gl_makeTypeSet :: "activity_type list \<Rightarrow> (string, bool) go_map \<Rightarrow> (string, bool) go_map" where
  "gl_makeTypeSet [] m = m"
| "gl_makeTypeSet (t # ts) m = gl_makeTypeSet ts (map_put (type_name t) True m)"

fun gl_makeRepoSet :: "repository list \<Rightarrow> (string, bool) go_map \<Rightarrow> (string, bool) go_map" where
  "gl_makeRepoSet [] m = m"
| "gl_makeRepoSet (r # rs) m = gl_makeRepoSet rs (map_put (repo_full_name r) True m)"

definition gl_fetch_if ::
    "activity_type list \<Rightarrow> activity_type \<Rightarrow> string \<Rightarrow> activity list result outcome
      \<Rightarrow> activity list result outcome" where
  "gl_fetch_if types t msg m =
     (if map_of (gl_makeTypeSet types []) (type_name t) \<noteq> None then wrap_err msg m else Returned (Inr []))"

lemma gl_makeTypeSet_eq [simp]: "gl_makeTypeSet ts m = makeTypeSet ts m"
  by (induction ts m rule: makeTypeSet.induct) simp_all

lemma gl_makeRepoSet_eq [simp]: "gl_makeRepoSet rs m = makeRepoSet rs m"
  by (induction rs m rule: makeRepoSet.induct) simp_all

lemmas gl_copies = gl_makeTypeSet_eq gl_makeRepoSet_eq

lemma gl_fetch_if_eq [simp]: "gl_fetch_if = fetch_if"
  by (intro ext) (simp add: gl_fetch_if_def fetch_if_def wants_def)

definition gl_FetchForUser ::
    "net \<Rightarrow> gl_json \<Rightarrow> api_client \<Rightarrow> string \<Rightarrow> repository \<Rightarrow> activities_call" where
  "gl_FetchForUser N J c username repo since until types =
     gl_fetch_if types ActivityTypeCommit ''fetching commits'' (gl_fetchCommits N J c username repo since until)"

definition gl_SearchActivities ::
    "net \<Rightarrow> gl_json \<Rightarrow> api_client \<Rightarrow> string \<Rightarrow> repository list \<Rightarrow> activities_call" where
  "gl_SearchActivities N J c username repos since until types =
     (let repoSet = gl_makeRepoSet repos []
      in both (gl_fetch_if types ActivityTypeIssue ''searching issues''
                (gl_searchIssues N J c username since until repoSet))
        (both (gl_fetch_if types ActivityTypeMergedPullRequest ''searching merged MRs''
                (gl_searchMergedMRs N J c username since until repoSet))
              (gl_fetch_if types ActivityTypePullRequestReview ''searching MR discussions''
                (gl_searchMRDiscussions N J c username repos since until))))"

definition gl_GetSupportedPlatforms :: "git_platform list" where
  "gl_GetSupportedPlatforms = [PlatformGitLab]"

definition gl_GetSupportedTypes :: "activity_type list" where
  "gl_GetSupportedTypes = [ActivityTypeCommit, ActivityTypeMergedPullRequest, ActivityTypeIssue,
     ActivityTypePullRequestReview]"

definition gl_NewActivityFetcher :: "net \<Rightarrow> gl_json \<Rightarrow> api_client \<Rightarrow> fetcher" where
  "gl_NewActivityFetcher N J c = \<lparr>f_platforms = gl_GetSupportedPlatforms, f_types = gl_GetSupportedTypes,
     f_fetch = gl_FetchForUser N J c, f_search = gl_SearchActivities N J c,
     f_discover = Some (gl_DiscoverUserRepos N J c)\<rparr>"

definition gl_NewApiClient :: "string \<Rightarrow> string \<Rightarrow> gl_api_client" where
  "gl_NewApiClient baseURL apiKey =
     \<lparr>client_baseURL = TrimRight baseURL (CHR ''/''), client_apiKey = apiKey\<rparr>"

lemma gl_NewApiClient_eq [simp]: "gl_NewApiClient = NewApiClient"
  by (intro ext) (simp add: gl_NewApiClient_def NewApiClient_def)

definition gl_Build :: "net \<Rightarrow> gl_json \<Rightarrow> string \<Rightarrow> fetcher_factory" where
  "gl_Build N J baseURL apiKey = gl_NewActivityFetcher N J (gl_NewApiClient baseURL apiKey)"

definition gl_NewFetcherFactory :: "net \<Rightarrow> gl_json \<Rightarrow> string \<Rightarrow> fetcher_factory" where
  [simp]: "gl_NewFetcherFactory N J baseURL = gl_Build N J baseURL"

end
