(* ===== verification/Fetcher_Facts.thy ===== *)
theory Fetcher_Facts
  imports GitLab
begin

text \<open>
  Both fetchers keep the contract \<open>activity_fetcher\<close>, and what their clients compute: a GitHub
  link header yields the address of its first link with the relation \<open>next\<close>; a GitLab next-page
  address is the same request for another page.
\<close>

section \<open>The contract\<close>

lemma map_of_makeTypeSet:
  "map_of (makeTypeSet ts m) k = (if k \<in> type_name ` set ts then Some True else map_of m k)"
  by (induction ts arbitrary: m) auto

lemma wants_iff: "wants types t \<longleftrightarrow> type_name t \<in> type_name ` set types"
  by (auto simp: wants_def map_of_makeTypeSet)

lemma map_of_makeRepoSet:
  "map_of (makeRepoSet rs m) k = (if k \<in> repo_full_name ` set rs then Some True else map_of m k)"
  by (induction rs arbitrary: m) auto

lemma repo_set_flag: "map_flag (makeRepoSet rs []) k \<longleftrightarrow> k \<in> repo_full_name ` set rs"
  by (simp add: map_flag_def map_of_makeRepoSet)

lemma fetch_if_requested:
  assumes "fetch_if types t msg m = Returned (Inr as)" "a \<in> set as"
  shows "wants types t \<and> m = Returned (Inr as)"
  using assms by (auto simp: fetch_if_def split: if_splits)

lemma both_ok:
  assumes "both m n = Returned (Inr as)" "a \<in> set as"
  obtains xs where "m = Returned (Inr xs)" "a \<in> set xs" | ys where "n = Returned (Inr ys)" "a \<in> set ys"
  using assms by (auto simp: both_def and_then_ok)

lemma unmarshal_ok [simp]: "unmarshal msg dec x = Returned (Inr y) \<longleftrightarrow> dec x = Inr y"
  by (auto simp: unmarshal_def)

lemma append_each_mem:
  "append_each f xs = Returned (Inr ys) \<Longrightarrow> y \<in> set ys \<Longrightarrow>
     \<exists>x\<in>set xs. \<exists>zs. f x = Returned (Inr zs) \<and> y \<in> set zs"
  by (blast elim: append_each_set)

lemma pages_mem:
  assumes "and_then m (append_each f) = Returned (Inr ys)" "y \<in> set ys"
  obtains page zs where "f page = Returned (Inr zs)" "y \<in> set zs"
  using assms by (auto simp: and_then_ok dest!: append_each_mem)

lemma body_mem:
  assumes "and_then m k = Returned (Inr ys)"
  obtains x where "k x = Returned (Inr ys)"
  using assms by (auto simp: and_then_ok)

lemma GetType_new [simp]:
  "GetType (gh_commit_activity c) = ActivityTypeCommit"
  "GetType (gh_issue_activity i) = ActivityTypeIssue"
  "GetType (gh_pr_activity i) = ActivityTypeMergedPullRequest"
  "GetType (gh_review_activity i r) = ActivityTypePullRequestReview"
  "GetType (gl_commit_activity glc) = ActivityTypeCommit"
  "GetType (gl_issue_activity gli) = ActivityTypeIssue"
  "GetType (gl_mr_activity mr) = ActivityTypeMergedPullRequest"
  "GetType (gl_note_activity mr n) = ActivityTypePullRequestReview"
  by (simp_all add: gh_commit_activity_def gh_issue_activity_def gh_pr_activity_def gh_review_activity_def
      gl_commit_activity_def gl_issue_activity_def gl_mr_activity_def gl_note_activity_def new_activity_defs)

text \<open>The kinds of activity and how each is as requested.\<close>

lemma as_requested_new:
  "wants types ActivityTypeCommit \<Longrightarrow> as_requested since until types (gh_commit_activity c)"
  "wants types ActivityTypeIssue \<Longrightarrow> as_requested since until types (gh_issue_activity i)"
  "wants types ActivityTypeMergedPullRequest \<Longrightarrow> as_requested since until types (gh_pr_activity i)"
  "wants types ActivityTypePullRequestReview \<Longrightarrow> in_period since until (ghr_submitted_at r) \<Longrightarrow>
     as_requested since until types (gh_review_activity i r)"
  "wants types ActivityTypeCommit \<Longrightarrow> as_requested since until types (gl_commit_activity glc)"
  "wants types ActivityTypeIssue \<Longrightarrow> as_requested since until types (gl_issue_activity gli)"
  "wants types ActivityTypeMergedPullRequest \<Longrightarrow> as_requested since until types (gl_mr_activity mr)"
  "wants types ActivityTypePullRequestReview \<Longrightarrow> in_period since until (gln_created_at n) \<Longrightarrow>
     as_requested since until types (gl_note_activity mr n)"
  by (simp_all add: as_requested_def wants_iff) (simp_all add: gh_commit_activity_def gh_issue_activity_def
      gh_pr_activity_def gh_review_activity_def gl_commit_activity_def gl_issue_activity_def
      gl_mr_activity_def gl_note_activity_def new_activity_defs)

lemma gh_commit_kind:
  assumes "gh_fetchCommits N J c u repo since until = Returned (Inr as)" "a \<in> set as"
  shows "\<exists>x. a = gh_commit_activity x"
  using assms unfolding gh_fetchCommits_def Let_def
  by (rule pages_mem) (auto simp: and_then_ok)

lemma gh_pr_reviews_kind:
  assumes "gh_pr_reviews N J c u repo since until pr = Returned (Inr as)" "a \<in> set as"
  shows "\<exists>r. a = gh_review_activity pr r \<and> gh_login (ghr_user r) = u \<and> in_period since until (ghr_submitted_at r)"
proof -
  obtain reviews where "as = gh_user_reviews u since until pr reviews"
    using assms(1) unfolding gh_pr_reviews_def Let_def by (elim body_mem) auto
  with assms(2) show ?thesis by (auto simp: gh_user_reviews_def)
qed

lemma gh_review_kind:
  assumes "gh_fetchReviews N J c u repo since until = Returned (Inr as)" "a \<in> set as"
  shows "\<exists>i r. a = gh_review_activity i r \<and> gh_login (ghr_user r) = u \<and> in_period since until (ghr_submitted_at r)"
proof -
  obtain prs where "append_each (gh_pr_reviews N J c u repo since until) prs = Returned (Inr as)"
    using assms(1) unfolding gh_fetchReviews_def Let_def by (elim body_mem) blast
  then obtain pr zs where "gh_pr_reviews N J c u repo since until pr = Returned (Inr zs)" "a \<in> set zs"
    using assms(2) by (rule append_each_set)
  then show ?thesis using gh_pr_reviews_kind by blast
qed

lemma gh_search_kinds:
  "gh_searchIssues N J c it u since until rs = Returned (Inr as) \<Longrightarrow> a \<in> set as \<Longrightarrow>
     \<exists>i. a = gh_issue_activity i"
  "gh_searchMergedPRs N J c it u since until rs = Returned (Inr as) \<Longrightarrow> a \<in> set as \<Longrightarrow>
     \<exists>i. a = gh_pr_activity i"
  by (auto simp: gh_searchIssues_def gh_searchMergedPRs_def and_then_ok)

lemma if_in_repos_ok:
  "if_in_repos N rs url x = Returned (Inr as) \<Longrightarrow> a \<in> set as \<Longrightarrow>
     a = x \<and> (\<exists>name. extractProjectPath N url = Returned name \<and> map_flag rs name)"
  by (auto simp: if_in_repos_def split: outcome.splits if_splits)

lemma filtered_pages_mem:
  assumes "and_then (unmarshal msg dec page) (append_each (\<lambda>x. if_in_repos N rs (url x) (f x)))
      = Returned (Inr as)" "a \<in> set as"
  shows "\<exists>x name. a = f x \<and> extractProjectPath N (url x) = Returned name \<and> map_flag rs name"
  using assms by (rule pages_mem) (blast dest: if_in_repos_ok)

lemma gl_commit_kind:
  assumes "gl_fetchCommits N J c u repo since until = Returned (Inr as)" "a \<in> set as"
  shows "\<exists>x. a = gl_commit_activity x"
  using assms unfolding gl_fetchCommits_def Let_def
  by (rule pages_mem) (auto simp: and_then_ok)

lemma gl_issue_kind:
  assumes "gl_searchIssues N J c u since until rs = Returned (Inr as)" "a \<in> set as"
  shows "\<exists>i name. a = gl_issue_activity i \<and> extractProjectPath N (gli_web_url i) = Returned name \<and> map_flag rs name"
  using assms unfolding gl_searchIssues_def Let_def
  by (rule pages_mem) (rule filtered_pages_mem)

lemma gl_mr_kind:
  assumes "gl_searchMergedMRs N J c u since until rs = Returned (Inr as)" "a \<in> set as"
  shows "\<exists>m name. a = gl_mr_activity m \<and> extractProjectPath N (glm_web_url m) = Returned name \<and> map_flag rs name"
  using assms unfolding gl_searchMergedMRs_def Let_def
  by (rule pages_mem) (rule filtered_pages_mem)

lemma gl_mr_notes_kind:
  assumes "gl_mr_notes N J c u project since until mr = Returned (Inr as)" "a \<in> set as"
  shows "\<exists>n. a = gl_note_activity mr n \<and> gl_author_username (gln_author n) = u \<and> \<not> gln_system n \<and>
    in_period since until (gln_created_at n)"
proof -
  obtain ns where "as = gl_user_notes u since until mr ns"
    using assms(1) unfolding gl_mr_notes_def Let_def by (elim body_mem) auto
  with assms(2) show ?thesis by (auto simp: gl_user_notes_def)
qed

lemma gl_note_kind:
  assumes "gl_searchMRDiscussions N J c u repos since until = Returned (Inr as)" "a \<in> set as"
  shows "\<exists>m n. a = gl_note_activity m n \<and> gl_author_username (gln_author n) = u \<and> \<not> gln_system n \<and>
    in_period since until (gln_created_at n)"
proof -
  obtain repo zs where "gl_repo_discussions N J c u since until repo = Returned (Inr zs)" "a \<in> set zs"
    using assms unfolding gl_searchMRDiscussions_def by (rule append_each_set)
  moreover from this(1) obtain mrs where
    "append_each (gl_mr_notes N J c u (PathEscape (repo_full_name repo)) since until) mrs = Returned (Inr zs)"
    unfolding gl_repo_discussions_def Let_def by (elim body_mem) blast
  ultimately obtain mr ys where
    "gl_mr_notes N J c u (PathEscape (repo_full_name repo)) since until mr = Returned (Inr ys)" "a \<in> set ys"
    using append_each_set by metis
  then show ?thesis using gl_mr_notes_kind by blast
qed

lemma gh_discovered:
  assumes "gh_DiscoverUserRepos N J c u = Returned (Inr rs)" "r \<in> set rs"
  shows "repo_platform r = PlatformGitHub \<and> repo_api_token r = []"
  using assms unfolding gh_DiscoverUserRepos_def Let_def
  by (rule pages_mem) (auto simp: and_then_ok gh_repo_of_def)

lemma gl_discovered:
  assumes "gl_DiscoverUserRepos N J c u = Returned (Inr rs)" "r \<in> set rs"
  shows "repo_platform r = PlatformGitLab \<and> repo_api_token r = []"
  using assms unfolding gl_DiscoverUserRepos_def
  by (rule pages_mem) (auto simp: and_then_ok gl_repo_of_def)

lemma gh_fetcher_contract: "activity_fetcher (gh_NewActivityFetcher N J it c) PlatformGitHub"
proof
  fix username repo since until types as a
  assume "f_fetch (gh_NewActivityFetcher N J it c) username repo since until types = Returned (Inr as)" "a \<in> set as"
  then show "as_requested since until types a"
    by (auto simp: gh_NewActivityFetcher_def gh_FetchForUser_def elim!: both_ok
        dest!: fetch_if_requested gh_commit_kind gh_review_kind intro: as_requested_new)
next
  fix username repos since until types as a
  assume "f_search (gh_NewActivityFetcher N J it c) username repos since until types = Returned (Inr as)" "a \<in> set as"
  then show "as_requested since until types a"
    by (auto simp: gh_NewActivityFetcher_def gh_SearchActivities_def Let_def elim!: both_ok
        dest!: fetch_if_requested gh_search_kinds intro: as_requested_new)
next
  fix discover username rs r
  assume "f_discover (gh_NewActivityFetcher N J it c) = Some discover"
    "discover username = Returned (Inr rs)" "r \<in> set rs"
  then show "repo_platform r = PlatformGitHub \<and> repo_api_token r = []"
    by (auto simp: gh_NewActivityFetcher_def dest: gh_discovered)
qed

lemma gl_fetcher_contract: "activity_fetcher (gl_NewActivityFetcher N J c) PlatformGitLab"
proof
  fix username repo since until types as a
  assume "f_fetch (gl_NewActivityFetcher N J c) username repo since until types = Returned (Inr as)" "a \<in> set as"
  then show "as_requested since until types a"
    by (auto simp: gl_NewActivityFetcher_def gl_FetchForUser_def
        dest!: fetch_if_requested gl_commit_kind intro: as_requested_new)
next
  fix username repos since until types as a
  assume "f_search (gl_NewActivityFetcher N J c) username repos since until types = Returned (Inr as)" "a \<in> set as"
  then show "as_requested since until types a"
    by (auto simp: gl_NewActivityFetcher_def gl_SearchActivities_def Let_def elim!: both_ok
        dest!: fetch_if_requested gl_issue_kind gl_mr_kind gl_note_kind intro: as_requested_new)
next
  fix discover username rs r
  assume "f_discover (gl_NewActivityFetcher N J c) = Some discover"
    "discover username = Returned (Inr rs)" "r \<in> set rs"
  then show "repo_platform r = PlatformGitLab \<and> repo_api_token r = []"
    by (auto simp: gl_NewActivityFetcher_def dest: gl_discovered)
qed

interpretation github: activity_fetcher "gh_Build N J it base key" PlatformGitHub
  unfolding gh_Build_def by (rule gh_fetcher_contract)

interpretation gitlab: activity_fetcher "gl_Build N J base key" PlatformGitLab
  unfolding gl_Build_def by (rule gl_fetcher_contract)

section \<open>Link headers\<close>

text \<open>A link header as GitHub writes it: addresses with their relations.\<close>

definition link_text :: "string \<times> string \<Rightarrow> string" where
  "link_text l = ''<'' @ fst l @ ''>; rel='' @ [CHR 0x22] @ snd l @ [CHR 0x22]"

definition link_header :: "(string \<times> string) list \<Rightarrow> string" where
  "link_header ls = Join (map link_text ls) '', ''"

definition link_ok :: "string \<times> string \<Rightarrow> bool" where
  "link_ok l \<longleftrightarrow> fst l \<noteq> [] \<and> CHR ''<'' \<notin> set (fst l) \<and> CHR ''>'' \<notin> set (fst l) \<and>
     CHR ''<'' \<notin> set (snd l) \<and> CHR 0x22 \<notin> set (snd l)"

definition next_of :: "(string \<times> string) list \<Rightarrow> string" where
  "next_of ls = (case List.find (\<lambda>l. snd l = ''next'') ls of None \<Rightarrow> [] | Some l \<Rightarrow> fst l)"

lemma takeWhile_until: "c \<notin> set xs \<Longrightarrow> takeWhile (\<lambda>x. x \<noteq> c) (xs @ c # ys) = xs"
  "c \<notin> set xs \<Longrightarrow> dropWhile (\<lambda>x. x \<noteq> c) (xs @ c # ys) = c # ys"
  by (induction xs) auto

lemma quoted_prefix:
  assumes "CHR 0x22 \<notin> set rel"
  shows "HasPrefix (''rel='' @ [CHR 0x22] @ rel @ CHR 0x22 # rest) (''rel='' @ [CHR 0x22] @ ''next'' @ [CHR 0x22])
    \<longleftrightarrow> rel = ''next''"
proof -
  have "(\<exists>t. rel @ CHR 0x22 # rest = ''next'' @ CHR 0x22 # t) \<longleftrightarrow> rel = ''next''"
  proof
    assume "\<exists>t. rel @ CHR 0x22 # rest = ''next'' @ CHR 0x22 # t"
    then obtain t where "rel @ CHR 0x22 # rest = ''next'' @ CHR 0x22 # t" ..
    then have "takeWhile (\<lambda>x. x \<noteq> CHR 0x22) (rel @ CHR 0x22 # rest) =
        takeWhile (\<lambda>x. x \<noteq> CHR 0x22) (''next'' @ CHR 0x22 # t)" by (rule arg_cong)
    then show "rel = ''next''"
      using takeWhile_until(1) [OF assms, of rest] by simp
  qed simp
  then show ?thesis by (simp add: HasPrefix_iff)
qed

lemma link_at_link:
  assumes "link_ok l"
  shows "link_at (link_text l @ rest) = (if snd l = ''next'' then Some (fst l) else None)"
proof -
  have l: "link_text l @ rest = CHR ''<'' # fst l @ CHR ''>'' #
      (CHR '';'' # CHR '' '' # ''rel='' @ [CHR 0x22] @ snd l @ CHR 0x22 # rest)"
    by (simp add: link_text_def)
  have sp: "re_space CHR '' ''" "\<not> re_space CHR ''r''"
    by (simp_all add: re_space_def byte_def)
  have ok: "CHR ''>'' \<notin> set (fst l)" "fst l \<noteq> []" "CHR 0x22 \<notin> set (snd l)"
    using assms by (simp_all add: link_ok_def)
  show ?thesis
    unfolding l link_at_def Let_def list.case takeWhile_until(1) [OF ok(1)] takeWhile_until(2) [OF ok(1)]
    using sp ok(2) quoted_prefix [OF ok(3), of rest] by (simp add: HasPrefix_iff)
qed

lemma find_next_skip:
  assumes "CHR ''<'' \<notin> set xs"
  shows "find_next_link (xs @ s) = find_next_link s"
  using assms by (induction xs) (auto simp: link_at_def Let_def)

lemma find_next_link_text:
  assumes "link_ok l"
  shows "find_next_link (link_text l @ rest) = (if snd l = ''next'' then Some (fst l) else find_next_link rest)"
proof -
  have tail: "CHR ''<'' \<notin> set (fst l @ ''>; rel='' @ [CHR 0x22] @ snd l @ [CHR 0x22])"
    using assms by (simp add: link_ok_def)
  have l: "link_text l @ rest = CHR ''<'' # (fst l @ ''>; rel='' @ [CHR 0x22] @ snd l @ [CHR 0x22]) @ rest"
    by (simp add: link_text_def)
  have "find_next_link (link_text l @ rest) = (case link_at (link_text l @ rest) of
      Some url \<Rightarrow> Some url | None \<Rightarrow> find_next_link ((fst l @ ''>; rel='' @ [CHR 0x22] @ snd l @ [CHR 0x22]) @ rest))"
    unfolding l by (rule find_next_link.simps)
  then show ?thesis
    unfolding link_at_link [OF assms] find_next_skip [OF tail] by simp
qed

lemma parse_link_header:
  assumes "list_all link_ok ls"
  shows "parseNextLink (link_header ls) = next_of ls"
proof -
  have found: "find_next_link (link_header ls) = map_option fst (List.find (\<lambda>l. snd l = ''next'') ls)"
    using assms
  proof (induction ls)
    case Nil
    then show ?case by (simp add: link_header_def)
  next
    case (Cons l ls)
    show ?case
    proof (cases ls)
      case Nil
      then show ?thesis
        using Cons.prems find_next_link_text [of l "[]"] by (simp add: link_header_def)
    next
      case (Cons k ks)
      then have "link_header (l # ls) = link_text l @ '', '' @ link_header ls"
        by (simp add: link_header_def)
      moreover have "find_next_link ('', '' @ link_header ls) = find_next_link (link_header ls)"
        by (rule find_next_skip) simp
      ultimately show ?thesis
        using Cons.IH Cons.prems find_next_link_text [of l "'', '' @ link_header ls"] by simp
    qed
  qed
  have "ls = []" if "link_header ls = []"
    using that by (cases ls rule: remdups_adj.cases) (auto simp: link_header_def link_text_def)
  then show ?thesis
    by (auto simp: parseNextLink_def next_of_def found split: option.splits)
qed

section \<open>Page parameters\<close>

text \<open>The same request with the page parameter set: the address before the query, and the
  parameters of the query with every page parameter replaced.\<close>

definition page_value_ok :: "string \<Rightarrow> bool" where
  "page_value_ok v \<longleftrightarrow> v \<noteq> [] \<and> v \<noteq> ''0'' \<and> CHR ''&'' \<notin> set v \<and> CHR ''?'' \<notin> set v"

definition set_page :: "string \<Rightarrow> string list \<Rightarrow> string list" where
  "set_page v ps =
     (if list_ex is_page_param ps then map (\<lambda>p. if is_page_param p then ''page='' @ v else p) ps
      else ps @ [''page='' @ v])"

lemma Split_not_Nil2 [simp]: "Split s c = ps \<Longrightarrow> ps \<noteq> []"
  by auto

lemma Join_snoc: "ps \<noteq> [] \<Longrightarrow> Join (ps @ [p]) sep = Join ps sep @ sep @ p"
  by (induction ps sep rule: Join.induct) auto

lemma nextPageURL_query:
  assumes "page_value_ok v" "CHR ''?'' \<notin> set base"
  shows "nextPageURL (base @ ''?'' @ q) v = base @ ''?'' @ Join (set_page v (Split q (CHR ''&''))) ''&''"
proof -
  have idx: "Index (base @ ''?'' @ q) ''?'' = Some (length base)"
    using Index_char [OF assms(2)] by simp
  have cut: "SplitN (base @ ''?'' @ q) (CHR ''?'') 2 = [base, q]"
    unfolding SplitN_2 idx by simp
  have has: "hasPageParam (base @ ''?'' @ q) = list_ex is_page_param (Split q (CHR ''&''))"
    unfolding hasPageParam_def idx by simp
  have con: "Contains (base @ ''?'' @ q) ''?''"
    unfolding Contains_def idx by simp
  show ?thesis
  proof (cases "list_ex is_page_param (Split q (CHR ''&''))")
    case True
    then show ?thesis
      using assms(1) unfolding nextPageURL_def has cut by (simp add: page_value_ok_def set_page_def)
  next
    case False
    have "Join (set_page v (Split q (CHR ''&''))) ''&'' = q @ ''&page='' @ v"
      using False by (simp add: set_page_def Join_snoc)
    with False show ?thesis
      using assms(1) con unfolding nextPageURL_def has by (simp add: page_value_ok_def)
  qed
qed

lemma nextPageURL_no_query:
  assumes "page_value_ok v" "CHR ''?'' \<notin> set base"
  shows "nextPageURL base v = base @ ''?page='' @ v"
proof -
  have idx: "Index base ''?'' = None"
    using assms(2) by (metis Contains_def Contains_iff append_Cons in_set_conv_decomp)
  then show ?thesis
    using assms(1) by (simp add: nextPageURL_def hasPageParam_def Contains_def page_value_ok_def)
qed

lemma is_page_param_page [simp]:
  "is_page_param (CHR ''p'' # CHR ''a'' # CHR ''g'' # CHR ''e'' # CHR ''='' # v)"
  by (simp add: is_page_param_def HasPrefix_iff)

lemma set_page_again: "set_page w (set_page v ps) = set_page w ps"
proof (cases "list_ex is_page_param ps")
  case True
  then obtain p where "p \<in> set ps" "is_page_param p" by (auto simp: list_ex_iff)
  then have "''page='' @ v \<in> set (map (\<lambda>p. if is_page_param p then ''page='' @ v else p) ps)"
    by force
  then have "list_ex is_page_param (map (\<lambda>p. if is_page_param p then ''page='' @ v else p) ps)"
    unfolding list_ex_iff by (rule bexI [rotated]) simp
  with True show ?thesis by (auto simp: set_page_def)
next
  case False
  then have "list_ex is_page_param (ps @ [''page='' @ v])" by simp
  with False show ?thesis by (auto simp: set_page_def list_ex_iff intro!: map_idI)
qed

lemma set_page_no_amp:
  assumes "page_value_ok v" "\<And>p. p \<in> set ps \<Longrightarrow> CHR ''&'' \<notin> set p" "p \<in> set (set_page v ps)"
  shows "CHR ''&'' \<notin> set p"
  using assms by (auto simp: set_page_def page_value_ok_def split: if_splits)

text \<open>Going on from a page that was itself reached by a page parameter: the address does not grow.\<close>

lemma nextPageURL_again:
  assumes "page_value_ok v" "page_value_ok w"
  shows "nextPageURL (nextPageURL raw v) w = nextPageURL raw w"
proof (cases "CHR ''?'' \<in> set raw")
  case True
  then obtain base q where raw: "raw = base @ ''?'' @ q" and base: "CHR ''?'' \<notin> set base"
    by (metis append_Cons append_Nil split_list_first)
  have "Split (Join (set_page v (Split q (CHR ''&''))) ''&'') (CHR ''&'') = set_page v (Split q (CHR ''&''))"
  proof (rule Split_Join)
    show "set_page v (Split q (CHR ''&'')) \<noteq> []" by (simp add: set_page_def)
    show "\<And>p. p \<in> set (set_page v (Split q (CHR ''&''))) \<Longrightarrow> CHR ''&'' \<notin> set p"
      using set_page_no_amp [OF assms(1)] Split_no_sep by metis
  qed
  then show ?thesis
    unfolding raw nextPageURL_query [OF assms(1) base] nextPageURL_query [OF assms(2) base]
    by (simp add: set_page_again)
next
  case False
  have "''page='' @ v = Join [''page='' @ v] ''&''" by simp
  have amp: "CHR ''&'' \<notin> set (''page='' @ v)"
    using assms(1) by (simp add: page_value_ok_def)
  have "nextPageURL raw v = raw @ ''?'' @ (''page='' @ v)"
    using nextPageURL_no_query [OF assms(1) False] by simp
  then have "nextPageURL (nextPageURL raw v) w = raw @ ''?'' @ Join (set_page w [''page='' @ v]) ''&''"
    using nextPageURL_query [OF assms(2) False, of "''page='' @ v"] Split_id [OF amp] by simp
  also have "\<dots> = raw @ ''?page='' @ w"
    by (simp add: set_page_def)
  finally show ?thesis
    using nextPageURL_no_query [OF assms(2) False] by simp
qed

section \<open>Projects of web addresses\<close>

definition plain_path :: "string \<Rightarrow> bool" where
  "plain_path s \<longleftrightarrow> list_all (\<lambda>c. c \<notin> set ''%?#'' \<and> \<not> control_byte c) s"

lemma plain_path_append [simp]: "plain_path (a @ b) \<longleftrightarrow> plain_path a \<and> plain_path b"
  by (simp add: plain_path_def)

lemma unescape_plain: "plain_path s \<Longrightarrow> url_unescape EncodePath s = Some s"
  by (induction s) (simp_all add: plain_path_def)

lemma cut_absent: "c \<notin> set s \<Longrightarrow> cut s c = (s, [])"
proof -
  assume "c \<notin> set s"
  then have "Index s [c] = None"
    by (metis Contains_def Contains_iff append_Cons in_set_conv_decomp)
  then show ?thesis by (simp add: cut_def)
qed

lemma plain_path_absent: "plain_path s \<Longrightarrow> CHR ''#'' \<notin> set s \<and> CHR ''?'' \<notin> set s \<and> \<not> list_ex control_byte s"
  by (induction s) (auto simp: plain_path_def)

lemma url_Path_https:
  assumes "plain_path host" "CHR ''/'' \<notin> set host" "ok host" "plain_path path"
  shows "url_Path ok (''https://'' @ host @ ''/'' @ path) = Some (CHR ''/'' # path)"
proof -
  let ?u = "''https://'' @ host @ ''/'' @ path" and ?rest = "''//'' @ host @ ''/'' @ path"
  have head: "plain_path ''https://''" "plain_path ''//''" "plain_path ''/''"
    by (simp_all add: plain_path_def control_byte_def byte_def)
  then have plain: "plain_path ?u" "plain_path ?rest" "plain_path (CHR ''/'' # path)"
    using assms by (simp_all only: plain_path_append) (simp add: plain_path_def control_byte_def byte_def)
  have scheme: "getScheme ?u = Some (''https'', ?rest)"
    by (simp add: getScheme_def is_letter_def scheme_char_def alphanumeric_def byte_def Let_def)
  have first: "cut ?u (CHR ''#'') = (?u, [])" "cut ?rest (CHR ''?'') = (?rest, [])"
    using plain_path_absent [OF plain(1)] plain_path_absent [OF plain(2)] by (blast intro: cut_absent)+
  have auth: "takeWhile (\<lambda>c. c \<noteq> CHR ''/'') (host @ CHR ''/'' # path) = host"
    "dropWhile (\<lambda>c. c \<noteq> CHR ''/'') (host @ CHR ''/'' # path) = CHR ''/'' # path"
    using takeWhile_until [OF assms(2), of path] by simp_all
  have "parse_hierarchy ok ''https'' ?rest = Some (CHR ''/'' # path)"
    using auth assms(3) unescape_plain [OF plain(3)] by (simp add: parse_hierarchy_def HasPrefix_iff)
  then show ?thesis
    using plain_path_absent [OF plain(1)] unfolding url_Path_def Let_def first prod.case scheme option.case fst_conv by simp
qed

text \<open>The address of an issue or merge request yields its project.\<close>

lemma extractProjectPath_ok:
  assumes "plain_path host" "CHR ''/'' \<notin> set host" "authority_ok N host"
    and "plain_path project" "project \<noteq> []" "\<not> Contains (project @ ''/-'') ''/-/''" "plain_path rest"
  shows "extractProjectPath N (''https://'' @ host @ ''/'' @ project @ ''/-/'' @ rest) = Returned project"
proof -
  have path: "plain_path (project @ ''/-/'' @ rest)"
    using assms by (simp add: plain_path_def control_byte_def byte_def)
  have "Index (project @ ''/-/'' @ rest) ''/-/'' = Some (length project)"
  proof -
    have gen: "\<not> Contains (xs @ ''/-'') ''/-/'' \<Longrightarrow> Index (xs @ ''/-/'' @ rest) ''/-/'' = Some (length xs)" for xs
    proof (induction xs)
      case Nil
      then show ?case by (simp add: HasPrefix_iff)
    next
      case (Cons x xs)
      have "\<not> Contains (xs @ ''/-'') ''/-/''"
        using Cons.prems Contains_appendI [of "xs @ ''/-''" "''/-/''" "[x]" "[]"] by auto
      moreover have "\<not> HasPrefix (x # xs @ ''/-/'' @ rest) ''/-/''"
      proof
        assume "HasPrefix (x # xs @ ''/-/'' @ rest) ''/-/''"
        then have "HasPrefix (x # xs @ ''/-'') ''/-/''"
          by (cases xs; cases "tl xs") (auto simp: HasPrefix_iff)
        with Cons.prems show False by (auto simp: Contains_def)
      qed
      ultimately show ?case using Cons.IH by simp
    qed
    show ?thesis using assms(6) by (rule gen)
  qed
  then show ?thesis
    using assms(5) unfolding extractProjectPath_def url_Path_https [where ok = "authority_ok N", OF assms(1-3) path]
    by simp
qed

text \<open>An address without a path, among them the empty one, panics.\<close>

lemma extractProjectPath_panics: "extractProjectPath N [] = Panicked"
  by (simp add: extractProjectPath_def url_Path_def cut_def getScheme_def parse_hierarchy_def)

lemma gl_searchIssues_panics:
  assumes "gl_GetAll N c (''/api/v4/issues?'' @ Values_Encode
      (created_params since until (Values_Set ''author_username'' u []))) = Returned (Inr (page # pages))"
    and "dec_gl_issues J page = Inr (issue # issues)" "gli_web_url issue = []"
  shows "gl_searchIssues N J c u since until rs = Panicked"
  unfolding gl_searchIssues_def Let_def assms(1)
  by (simp add: unmarshal_def assms(2,3) if_in_repos_def extractProjectPath_panics)

end
