(* ===== verification/Startup.thy ===== *)
theory Startup
  imports Migrator Router Fetcher_Facts
begin

text \<open>
  The composition of the program (\<open>cmd/api/main.go\<close>): the configuration it reads from the
  environment, the order in which it starts (pool, migrations, server; an error ends the process
  with status 1), the registry with the two platforms, and the handler it serves. The
  demonstration migrations of the repository run here on an empty store.
\<close>

section \<open>Configuration\<close>

definition envOrDefault :: "(string \<Rightarrow> string) \<Rightarrow> string \<Rightarrow> string \<Rightarrow> string" where
  "envOrDefault getenv key fallback = (let v = getenv key in if v \<noteq> [] then v else fallback)"

definition program_dbURL :: "(string \<Rightarrow> string) \<Rightarrow> string" where
  "program_dbURL getenv =
     (let dbURL = getenv ''DATABASE_URL''
      in if dbURL = []
         then ''postgres://'' @ envOrDefault getenv ''DB_USER'' ''ctuser'' @ '':'' @
           envOrDefault getenv ''DB_PASSWORD'' ''ctpass'' @ ''@'' @
           envOrDefault getenv ''DB_HOST'' ''localhost'' @ '':'' @
           envOrDefault getenv ''DB_PORT'' ''5432'' @ ''/'' @
           envOrDefault getenv ''DB_NAME'' ''contribution_tracker'' @ ''?sslmode=disable''
         else dbURL)"

definition program_env :: "(string \<Rightarrow> string) \<Rightarrow> env \<Rightarrow> env" where
  "program_env getenv E = E\<lparr>jwt_secret := envOrDefault getenv ''JWT_SECRET'' ''dev-secret-change-me''\<rparr>"

section \<open>Composition\<close>

definition program_registry ::
    "(string \<Rightarrow> string) \<Rightarrow> net \<Rightarrow> gh_json \<Rightarrow> gl_json \<Rightarrow> iteration \<Rightarrow> fetcher_registry" where
  "program_registry getenv N JH JL it =
     (let ghBaseURL = envOrDefault getenv ''GITHUB_BASE_URL'' ''https://api.github.com'';
          glBaseURL = envOrDefault getenv ''GITLAB_BASE_URL'' ''https://gitlab.com''
      in Register PlatformGitLab (gl_NewFetcherFactory N JL glBaseURL)
           (Register PlatformGitHub (gh_NewFetcherFactory N JH it ghBaseURL) NewActivityFetcherRegistry))"

text \<open>The handler that the server runs for every request.\<close>

definition program_serve ::
    "(string \<Rightarrow> string) \<Rightarrow> net \<Rightarrow> gh_json \<Rightarrow> gl_json \<Rightarrow> env \<Rightarrow> (nat \<Rightarrow> nat list) \<Rightarrow> string \<Rightarrow> api_request \<Rightarrow> handler" where
  "program_serve getenv N JH JL E schedules authHeader req =
     serve (program_env getenv E)
       \<lparr>rp_registry = program_registry getenv N JH JL (iter E), rp_schedules = schedules, rp_flusher = True\<rparr>
       authHeader req"

text \<open>The start: exit with a status, or serve on an address.\<close>

datatype start = Exit nat | Serving string

definition program_start ::
    "(string \<Rightarrow> string) \<Rightarrow> 'p pool_library \<Rightarrow> file_system \<Rightarrow> (string \<Rightarrow> 'd \<Rightarrow> db_error + 'd)
      \<Rightarrow> ('d migration_db, start) state" where
  "program_start getenv L FS script =
     (case NewPool L (program_dbURL getenv) of
        Inl err \<Rightarrow> State_Monad.return (Exit 1)
      | Inr pool \<Rightarrow> do {
          r \<leftarrow> RunMigrations FS script (envOrDefault getenv ''MIGRATIONS_DIR'' ''migrations'');
          State_Monad.return (case r of
            Inl err \<Rightarrow> Exit 1
          | Inr _ \<Rightarrow> Serving ('':'' @ envOrDefault getenv ''PORT'' ''8080''))
        })"

section \<open>The fetchers of the program\<close>

lemma registered_fetchers:
  assumes "registry_Build (program_registry getenv N JH JL it) p key = Inr f"
  shows "(p = PlatformGitHub \<or> p = PlatformGitLab) \<and> activity_fetcher f p"
  using assms github.activity_fetcher_axioms gitlab.activity_fetcher_axioms
  by (auto simp: program_registry_def Let_def Build_Register Build_empty gh_Build_def gl_Build_def split: if_splits)

lemma program_discovers_tokenless: "discovers_tokenless (program_registry getenv N JH JL it)"
  unfolding discovers_tokenless_def
  by (blast dest: registered_fetchers activity_fetcher.discovered_plain)

lemma unregistered_platform:
  "p \<noteq> PlatformGitHub \<Longrightarrow> p \<noteq> PlatformGitLab \<Longrightarrow>
   registry_Build (program_registry getenv N JH JL it) p key =
     Inl (Msg (''no fetcher registered for platform '' @ platform_name p))"
  by (simp add: program_registry_def Let_def Build_Register Build_empty)

section \<open>The demonstration migrations\<close>

text \<open>The statements of a migration, one after the other, and \<open>ON CONFLICT DO NOTHING\<close>.\<close>

fun run_statements :: "(db \<Rightarrow> db_error + db) list \<Rightarrow> db \<Rightarrow> db_error + db" where
  "run_statements [] s = Inr s"
| "run_statements (f # fs) s = (case f s of Inl e \<Rightarrow> Inl e | Inr s' \<Rightarrow> run_statements fs s')"

definition unless :: "(db \<Rightarrow> bool) \<Rightarrow> (db \<Rightarrow> db_error + db) \<Rightarrow> db \<Rightarrow> db_error + db" where
  "unless present f s = (if present s then Inr s else f s)"

definition migration_002 :: "db \<Rightarrow> db_error + db" where
  "migration_002 = run_statements (
     map (\<lambda>r. unless (\<lambda>s. ur_id r \<in> user_ids s) (sql_insert_user r)) (users_table seeded) @
     map (\<lambda>r. unless (\<lambda>s. pr_key r \<in> pr_key ` set (platform_table s)) (sql_insert_platform_username r))
       (platform_table seeded) @
     map (\<lambda>r. unless (\<lambda>s. ar_id r \<in> ar_id ` set (accounts_table s))
       (sql_insert_account (ar_id r) (ar_username r) (ar_password_hash r) (Some (ar_roles r)) (ar_user_id r)))
       (accounts_table seeded) @
     map (\<lambda>r. unless (\<lambda>s. tr_id r \<in> team_ids s) (sql_insert_team r)) (teams_table seeded) @
     map (\<lambda>(t, u). sql_add_member False t u) (members_table seeded) @
     map (\<lambda>r. unless (\<lambda>s. rr_id r \<in> repo_ids s) (sql_insert_repo r)) (repos_table seeded) @
     map (\<lambda>(t, r). sql_add_team_repo False t r) (team_repos_table seeded))"

definition migration_004 :: "db \<Rightarrow> db_error + db" where
  "migration_004 = sql_add_leader True ''t-eng'' ''u-carol''"

text \<open>The files of the directory \<open>migrations\<close>, each holding its own name for a text; the first and the
  third only shape tables.\<close>

definition migration_names :: "string list" where
  "migration_names = [''001_initial_schema.sql'', ''002_seed_demo_data.sql'', ''003_add_repo_api_token.sql'',
     ''004_add_team_leaders.sql'']"

definition demo_files :: file_system where
  "demo_files = \<lparr>ReadDir = (\<lambda>dir. Inr (map (\<lambda>f. \<lparr>entry_name = f, entry_is_dir = False\<rparr>)
       (rev migration_names @ [''README.md'']))),
     ReadFile = (\<lambda>dir f. Inr f)\<rparr>"

definition demo_script :: "string \<Rightarrow> db \<Rightarrow> db_error + db" where
  "demo_script content =
     (if content = ''002_seed_demo_data.sql'' then migration_002
      else if content = ''004_add_team_leaders.sql'' then migration_004
      else Inr)"

definition empty_store :: db where
  "empty_store = \<lparr>users_table = [], platform_table = [], accounts_table = [], teams_table = [],
     members_table = [], leaders_table = [], team_repos_table = [], repos_table = [], config_table = [],
     faults = []\<rparr>"

lemma demo_migration_files:
  "migration_files (map (\<lambda>f. \<lparr>entry_name = f, entry_is_dir = False\<rparr>) (rev migration_names @ [''README.md'']))
    = migration_names"
  by code_simp

lemma migration_002_empty: "migration_002 empty_store = Inr (seeded\<lparr>leaders_table := []\<rparr>)"
  unfolding migration_002_def seeded_tables
  by (simp add: unless_def sql_defs link_row_def id_set_defs empty_store_def seeded_def)

lemma migration_004_seed: "migration_004 (seeded\<lparr>leaders_table := []\<rparr>) = Inr seeded"
  by (simp add: migration_004_def sql_add_leader_def link_row_def id_set_defs seeded_def)

lemma migrate_demo: "migrate demo_files demo_script dir migration_names empty_store = Some seeded"
  by (simp add: migration_names_def demo_files_def demo_script_def migration_002_empty migration_004_seed)

lemma demo_migrations:
  "run_state (RunMigrations demo_files demo_script dir)
     \<lparr>mig_data = empty_store, mig_log = None, mig_faults = []\<rparr> =
   (Inr (), \<lparr>mig_data = seeded, mig_log = Some migration_names, mig_faults = []\<rparr>)"
proof -
  let ?s = "\<lparr>mig_data = empty_store, mig_log = None, mig_faults = []\<rparr>"
  have files: "ReadDir demo_files dir = Inr (map (\<lambda>f. \<lparr>entry_name = f, entry_is_dir = False\<rparr>)
      (rev migration_names @ [''README.md'']))"
    by (simp add: demo_files_def)
  have "distinct migration_names" by (simp add: migration_names_def)
  moreover have "to_apply migration_names ?s = migration_names" "logged ?s = []"
    by (simp_all add: to_apply_def logged_def)
  ultimately show ?thesis
    using RunMigrations_healthy [OF files, of ?s demo_script seeded] migrate_demo
    unfolding demo_migration_files by simp
qed

end
