(* ===== verification/Backup_Facts.thy ===== *)
theory Backup_Facts
  imports Backup
begin

text \<open>
  What backups promise. \<open>restored\<close> is the store a backup stands for; a restore of a backup whose
  accounts all have a role succeeds on healthy tables exactly if that store satisfies the
  constraints of the schema, and then it is the result. An exported backup, restored into any
  store, gives back the exported tables (\<open>same_data\<close>).
\<close>

section \<open>The store of a backup\<close>

definition platform_rows :: "iteration \<Rightarrow> user \<Rightarrow> platform_row list" where
  "platform_rows it u = map (\<lambda>p. \<lparr>pr_user_id = user_id u, pr_platform = platform_name (fst p),
     pr_username = snd p\<rparr>) (range_order it (user_platform_usernames u))"

definition row_of_account :: "iteration \<Rightarrow> user_account \<Rightarrow> account_row" where
  "row_of_account it a = \<lparr>ar_id = account_id a, ar_username = account_username a,
     ar_password_hash = account_password_hash a,
     ar_roles = map fst (range_order it (account_roles a)), ar_user_id = account_user_id a\<rparr>"

definition row_of_backup_repo :: "repository \<Rightarrow> repo_row" where
  "row_of_backup_repo r = row_of_repo (r\<lparr>repo_api_token := decode_repo_token (repo_api_token r)\<rparr>)"

definition team_links :: "(team \<Rightarrow> string list) \<Rightarrow> team list \<Rightarrow> (string \<times> string) list" where
  "team_links f ts = concat (map (\<lambda>t. map (Pair (team_id t)) (f t)) ts)"

definition cleared :: "db \<Rightarrow> db" where
  "cleared s = s\<lparr>users_table := [], platform_table := [], accounts_table := [], teams_table := [],
     members_table := [], leaders_table := [], team_repos_table := [], repos_table := [], config_table := []\<rparr>"

definition restored :: "iteration \<Rightarrow> backup_file \<Rightarrow> db \<Rightarrow> db" where
  "restored it b s = s\<lparr>
     users_table := map row_of_user (backup_users b),
     platform_table := concat (map (platform_rows it) (backup_users b)),
     accounts_table := map (row_of_account it) (backup_accounts b),
     teams_table := map (\<lambda>t. \<lparr>tr_id = team_id t, tr_name = team_name t\<rparr>) (backup_teams b),
     members_table := team_links team_member_ids (backup_teams b),
     leaders_table := team_links team_leader_ids (backup_teams b),
     team_repos_table := team_links team_repository_ids (backup_teams b),
     repos_table := map row_of_backup_repo (backup_repositories b),
     config_table := range_order it (backup_config b)\<rparr>"

section \<open>The stages of a restore\<close>

lemma for_each_cong: "(\<And>x. x \<in> set xs \<Longrightarrow> f x = g x) \<Longrightarrow> for_each f xs = for_each g xs"
  by (induction xs) auto

lemma run_clear: "healthy s \<Longrightarrow> run_state (for_each clear_table restore_tables) s = (Inr (), cleared s)"
  by (simp add: restore_tables_def clear_table_def run_rules healthy_def cleared_def)

lemma distinct_append_apart: "distinct (map k (xs @ ys)) \<Longrightarrow> y \<in> set ys \<Longrightarrow> k y \<notin> k ` set xs"
  by auto

lemma distinct_append_front: "distinct (map k (xs @ ys @ zs)) \<Longrightarrow> distinct (map k (xs @ ys))"
  by (metis append_assoc distinct_append map_append)

lemma distinct_append_back: "distinct (map k (xs @ ys)) \<Longrightarrow> distinct (map k ys)"
  by simp

lemma run_restore_platforms:
  assumes "healthy s" "user_id u \<in> user_ids s"
    "distinct (map pr_key (platform_table s @ platform_rows it u))"
  shows "run_state (for_each (restore_platform (user_id u)) (range_order it (user_platform_usernames u))) s =
    (Inr (), s\<lparr>platform_table := platform_table s @ platform_rows it u\<rparr>)"
proof -
  have "run_state (for_each (\<lambda>r. wrapf ''restore platform username''
      (exec_sql (sql_insert_platform_username r))) (platform_rows it u)) s =
    (Inr (), s\<lparr>platform_table := platform_table s @ platform_rows it u\<rparr>)"
    using assms
  proof (intro platform_inserts.insert_all)
    fix r assume "r \<in> set (platform_rows it u)"
    moreover from this have "pr_user_id r = user_id u"
      by (auto simp: platform_rows_def)
    ultimately show "pr_key r \<notin> pr_key ` set (platform_table s) \<and> pr_user_id r \<in> user_ids s"
      using distinct_append_apart [OF assms(3)] assms(2) by metis
  qed (simp_all only: sorted_wrt_apart distinct_append_back [OF assms(3)])
  moreover have "restore_platform (user_id u) = (\<lambda>p. wrapf ''restore platform username''
      (exec_sql (sql_insert_platform_username \<lparr>pr_user_id = user_id u,
        pr_platform = platform_name (fst p), pr_username = snd p\<rparr>)))"
    by (simp add: fun_eq_iff restore_platform_def)
  ultimately show ?thesis
    by (simp add: platform_rows_def for_each_map)
qed

lemma run_restore_users:
  assumes "healthy s"
    and "distinct (map ur_id (users_table s @ map row_of_user us))"
    and "distinct (map ur_username (users_table s @ map row_of_user us))"
    and "distinct (map pr_key (platform_table s @ concat (map (platform_rows it) us)))"
  shows "run_state (for_each (restore_user it) us) s =
    (Inr (), s\<lparr>users_table := users_table s @ map row_of_user us,
       platform_table := platform_table s @ concat (map (platform_rows it) us)\<rparr>)"
  using assms
proof (induction us arbitrary: s)
  case Nil
  then show ?case by simp
next
  case (Cons u us)
  let ?s1 = "s\<lparr>users_table := users_table s @ [row_of_user u]\<rparr>"
  let ?s2 = "?s1\<lparr>platform_table := platform_table s @ platform_rows it u\<rparr>"
  have h: "healthy ?s1" "healthy ?s2"
    using Cons.prems(1) by (simp_all add: healthy_def)
  have "sql_insert_user (row_of_user u) s = Inr ?s1"
    using Cons.prems(2,3) by (simp add: sql_insert_user_def id_set_defs)
  then have one: "run_state (wrapf (''restore user '' @ user_id u) (exec_sql (sql_insert_user (row_of_user u)))) s
      = (Inr (), ?s1)"
    using Cons.prems(1) by (rule run_write_ok [rotated])
  have "distinct (map pr_key (platform_table ?s1 @ platform_rows it u))"
    using distinct_append_front [OF Cons.prems(4) [simplified list.map concat.simps]] by simp
  then have two: "run_state (for_each (restore_platform (user_id u)) (range_order it (user_platform_usernames u))) ?s1
      = (Inr (), ?s2)"
    using run_restore_platforms [OF h(1), of u it] by (simp add: id_set_defs)
  have "run_state (for_each (restore_user it) us) ?s2 = (Inr (), ?s2\<lparr>
      users_table := users_table ?s2 @ map row_of_user us,
      platform_table := platform_table ?s2 @ concat (map (platform_rows it) us)\<rparr>)"
    using Cons.prems(2-4) by (intro Cons.IH [OF h(2)]) (simp_all del: prod.inject)
  moreover have "run_state (restore_user it u) s = (Inr (), ?s2)"
    unfolding restore_user_def by (simp only: run_check_err one two prod.case sum.case)
  ultimately show ?case by simp
qed

lemma run_restore_accounts:
  assumes "healthy s" "\<forall>a\<in>set as. account_roles a \<noteq> []"
    and "distinct (map ar_id (accounts_table s @ map (row_of_account it) as))"
    and "distinct (map ar_username (accounts_table s @ map (row_of_account it) as))"
    and "\<forall>a\<in>set as. account_user_id a \<in> user_ids s"
  shows "run_state (for_each (restore_account it) as) s =
    (Inr (), s\<lparr>accounts_table := accounts_table s @ map (row_of_account it) as\<rparr>)"
proof -
  let ?ins = "\<lambda>r. wrapf (''restore account '' @ ar_id r) (exec_sql (sql_insert_account (ar_id r)
    (ar_username r) (ar_password_hash r) (Some (ar_roles r)) (ar_user_id r)))"
  have "run_state (for_each ?ins (map (row_of_account it) as)) s =
      (Inr (), s\<lparr>accounts_table := accounts_table s @ map (row_of_account it) as\<rparr>)"
    using assms(1,5) distinct_append_apart [OF assms(3)] distinct_append_apart [OF assms(4)]
      distinct_append_back [OF assms(3)] distinct_append_back [OF assms(4)]
    by (intro account_inserts.insert_all) (auto simp: sorted_wrt_apart2 row_of_account_def)
  moreover have "for_each ?ins (map (row_of_account it) as) = for_each (restore_account it) as"
    unfolding for_each_map using assms(2)
    by (intro for_each_cong) (simp add: row_of_account_def restore_account_def rolesToStrings_def)
  ultimately show ?thesis by simp
qed

lemma run_restore_repos:
  assumes "healthy s"
    and "distinct (map rr_id (repos_table s @ map row_of_backup_repo rs))"
    and "distinct (map rr_key (repos_table s @ map row_of_backup_repo rs))"
  shows "run_state (for_each restore_repo rs) s =
    (Inr (), s\<lparr>repos_table := repos_table s @ map row_of_backup_repo rs\<rparr>)"
proof -
  let ?ins = "\<lambda>r. wrapf (''restore repo '' @ rr_id r) (exec_sql (sql_insert_repo r))"
  have "run_state (for_each ?ins (map row_of_backup_repo rs)) s =
      (Inr (), s\<lparr>repos_table := repos_table s @ map row_of_backup_repo rs\<rparr>)"
    using assms(1) distinct_append_apart [OF assms(2)] distinct_append_apart [OF assms(3)]
      distinct_append_back [OF assms(2)] distinct_append_back [OF assms(3)]
    unfolding repo_ids_def
    by (intro repo_inserts.insert_all) (simp_all only: sorted_wrt_apart2 repo_ids_def simp_thms)
  moreover have "for_each ?ins (map row_of_backup_repo rs) = for_each restore_repo rs"
    unfolding for_each_map
    by (intro for_each_cong) (simp add: row_of_backup_repo_def restore_repo_def row_of_repo_def)
  ultimately show ?thesis by simp
qed

lemma run_restore_config:
  assumes "healthy s" "distinct (map fst (config_table s @ kvs))"
  shows "run_state (for_each restore_config kvs) s = (Inr (), s\<lparr>config_table := config_table s @ kvs\<rparr>)"
  unfolding restore_config_def using assms
  by (intro config_inserts.insert_all) (auto simp: sorted_wrt_apart)

lemma team_links_simps [simp]:
  "team_links f [] = []" "team_links f (t # ts) = map (Pair (team_id t)) (f t) @ team_links f ts"
  by (simp_all add: team_links_def)

lemma set_team_links: "set (team_links f ts) = {(team_id t, x) | t x. t \<in> set ts \<and> x \<in> set (f t)}"
  by (auto simp: team_links_def)

lemma snd_team_links [simp]: "snd ` set (team_links f ts) = (\<Union>t\<in>set ts. set (f t))"
  by (induction ts) (auto simp: image_Un image_image)

lemma distinct_links_head:
  assumes "distinct (ls @ map (Pair t) us @ rest)"
  shows "distinct us" "\<forall>u\<in>set us. (t, u) \<notin> set ls"
  using assms by (auto simp: distinct_map)

lemma run_restore_teams:
  assumes "healthy s"
    and "distinct (map tr_id (teams_table s) @ map team_id ts)"
    and "distinct (leaders_table s @ team_links team_leader_ids ts)"
    and "distinct (members_table s @ team_links team_member_ids ts)"
    and "distinct (team_repos_table s @ team_links team_repository_ids ts)"
    and "\<forall>t\<in>set ts. set (team_leader_ids t) \<subseteq> user_ids s \<and> set (team_member_ids t) \<subseteq> user_ids s
      \<and> set (team_repository_ids t) \<subseteq> repo_ids s"
  shows "run_state (for_each restore_team ts) s = (Inr (), s\<lparr>
     teams_table := teams_table s @ map (\<lambda>t. \<lparr>tr_id = team_id t, tr_name = team_name t\<rparr>) ts,
     members_table := members_table s @ team_links team_member_ids ts,
     leaders_table := leaders_table s @ team_links team_leader_ids ts,
     team_repos_table := team_repos_table s @ team_links team_repository_ids ts\<rparr>)"
  using assms
proof (induction ts arbitrary: s)
  case Nil
  then show ?case by simp
next
  case (Cons t ts)
  let ?r = "\<lparr>tr_id = team_id t, tr_name = team_name t\<rparr>"
  let ?s1 = "s\<lparr>teams_table := teams_table s @ [?r]\<rparr>"
  let ?s2 = "?s1\<lparr>leaders_table := leaders_table ?s1 @ map (Pair (team_id t)) (team_leader_ids t)\<rparr>"
  let ?s3 = "?s2\<lparr>members_table := members_table ?s2 @ map (Pair (team_id t)) (team_member_ids t)\<rparr>"
  let ?s4 = "?s3\<lparr>team_repos_table := team_repos_table ?s3 @ map (Pair (team_id t)) (team_repository_ids t)\<rparr>"
  have h: "healthy ?s1" "healthy ?s2" "healthy ?s3" "healthy ?s4"
    using Cons.prems(1) by (simp_all add: healthy_def)
  have ids: "team_id t \<in> team_ids ?s1" "team_id t \<in> team_ids ?s2" "team_id t \<in> team_ids ?s3"
    "user_ids ?s1 = user_ids s" "user_ids ?s2 = user_ids s" "repo_ids ?s3 = repo_ids s"
    by (simp_all add: id_set_defs)
  note heads = distinct_links_head [OF Cons.prems(3) [simplified team_links_simps]]
    distinct_links_head [OF Cons.prems(4) [simplified team_links_simps]]
    distinct_links_head [OF Cons.prems(5) [simplified team_links_simps]]
  have "sql_insert_team ?r s = Inr ?s1"
    using Cons.prems(2) by (simp add: sql_insert_team_def id_set_defs)
  then have a: "run_state (wrapf (''restore team '' @ team_id t) (exec_sql (sql_insert_team ?r))) s = (Inr (), ?s1)"
    using Cons.prems(1) by (rule run_write_ok [rotated])
  have b: "run_state (for_each (\<lambda>u. wrapf ''restore team leader'' (exec_sql (sql_add_leader True (team_id t) u)))
      (team_leader_ids t)) ?s1 = (Inr (), ?s2)"
    by (rule run_insert_leaders [OF h(1) ids(1)]) (use Cons.prems(6) heads ids in simp_all)
  have c: "run_state (for_each (\<lambda>u. wrapf ''restore team member'' (exec_sql (sql_add_member True (team_id t) u)))
      (team_member_ids t)) ?s2 = (Inr (), ?s3)"
    by (rule run_insert_members [OF h(2) ids(2)]) (use Cons.prems(6) heads ids in simp_all)
  have d: "run_state (for_each (\<lambda>r. wrapf ''restore team repo'' (exec_sql (sql_add_team_repo True (team_id t) r)))
      (team_repository_ids t)) ?s3 = (Inr (), ?s4)"
    by (rule run_insert_team_repos [OF h(3) ids(3)]) (use Cons.prems(6) heads ids in simp_all)
  have one: "run_state (restore_team t) s = (Inr (), ?s4)"
    unfolding restore_team_def by (simp only: run_check_err a b c d prod.case sum.case)
  have "run_state (for_each restore_team ts) ?s4 = (Inr (), ?s4\<lparr>
     teams_table := teams_table ?s4 @ map (\<lambda>t. \<lparr>tr_id = team_id t, tr_name = team_name t\<rparr>) ts,
     members_table := members_table ?s4 @ team_links team_member_ids ts,
     leaders_table := leaders_table ?s4 @ team_links team_leader_ids ts,
     team_repos_table := team_repos_table ?s4 @ team_links team_repository_ids ts\<rparr>)"
    using Cons.prems(2-6) by (intro Cons.IH [OF h(4)]) (simp_all add: id_set_defs)
  with one show ?case by simp
qed

section \<open>The result of a restore\<close>

lemma restore_result:
  assumes h: "healthy s" and ok: "schema_ok (restored (iter E) b s)"
    and roles: "\<forall>a\<in>set (backup_accounts b). account_roles a \<noteq> []"
  shows "run_state (BackupRepo_Restore E b) s = (Inr (), restored (iter E) b s)"
proof -
  let ?it = "iter E"
  let ?R = "restored ?it b s"
  note parts = schema_okD [OF ok]
  let ?s1 = "(cleared s)\<lparr>users_table := users_table ?R, platform_table := platform_table ?R\<rparr>"
  let ?s2 = "?s1\<lparr>accounts_table := accounts_table ?R\<rparr>"
  let ?s3 = "?s2\<lparr>repos_table := repos_table ?R\<rparr>"
  let ?s4 = "?s3\<lparr>teams_table := teams_table ?R, members_table := members_table ?R,
    leaders_table := leaders_table ?R, team_repos_table := team_repos_table ?R\<rparr>"
  have hs: "healthy (cleared s)" "healthy ?s1" "healthy ?s2" "healthy ?s3" "healthy ?s4" "healthy ?R"
    using h by (simp_all add: healthy_def cleared_def restored_def)
  have a: "run_state (for_each (restore_user ?it) (backup_users b)) (cleared s) = (Inr (), ?s1)"
    using run_restore_users [OF hs(1), of "backup_users b" ?it] parts(1,2)
    by (simp add: users_ok_def platforms_ok_def cleared_def restored_def)
  have b': "run_state (for_each (restore_account ?it) (backup_accounts b)) ?s1 = (Inr (), ?s2)"
    using run_restore_accounts [OF hs(2) roles, of ?it] parts(3)
    by (simp add: accounts_ok_def cleared_def restored_def id_set_defs row_of_account_def image_subset_iff)
  have c: "run_state (for_each restore_repo (backup_repositories b)) ?s2 = (Inr (), ?s3)"
    using run_restore_repos [OF hs(3), of "backup_repositories b"] parts(5)
    by (simp add: repos_ok_def cleared_def restored_def)
  have d: "run_state (for_each restore_team (backup_teams b)) ?s3 = (Inr (), ?s4)"
    using run_restore_teams [OF hs(4), of "backup_teams b"] parts(4)
    by (simp add: teams_ok_def links_ok_def cleared_def restored_def id_set_defs comp_def
        UN_subset_iff)
  have e: "run_state (for_each restore_config (range_order ?it (backup_config b))) ?s4 = (Inr (), ?R)"
    using run_restore_config [OF hs(5), of "range_order ?it (backup_config b)"] parts(6)
    by (simp add: config_ok_def cleared_def restored_def)
  show ?thesis
    unfolding BackupRepo_Restore_def
    by (subst run_in_tx_healthy [OF h _ hs(6)])
      (simp_all only: run_check_err run_clear [OF h] a b' c d e prod.case sum.case, simp)
qed

section \<open>The exported backup\<close>

definition backup_of :: "env \<Rightarrow> db \<Rightarrow> backup_file" where
  "backup_of E s = \<lparr>
     backup_metadata = \<lparr>app_version = ''1.0.0'', exported_at = now E, exported_by = []\<rparr>,
     backup_users = map (user_view s) (order_by (collate E) ur_username (users_table s)),
     backup_accounts = map scanAccount (order_by (collate E) ar_username (accounts_table s)),
     backup_teams = map (team_view s) (order_by (collate E) tr_name (teams_table s)),
     backup_repositories = map (encode_repo_token \<circ> repo_of_row)
       (order_by (collate E) rr_full_name (repos_table s)),
     backup_config = config_map (order_by (collate E) fst (config_table s)) []\<rparr>"

lemma run_export: "healthy s \<Longrightarrow> run_state (BackupRepo_Export E) s = (Inr (backup_of E s), s)"
  by (simp add: BackupRepo_Export_def backup_of_def run_rules)

section \<open>Restoring what was exported\<close>

text \<open>Two stores hold the same data: every table has the same rows, in any order, and the roles
  of an account are the same set.\<close>

definition account_data :: "account_row \<Rightarrow> string \<times> string \<times> string \<times> string set \<times> string" where
  "account_data a = (ar_id a, ar_username a, ar_password_hash a, set (ar_roles a), ar_user_id a)"

definition same_data :: "db \<Rightarrow> db \<Rightarrow> bool" where
  "same_data s s' \<longleftrightarrow> mset (users_table s) = mset (users_table s') \<and>
     mset (platform_table s) = mset (platform_table s') \<and>
     mset (map account_data (accounts_table s)) = mset (map account_data (accounts_table s')) \<and>
     mset (teams_table s) = mset (teams_table s') \<and> mset (members_table s) = mset (members_table s') \<and>
     mset (leaders_table s) = mset (leaders_table s') \<and>
     mset (team_repos_table s) = mset (team_repos_table s') \<and>
     mset (repos_table s) = mset (repos_table s') \<and> mset (config_table s) = mset (config_table s')"

lemma distinct_mset_cong: "mset xs = mset ys \<Longrightarrow> distinct (map k xs) = distinct (map k ys)"
  by (metis mset_eq_imp_distinct_iff mset_map)

lemma schema_same_data:
  assumes same: "same_data s s'" and ok: "schema_ok s"
  shows "schema_ok s'"
proof -
  note d = same [unfolded same_data_def]
  have sets: "set (users_table s') = set (users_table s)" "set (platform_table s') = set (platform_table s)"
    "set (teams_table s') = set (teams_table s)" "set (members_table s') = set (members_table s)"
    "set (leaders_table s') = set (leaders_table s)" "set (team_repos_table s') = set (team_repos_table s)"
    "set (repos_table s') = set (repos_table s)"
    using d by (metis set_mset_mset)+
  have acc: "map k (accounts_table t) = map (\<lambda>x. fst x) (map (\<lambda>a. (k a, account_data a)) (accounts_table t))"
    for k :: "account_row \<Rightarrow> string" and t by simp
  have "distinct (map ar_id (accounts_table s')) = distinct (map ar_id (accounts_table s))"
    "distinct (map ar_username (accounts_table s')) = distinct (map ar_username (accounts_table s))"
    "ar_user_id ` set (accounts_table s') = ar_user_id ` set (accounts_table s)"
  proof -
    have k: "map ar_id xs = map fst (map account_data xs)"
      "map ar_username xs = map (fst \<circ> snd) (map account_data xs)"
      "map ar_user_id xs = map (snd \<circ> snd \<circ> snd \<circ> snd) (map account_data xs)" for xs
      by (simp_all add: account_data_def)
    have m: "mset (map account_data (accounts_table s')) = mset (map account_data (accounts_table s))"
      using d by simp
    show "distinct (map ar_id (accounts_table s')) = distinct (map ar_id (accounts_table s))"
      "distinct (map ar_username (accounts_table s')) = distinct (map ar_username (accounts_table s))"
      unfolding k by (rule distinct_mset_cong [OF m])+
    have "set (map ar_user_id (accounts_table s')) = set (map ar_user_id (accounts_table s))"
      unfolding k set_map using mset_eq_setD [OF m] by simp
    then show "ar_user_id ` set (accounts_table s') = ar_user_id ` set (accounts_table s)"
      by simp
  qed
  moreover have "distinct (map ur_id (users_table s')) = distinct (map ur_id (users_table s))"
    "distinct (map ur_username (users_table s')) = distinct (map ur_username (users_table s))"
    "distinct (map pr_key (platform_table s')) = distinct (map pr_key (platform_table s))"
    "distinct (map tr_id (teams_table s')) = distinct (map tr_id (teams_table s))"
    "distinct (map rr_id (repos_table s')) = distinct (map rr_id (repos_table s))"
    "distinct (map rr_key (repos_table s')) = distinct (map rr_key (repos_table s))"
    "distinct (map fst (config_table s')) = distinct (map fst (config_table s))"
    by (rule distinct_mset_cong; use d in simp)+
  moreover have "distinct (members_table s') = distinct (members_table s)"
    "distinct (leaders_table s') = distinct (leaders_table s)"
    "distinct (team_repos_table s') = distinct (team_repos_table s)"
    using d by (metis mset_eq_imp_distinct_iff)+
  ultimately show ?thesis
    using ok by (simp only: schema_ok_def schema_parts links_ok_def id_set_defs sets)
qed

text \<open>Rows grouped by a key are all the rows.\<close>

lemma mset_groups:
  assumes "distinct ks"
  shows "mset (concat (map (\<lambda>i. filter (\<lambda>x. k x = i) xs) ks)) = filter_mset (\<lambda>x. k x \<in> set ks) (mset xs)"
  using assms
proof (induction ks)
  case Nil
  then show ?case by simp
next
  case (Cons i ks)
  have "filter_mset (\<lambda>x. k x = i) M + filter_mset (\<lambda>x. k x \<in> set ks) M = filter_mset (\<lambda>x. k x \<in> set (i # ks)) M"
    for M using Cons.prems by (induction M) auto
  with Cons show ?case by simp
qed

lemma mset_groups_all:
  assumes "distinct (map j ys)" "k ` set xs \<subseteq> j ` set ys"
  shows "mset (concat (map (\<lambda>y. filter (\<lambda>x. k x = j y) xs) ys)) = mset xs"
proof -
  have "filter_mset (\<lambda>x. k x \<in> set (map j ys)) (mset xs) = mset xs"
    using assms(2) by (auto simp: filter_mset_eq_conv)
  with mset_groups [OF assms(1), of k xs] show ?thesis
    by (simp add: comp_def)
qed

lemma platform_map_distinct:
  assumes "distinct (map pr_platform rs)"
    "\<forall>r\<in>set rs. \<lparr>platform_name = pr_platform r\<rparr> \<notin> fst ` set m"
  shows "platform_map rs m = m @ map (\<lambda>r. (\<lparr>platform_name = pr_platform r\<rparr>, pr_username r)) rs"
  using assms
proof (induction rs arbitrary: m)
  case Nil
  then show ?case by simp
next
  case (Cons r rs)
  have "platform_map rs (m @ [(\<lparr>platform_name = pr_platform r\<rparr>, pr_username r)])
      = (m @ [(\<lparr>platform_name = pr_platform r\<rparr>, pr_username r)])
        @ map (\<lambda>r. (\<lparr>platform_name = pr_platform r\<rparr>, pr_username r)) rs"
    using Cons.prems by (intro Cons.IH) (auto simp: image_iff)
  with Cons.prems show ?case by (simp add: map_put_new)
qed

lemma config_map_distinct:
  assumes "distinct (map fst kvs)" "\<forall>kv\<in>set kvs. fst kv \<notin> fst ` set m"
  shows "config_map kvs m = m @ kvs"
  using assms
proof (induction kvs arbitrary: m)
  case Nil
  then show ?case by simp
next
  case (Cons kv kvs)
  have "config_map kvs (m @ [kv]) = (m @ [kv]) @ kvs"
    using Cons.prems by (intro Cons.IH) (auto simp: image_iff)
  with Cons.prems show ?case by (simp add: map_put_new)
qed

text \<open>The rows that a backup of \<open>s\<close> stands for.\<close>

lemma platform_rows_view:
  assumes ok: "schema_ok s" and it: "iteration_ok it"
  shows "mset (platform_rows it (user_view s r)) = mset (filter (\<lambda>p. pr_user_id p = ur_id r) (platform_table s))"
proof -
  let ?ps = "filter (\<lambda>p. pr_user_id p = ur_id r) (platform_table s)"
  have "distinct (map pr_key ?ps)"
    using ok by (intro distinct_map_filter_any) (simp add: schema_ok_def platforms_ok_def)
  then have d: "distinct (map pr_platform ?ps)"
    by (auto simp: distinct_map inj_on_def)
  have "mset (platform_rows it (user_view s r)) =
      mset (map (\<lambda>p. \<lparr>pr_user_id = ur_id r, pr_platform = platform_name (fst p), pr_username = snd p\<rparr>)
        (platforms_of s (ur_id r)))"
    unfolding platform_rows_def by (simp add: it)
  also have "\<dots> = mset (map (\<lambda>p. \<lparr>pr_user_id = ur_id r, pr_platform = pr_platform p, pr_username = pr_username p\<rparr>) ?ps)"
    by (simp add: platforms_of_def platform_map_distinct [OF d] comp_def)
  also have "map (\<lambda>p. \<lparr>pr_user_id = ur_id r, pr_platform = pr_platform p, pr_username = pr_username p\<rparr>) ?ps = ?ps"
    by (rule map_idI) auto
  finally show ?thesis .
qed

lemma links_view: "map (Pair t) (linked ls t) = filter (\<lambda>p. fst p = t) ls"
  by (induction ls) (auto simp: linked_def)

lemma mset_team_links:
  assumes "distinct (map tr_id ts)" "fst ` set ls \<subseteq> tr_id ` set ts"
    "\<And>t. f (team_view s t) = linked ls (tr_id t)"
  shows "mset (team_links f (map (team_view s) ts)) = mset ls"
proof -
  have "team_links f (map (team_view s) ts) = concat (map (\<lambda>t. filter (\<lambda>p. fst p = tr_id t) ls) ts)"
    by (simp add: team_links_def comp_def assms(3) links_view)
  with mset_groups_all [OF assms(1,2)] show ?thesis by simp
qed

lemma decode_encode_token [simp]: "row_of_backup_repo (encode_repo_token (repo_of_row r)) = r"
proof -
  have "decode_repo_token (repo_api_token (encode_repo_token (repo_of_row r))) = rr_api_token r"
    by (simp add: encode_repo_token_def decode_repo_token_def repo_of_row_def)
  then show ?thesis
    by (cases r) (auto simp: row_of_backup_repo_def encode_repo_token_def repo_of_row_def row_of_repo_def)
qed

lemma row_of_user_view [simp]: "row_of_user (user_view s r) = r"
  by (cases r) (simp add: row_of_user_def user_view_def user_of_row_def)

lemma team_row_eta [simp]: "\<lparr>tr_id = tr_id t, tr_name = tr_name t\<rparr> = t"
  by (cases t) simp

lemma restored_same_data:
  assumes ok: "schema_ok s" and it: "iteration_ok (iter E)"
  shows "same_data s (restored (iter E) (backup_of E s) s')"
proof -
  note parts = schema_okD [OF ok]
  let ?us = "order_by (collate E) ur_username (users_table s)"
  let ?ts = "order_by (collate E) tr_name (teams_table s)"
  let ?R = "restored (iter E) (backup_of E s) s'"
  have users: "mset (users_table ?R) = mset (users_table s)"
    by (simp add: restored_def backup_of_def comp_def del: user_view_simps)
  have "mset (platform_table ?R) = mset (concat (map (\<lambda>u. filter (\<lambda>p. pr_user_id p = ur_id u) (platform_table s)) ?us))"
    by (simp add: restored_def backup_of_def mset_concat comp_def platform_rows_view [OF ok it] cong: image_mset_cong)
  also have "\<dots> = mset (platform_table s)"
    using parts(1,2) by (intro mset_groups_all) (simp_all add: users_ok_def platforms_ok_def user_ids_def)
  finally have platforms: "mset (platform_table ?R) = mset (platform_table s)" .
  have accounts: "mset (map account_data (accounts_table ?R)) = mset (map account_data (accounts_table s))"
  proof -
    have "account_data (row_of_account (iter E) (scanAccount a)) = account_data a" for a
      by (simp add: account_data_def row_of_account_def it)
    then have "map account_data (accounts_table ?R) =
        map account_data (order_by (collate E) ar_username (accounts_table s))"
      by (simp add: restored_def backup_of_def comp_def)
    then show ?thesis by simp
  qed
  have d: "distinct (map tr_id ?ts)" "set ?ts = set (teams_table s)"
    using parts(4) by (simp_all add: teams_ok_def)
  have links: "mset (members_table ?R) = mset (members_table s)"
    "mset (leaders_table ?R) = mset (leaders_table s)"
    "mset (team_repos_table ?R) = mset (team_repos_table s)"
    using parts(4) unfolding restored_def backup_of_def
    by (simp_all, intro mset_team_links d;
      simp add: teams_ok_def links_ok_def team_ids_def)+
  have rows: "mset (teams_table ?R) = mset (teams_table s)" "mset (repos_table ?R) = mset (repos_table s)"
    by (simp_all add: restored_def backup_of_def comp_def)
  have "distinct (map fst (order_by (collate E) fst (config_table s)))"
    using parts(6) by (simp add: config_ok_def)
  then have config: "mset (config_table ?R) = mset (config_table s)"
    by (simp add: restored_def backup_of_def it config_map_distinct)
  show ?thesis
    using users platforms accounts links rows config by (simp only: same_data_def)
qed

text \<open>A backup of a store in which every account has a role can be restored into any store, and
  gives the same data.\<close>

lemma export_restore:
  assumes "healthy s" "schema_ok s" "iteration_ok (iter E)" "healthy s'"
    and "\<forall>a\<in>set (accounts_table s). ar_roles a \<noteq> []"
  shows "run_state (BackupRepo_Export E) s = (Inr (backup_of E s), s)"
    and "run_state (BackupRepo_Restore E (backup_of E s)) s' =
      (Inr (), restored (iter E) (backup_of E s) s')"
    and "same_data s (restored (iter E) (backup_of E s) s')"
proof -
  show "run_state (BackupRepo_Export E) s = (Inr (backup_of E s), s)"
    using assms(1) by (rule run_export)
  show same: "same_data s (restored (iter E) (backup_of E s) s')"
    by (rule restored_same_data [OF assms(2,3)])
  have "\<forall>a\<in>set (backup_accounts (backup_of E s)). account_roles a \<noteq> []"
    using assms(5) by (auto simp: backup_of_def)
  then show "run_state (BackupRepo_Restore E (backup_of E s)) s' =
      (Inr (), restored (iter E) (backup_of E s) s')"
    by (rule restore_result [OF assms(4) schema_same_data [OF same assms(2)]])
qed

section \<open>Restore keeps the schema, and is atomic\<close>

lemma keeps_schema_restore [keeps_rules]: "keeps schema_ok (BackupRepo_Restore E b)"
  unfolding BackupRepo_Restore_def clear_table_def restore_user_def restore_platform_def
    restore_account_def restore_repo_def restore_team_def restore_config_def
  by (intro keeps_rules)

lemma restore_atomic:
  assumes "run_state (BackupRepo_Restore E b) s = (Inl e, s')"
  shows "tables s' = tables s"
  using assms unfolding BackupRepo_Restore_def by (rule tables_in_tx_error)

text \<open>An account without a role cannot be restored: the nil slice is \<open>NULL\<close>.\<close>

lemma restore_no_roles:
  assumes "account_roles a = []"
  shows "fst (run_state (restore_account it a) s) \<noteq> Inr ()"
  using assms
  by (auto simp: restore_account_def rolesToStrings_def run_wrapf sql_insert_account_def exec_sql_def
      split: prod.splits sum.splits option.splits)

lemma for_each_never:
  assumes "x \<in> set xs" "\<And>s. fst (run_state (f x) s) \<noteq> Inr ()"
  shows "fst (run_state (for_each f xs) s) \<noteq> Inr ()"
  using assms(1)
proof (induction xs arbitrary: s)
  case (Cons y ys)
  then show ?case
    using assms(2) [of s] by (auto split: prod.splits sum.splits)
qed simp

lemma restore_needs_roles:
  assumes "a \<in> set (backup_accounts b)" "account_roles a = []"
  shows "fst (run_state (BackupRepo_Restore E b) s) \<noteq> Inr ()"
proof
  assume ok: "fst (run_state (BackupRepo_Restore E b) s) = Inr ()"
  have never: "run_state (for_each (restore_account (iter E)) (backup_accounts b)) s0 \<noteq> (Inr (), s1)" for s0 s1
    using for_each_never [where f = "restore_account (iter E)", OF assms(1) restore_no_roles [OF assms(2)]]
    by (metis fst_conv)
  obtain s' where "run_state (BackupRepo_Restore E b) s = (Inr (), s')"
    using ok by (metis prod.collapse)
  then show False
    unfolding BackupRepo_Restore_def
    by (auto simp: in_tx_def never check_err_def split: prod.splits sum.splits option.splits)
qed

end
