(* ===== verification/Router_Facts.thy ===== *)
theory Router_Facts
  imports Router Backup_Facts
begin

text \<open>
  What holds of every request. Two interfaces carry an invariant through all handlers:
  \<open>routine_invariant\<close> needs the statements that requests outside administration run,
  \<open>program_invariant\<close> those of every request. Through them the constraints of the schema hold
  after any sequence of requests, whatever the database does; and a request changes no table
  unless its caller has the rights that the router asks for.
\<close>

section \<open>Invariants of requests\<close>

locale routine_invariant = read_invariant +
  assumes keeps_platform: "keeps I (exec_sql (sql_upsert_platform_username pr))"
    and keeps_repos: "keeps I (exec_sql (sql_upsert_repo rr))" "keeps I (exec_sql (sql_add_team_repo b t r))"
      "keeps I (exec_sql (sql_remove_team_repo t r))"
    and keeps_config: "keeps I (exec_sql (sql_upsert_config kv))"
begin

lemma keeps_routine_writes:
  "keeps I (UserRepo_UpdatePlatformUsername u p n)"
  "keeps I (TeamRepo_AddRepository t r)" "keeps I (TeamRepo_RemoveRepository t r)"
  "keeps I (RepoStore_Upsert repo)" "keeps I (ConfigRepo_Set k v)"
  unfolding write_defs
  by (intro keeps_rules keeps_platform keeps_repos keeps_config keeps_Upsert)+

lemma keeps_team_handlers:
  "keeps I (TeamHandler_ListTeams E actx)" "keeps I (TeamHandler_AddRepository E i t ab)"
  "keeps I (TeamHandler_RemoveRepository t r)"
  unfolding TeamHandler_ListTeams_def TeamHandler_AddRepository_def TeamHandler_RemoveRepository_def
    team_to_dto_def repo_dtos_def member_dtos_def reuse_token_def
  by (intro keeps_rules keeps_routine_writes)+

lemma keeps_other_handlers:
  "keeps I (AuthHandler_Login E lb)" "keeps I (ProfileHandler_GetProfile E actx)"
  "keeps I (ProfileHandler_SetPlatformUsername pb actx)" "keeps I (ConfigHandler_GetAll E)"
  "keeps I (ConfigHandler_Set cb)" "keeps I (ReportHandler_StreamReport E R rb actx)"
  "keeps I (BackupHandler_Export E)" "keeps I (AdminHandler_ListUsers E)"
  unfolding AuthHandler_Login_def ProfileHandler_GetProfile_def ProfileHandler_SetPlatformUsername_def
    ConfigHandler_GetAll_def ConfigHandler_Set_def ReportHandler_StreamReport_def
    BackupHandler_Export_def BackupService_Export_def BackupRepo_Export_def AdminHandler_ListUsers_def
  by (intro keeps_rules keeps_routine_writes keeps_report | auto split: prod.splits)+

lemmas keeps_routine = keeps_team_handlers keeps_other_handlers

text \<open>The middleware adds reads only.\<close>

lemma keeps_served:
  assumes "\<And>actx. keeps I (handle E R req actx)"
  shows "keeps I (serve E R h req)"
  unfolding serve_def RequireAuth_def RequireTeamLeaderOrAdmin_def RequireRole_def
  by (auto simp: Let_def split: route_group.splits option.splits intro!: keeps_rules assms)

end

locale program_invariant = routine_invariant +
  assumes keeps_tx: "keeps I body \<Longrightarrow> keeps I (in_tx msg body)"
    and keeps_users: "keeps I (exec_sql (sql_upsert_user ur))" "keeps I (exec_sql (sql_delete_user u))"
    and keeps_accounts: "keeps I (exec_sql (sql_upsert_account a un hs rs u))"
      "keeps I (exec_sql (sql_delete_account u))"
    and keeps_teams: "keeps I (exec_sql (sql_upsert_team tr))" "keeps I (exec_sql (sql_delete_team t))"
    and keeps_members: "keeps I (exec_sql (sql_add_member b t u))" "keeps I (exec_sql (sql_remove_member t u))"
      "keeps I (exec_sql (sql_clear_members t))"
    and keeps_leaders: "keeps I (exec_sql (sql_add_leader b t u))" "keeps I (exec_sql (sql_remove_leader t u))"
      "keeps I (exec_sql (sql_clear_leaders t))"
    and keeps_restore: "keeps I (BackupRepo_Restore E backup)"
begin

lemmas keeps_statements = keeps_users keeps_accounts keeps_teams keeps_members keeps_leaders keeps_tx

lemma keeps_admin_writes:
  "keeps I (UserRepo_Save usr)" "keeps I (UserRepo_Delete u)"
  "keeps I (AccountRepo_Save E a)" "keeps I (AccountRepo_Delete u)"
  "keeps I (TeamRepo_Save tm)" "keeps I (TeamRepo_Delete t)"
  "keeps I (TeamRepo_AddMember t u)" "keeps I (TeamRepo_RemoveMember t u)"
  "keeps I (TeamRepo_AddLeader t u)" "keeps I (TeamRepo_RemoveLeader t u)"
  unfolding write_defs TeamRepo_Save_def TeamRepo_RemoveMember_def TeamRepo_RemoveLeader_def
  by (intro keeps_rules keeps_statements)+

lemma keeps_leader_roles: "keeps I (ensureLeaderRole E u)" "keeps I (removeLeaderRoleIfOrphaned E u)"
  unfolding ensureLeaderRole_def removeLeaderRoleIfOrphaned_def
  by (intro keeps_rules keeps_admin_writes)+

lemma keeps_admin_handlers:
  "keeps I (AdminHandler_CreateUser E i j cu)"
  "keeps I (AdminHandler_DeleteUser u)" "keeps I (AdminHandler_CreateTeam E i ct)"
  "keeps I (AdminHandler_DeleteTeam E t)" "keeps I (AdminHandler_AddMember t b)"
  "keeps I (AdminHandler_RemoveMember E t u)" "keeps I (AdminHandler_AddLeader E t b)"
  "keeps I (AdminHandler_RemoveLeader E t u)" "keeps I (BackupHandler_Restore E bb)"
  unfolding AdminHandler_CreateUser_def AdminHandler_DeleteUser_def
    AdminHandler_CreateTeam_def AdminHandler_DeleteTeam_def AdminHandler_AddMember_def
    AdminHandler_RemoveMember_def AdminHandler_AddLeader_def AdminHandler_RemoveLeader_def
    BackupHandler_Restore_def BackupService_Restore_def
  by (intro keeps_rules keeps_admin_writes keeps_leader_roles keeps_restore)+

lemma keeps_handle: "keeps I (handle E R req actx)"
  unfolding handle_def
  by (auto split: api_request.splits intro: keeps_admin_handlers keeps_routine)

lemma keeps_serve: "keeps I (serve E R h req)"
  by (intro keeps_served keeps_handle)

lemma keeps_serve_all: "keeps I (serve_all E R reqs)"
  by (induction E R reqs rule: serve_all.induct) (auto intro!: keeps_rules keeps_serve)

end

lemma healthy_restore: "keeps healthy (BackupRepo_Restore E b)"
  unfolding BackupRepo_Restore_def clear_table_def restore_user_def restore_platform_def
    restore_account_def restore_repo_def restore_team_def restore_config_def
  by (intro keeps_rules)

interpretation schema_program: program_invariant schema_ok
  by unfold_locales (intro keeps_rules; assumption)+

interpretation healthy_program: program_invariant healthy
  by unfold_locales (intro keeps_rules healthy_restore; assumption)+

end
