(* ===== verification/Access.thy ===== *)
theory Access
  imports Router_Facts
begin

text \<open>
  Access control: the right a request needs (\<open>permitted\<close>, read off the groups of the router), and
  the proof that a request without it is refused and changes no table, whatever the database
  does. A request that does change a table is one whose caller has the right.
\<close>

section \<open>Rights\<close>

text \<open>The right of the group \<open>g\<close>: claims \<open>c\<close> of a token and the account \<open>a\<close> they name.\<close>

fun group_right :: "db \<Rightarrow> jwt_claims \<Rightarrow> account_row \<Rightarrow> route_group \<Rightarrow> bool" where
  "group_right s c a Public = True"
| "group_right s c a Authenticated = True"
| "group_right s c a (Team_Leader_Or_Admin t) =
     (map_flag (claimed_roles c) RoleAdmin \<or> (t, ar_user_id a) \<in> set (leaders_table s))"
| "group_right s c a Admin_Only = map_flag (claimed_roles c) RoleAdmin"

text \<open>The header carries a token that the library accepts, and an account has the group's right.\<close>

definition permitted :: "env \<Rightarrow> db \<Rightarrow> string \<Rightarrow> route_group \<Rightarrow> bool" where
  "permitted E s h g \<longleftrightarrow> HasPrefix h ''Bearer '' \<and>
     (case jwt_parse E (TrimPrefix h ''Bearer '') (validate_key E) (now E) of
        None \<Rightarrow> False
      | Some c \<Rightarrow> \<exists>a\<in>set (accounts_table s). claim_sub c = Some (ar_id a) \<and> group_right s c a g)"

section \<open>The middleware\<close>

lemma query_row_row:
  assumes "run_state (query_row f) s = (Inr r, s')"
  shows "tables s' = tables s" "\<exists>s0. tables s0 = tables s \<and> r \<in> set (f s0)"
  using assms by (auto simp: query_row_def split: prod.splits option.splits list.splits
      dest!: tables_next_fault)

lemma tables_same': "tables s = tables t \<Longrightarrow> accounts_table s = accounts_table t \<and> users_table s = users_table t
    \<and> leaders_table s = leaders_table t"
  by (cases s; cases t) (auto simp: tables_def)

lemma FindByAccountID_user:
  assumes "run_state (UserRepo_FindByAccountID aid) s = (Inr u, s')"
  shows "\<exists>a\<in>set (accounts_table s). ar_id a = aid \<and> user_id u = ar_user_id a"
proof -
  let ?f = "\<lambda>s. [u. u \<leftarrow> users_table s, a \<leftarrow> accounts_table s, ur_id u = ar_user_id a \<and> ar_id a = aid]"
  obtain row s1 where row: "run_state (query_row ?f) s = (Inr row, s1)"
    and load: "run_state (load_user row) s1 = (Inr u, s')"
    using assms by (auto simp: UserRepo_FindByAccountID_def run_check_err run_wrapf split: prod.splits sum.splits)
  have "\<exists>a\<in>set (accounts_table s). ar_id a = aid \<and> ur_id row = ar_user_id a"
    using query_row_row(2) [OF row] by (auto dest!: tables_same' split: if_splits)
  moreover have "user_id u = ur_id row"
    using load by (auto simp: load_user_def run_check_err user_of_row_def split: prod.splits sum.splits)
  ultimately show ?thesis by simp
qed

text \<open>A computation that only reads: it may use up faults of the schedule.\<close>

definition only_read :: "db \<Rightarrow> db \<Rightarrow> bool" where
  "only_read s s' \<longleftrightarrow> tables s' = tables s \<and> (healthy s \<longrightarrow> s' = s)"

lemma only_read_refl [simp]: "only_read s s"
  by (simp add: only_read_def)

lemma only_read_trans: "only_read s s1 \<Longrightarrow> only_read s1 s2 \<Longrightarrow> only_read s s2"
  by (auto simp: only_read_def)

lemma only_readD: "only_read s s' \<Longrightarrow> tables s' = tables s"
  by (simp add: only_read_def)

lemma only_readI:
  assumes "\<And>t. keeps (\<lambda>s. tables s = t) m" "keeps healthy m" "run_state m s = (r, s')"
  shows "only_read s s'"
proof -
  have "tables s' = tables s"
    using keeps_run [OF assms(1) refl assms(3)] .
  moreover have "healthy s'" if "healthy s"
    using keeps_run [OF assms(2) that assms(3)] .
  ultimately show ?thesis by (metis only_read_def tables_healthy)
qed

lemma Validate_account:
  assumes "run_state (AuthService_Validate E tok) s = (Inr ctx, s')"
  obtains c a where "jwt_parse E tok (validate_key E) (now E) = Some c" "claim_sub c = Some (ar_id a)"
    "a \<in> set (accounts_table s)" "ctx_user_id ctx = ar_user_id a" "ctx_roles ctx = claimed_roles c"
proof -
  obtain c sub acct s1 u where c: "jwt_parse E tok (validate_key E) (now E) = Some c" "claim_sub c = Some sub"
    and acct: "run_state (AccountRepo_FindByID sub) s = (Inr acct, s1)"
    and u: "run_state (UserRepo_FindByAccountID sub) s1 = (Inr u, s')"
    and ctx: "ctx_user_id ctx = user_id u" "ctx_roles ctx = claimed_roles c"
    using assms
    by (auto simp: AuthService_Validate_def Let_def split: option.splits sum.splits prod.splits if_splits)
  have "tables s1 = tables s"
    by (rule only_readD [OF only_readI [OF unchanged.keeps_account_reads(2) healthy_reads.keeps_account_reads(2) acct]])
  then obtain a where "a \<in> set (accounts_table s)" "ar_id a = sub" "user_id u = ar_user_id a"
    using FindByAccountID_user [OF u] by (auto dest!: tables_same')
  with c ctx that show thesis by metis
qed

text \<open>What \<open>RequireAuth\<close> lets through.\<close>

lemma RequireAuth_cases:
  assumes "run_state (RequireAuth E h nxt) s = (r, s')"
  obtains (refused) "status r = 401" "only_read s s'"
  | (passed) c a ctx s1 where "HasPrefix h ''Bearer ''" "only_read s s1"
      "jwt_parse E (TrimPrefix h ''Bearer '') (validate_key E) (now E) = Some c"
      "a \<in> set (accounts_table s)" "claim_sub c = Some (ar_id a)"
      "ctx_user_id ctx = ar_user_id a" "ctx_roles ctx = claimed_roles c"
      "run_state (nxt (Some ctx)) s1 = (r, s')"
proof (cases "h = [] \<or> TrimPrefix h ''Bearer '' = h")
  case True
  with assms have "status r = 401" "s' = s"
    by (auto simp: RequireAuth_def Let_def split: if_splits)
  then show thesis using refused by simp
next
  case False
  then have prefix: "HasPrefix h ''Bearer ''" by (metis TrimPrefix_id)
  obtain v s1 where v: "run_state (AuthService_Validate E (TrimPrefix h ''Bearer '')) s = (v, s1)"
    by fastforce
  have t: "only_read s s1"
    by (rule only_readI [OF unchanged.keeps_auth(2) healthy_reads.keeps_auth(2) v])
  show thesis
  proof (cases v)
    case (Inl err)
    with assms False v have "status r = 401" "s' = s1"
      by (auto simp: RequireAuth_def Let_def split: if_splits)
    then show thesis using refused t by simp
  next
    case (Inr ctx)
    with assms False v have "run_state (nxt (Some ctx)) s1 = (r, s')"
      by (simp add: RequireAuth_def Let_def)
    with prefix t v Inr show thesis
      by (blast elim: Validate_account intro: passed)
  qed
qed

lemma has_some_admin [simp]: "has_some_role m [RoleAdmin] = map_flag m RoleAdmin"
  by simp

lemma RequireRole_cases:
  assumes "run_state (RequireRole [RoleAdmin] nxt (Some ctx)) s = (r, s')"
  shows "status r = 403 \<and> s' = s \<or> map_flag (ctx_roles ctx) RoleAdmin \<and> run_state (nxt (Some ctx)) s = (r, s')"
  using assms by (auto simp: RequireRole_def split: if_splits)

lemma RequireTeamLeaderOrAdmin_cases:
  assumes "run_state (RequireTeamLeaderOrAdmin t nxt (Some ctx)) s = (r, s')"
  obtains (refused) "status r \<in> {400, 403, 404}" "only_read s s'"
  | (passed) s1 where "only_read s s1" "run_state (nxt (Some ctx)) s1 = (r, s')"
      "map_flag (ctx_roles ctx) RoleAdmin \<or> (t, ctx_user_id ctx) \<in> set (leaders_table s)"
proof (cases "map_flag (ctx_roles ctx) RoleAdmin")
  case True
  with assms show thesis by (intro passed [of s]) (simp_all add: RequireTeamLeaderOrAdmin_def)
next
  case not_admin: False
  show thesis
  proof (cases "t = []")
    case True
    with assms not_admin have "status r = 400" "s' = s"
      by (auto simp: RequireTeamLeaderOrAdmin_def)
    then show thesis using refused by simp
  next
    case False
    obtain rt s1 where rt: "run_state (TeamRepo_FindByID t) s = (rt, s1)" by fastforce
    have t: "only_read s s1"
      by (rule only_readI [OF unchanged.keeps_team_reads(1) healthy_reads.keeps_team_reads(1) rt])
    show thesis
    proof (cases rt)
      case (Inl err)
      with assms not_admin False rt have "status r = 404" "s' = s1"
        by (auto simp: RequireTeamLeaderOrAdmin_def)
      then show thesis using refused t by simp
    next
      case (Inr team)
      show thesis
      proof (cases "ctx_user_id ctx \<in> set (team_leader_ids team)")
        case True
        with rt Inr have "(t, ctx_user_id ctx) \<in> set (leaders_table s)"
          by (blast dest: FindByID_leaders)
        moreover have "run_state (nxt (Some ctx)) s1 = (r, s')"
          using assms not_admin False rt Inr True by (simp add: RequireTeamLeaderOrAdmin_def)
        ultimately show thesis using passed t by blast
      next
        case stranger: False
        with assms not_admin False rt Inr have "status r = 403" "s' = s1"
          by (auto simp: RequireTeamLeaderOrAdmin_def)
        then show thesis using refused t by simp
      qed
    qed
  qed
qed

section \<open>The router\<close>

text \<open>A request is refused by the middleware, or it reaches its handler with the group's right.\<close>

lemma serve_cases:
  assumes run: "run_state (serve E R h req) s = (r, s')"
  obtains (refused) "status r \<in> {400, 401, 403, 404}" "only_read s s'"
  | (unguarded) "group_of req = Public" "run_state (handle E R req None) s = (r, s')"
  | (passed) ctx s1 where "permitted E s h (group_of req)" "only_read s s1"
      "run_state (handle E R req (Some ctx)) s1 = (r, s')"
proof (cases "group_of req")
  case Public
  with run show thesis by (intro unguarded) (simp_all add: serve_def)
next
  case Authenticated
  with run have "run_state (RequireAuth E h (handle E R req)) s = (r, s')" by (simp add: serve_def)
  then show thesis
  proof (cases rule: RequireAuth_cases)
    case refused
    then show thesis using that(1) by simp
  next
    case (passed c a ctx s1)
    then have "permitted E s h (group_of req)"
      using Authenticated by (auto simp: permitted_def)
    with passed show thesis using that(3) by blast
  qed
next
  case (Team_Leader_Or_Admin t)
  with run have "run_state (RequireAuth E h (RequireTeamLeaderOrAdmin t (handle E R req))) s = (r, s')"
    by (simp add: serve_def)
  then show thesis
  proof (cases rule: RequireAuth_cases)
    case refused
    then show thesis using that(1) by simp
  next
    case (passed c a ctx s1)
    from passed(8) show thesis
    proof (cases rule: RequireTeamLeaderOrAdmin_cases)
      case refused
      then show thesis using that(1) only_read_trans [OF passed(2)] by auto
    next
      case inner: (passed s2)
      then have "permitted E s h (group_of req)"
        using Team_Leader_Or_Admin passed by (auto simp: permitted_def dest!: only_readD tables_same')
      with inner passed(2) show thesis using that(3) only_read_trans by blast
    qed
  qed
next
  case Admin_Only
  with run have "run_state (RequireAuth E h (RequireRole [RoleAdmin] (handle E R req))) s = (r, s')"
    by (simp add: serve_def)
  then show thesis
  proof (cases rule: RequireAuth_cases)
    case refused
    then show thesis using that(1) by simp
  next
    case (passed c a ctx s1)
    from RequireRole_cases [OF passed(8)] show thesis
    proof
      assume "status r = 403 \<and> s' = s1"
      then show thesis using that(1) passed(2) by simp
    next
      assume "map_flag (ctx_roles ctx) RoleAdmin \<and> run_state (handle E R req (Some ctx)) s1 = (r, s')"
      moreover from this have "permitted E s h (group_of req)"
        using Admin_Only passed by (auto simp: permitted_def)
      ultimately show thesis using that(3) passed(2) by blast
    qed
  qed
qed

lemma login_reads: "keeps (\<lambda>s. tables s = t) (AuthHandler_Login E b)"
  unfolding AuthHandler_Login_def by (intro keeps_rules unchanged.keeps_auth unchanged.keeps_user_reads)

lemma public_login: "group_of req = Public \<longleftrightarrow> (\<exists>b. req = Req_Login b)"
  by (cases req) auto

lemma serve_refused:
  assumes run: "run_state (serve E R h req) s = (r, s')"
    and "group_of req \<noteq> Public" "\<not> permitted E s h (group_of req)"
  shows "status r \<in> {400, 401, 403, 404} \<and> tables s' = tables s"
  using run by (cases rule: serve_cases) (use assms(2,3) in \<open>auto dest: only_readD\<close>)

lemma serve_public:
  assumes run: "run_state (serve E R h req) s = (r, s')" and "group_of req = Public"
  shows "tables s' = tables s"
proof -
  obtain b where "req = Req_Login b" using assms(2) by (auto simp: public_login)
  with run have "run_state (AuthHandler_Login E b) s = (r, s')" by (simp add: serve_def handle_def)
  from keeps_run [OF login_reads refl this] show ?thesis .
qed

end
