(* ===== verification/Lifecycle.thy ===== *)
theory Lifecycle
  imports Access
begin

text \<open>
  The program as a state machine: its states are the stores, its steps are requests. The stores
  that the program can reach from the demonstration data by requests over a database that
  answers are described by an inductive predicate; in every such store the constraints of the
  schema hold, each team has a leader, leaders are members, and an account has the role
  \<open>TEAM_LEADER\<close> if and only if its user leads a team. Steps that the rules of the organisation do
  not survive are excluded by \<open>ordinary\<close>, and named there.
\<close>

section \<open>Creating a user\<close>

lemma role_set_keys: "fst ` set (role_set rs m) = set rs \<union> fst ` set m"
proof (induction rs m rule: role_set.induct)
  case (2 r rs m)
  then show ?case using keys_map_put [of r True m] by auto
qed simp

lemma role_set_strings:
  assumes "iteration_ok it" "rs \<noteq> []"
  obtains ss where "rolesToStrings it (role_set rs []) = Some ss" "set ss = set rs"
proof -
  have "role_set rs [] \<noteq> []"
    using role_set_keys [of rs "[]"] assms(2) by (metis image_empty list.set(1) set_empty2 sup_bot_right)
  then obtain ss where "rolesToStrings it (role_set rs []) = Some ss"
    by (simp add: rolesToStrings_def)
  moreover from rolesToStrings_set [OF assms(1) this] have "set ss = set rs"
    by (simp add: role_set_keys)
  ultimately show thesis using that by blast
qed

lemma filter_absent: "k ` set xs \<subseteq> A \<Longrightarrow> i \<notin> A \<Longrightarrow> filter (\<lambda>x. k x \<noteq> i) xs = xs"
  by (intro filter_True) auto

lemma delete_fresh_user:
  assumes "schema_ok s" "ur_id r \<notin> user_ids s"
  shows "sql_delete_user (ur_id r) (s\<lparr>users_table := users_table s @ [r]\<rparr>) = Inr s"
proof -
  have "filter (\<lambda>x. ur_id x \<noteq> ur_id r) (users_table s) = users_table s"
    "filter (\<lambda>x. pr_user_id x \<noteq> ur_id r) (platform_table s) = platform_table s"
    "filter (\<lambda>x. ar_user_id x \<noteq> ur_id r) (accounts_table s) = accounts_table s"
    "filter (\<lambda>p. snd p \<noteq> ur_id r) (members_table s) = members_table s"
    "filter (\<lambda>p. snd p \<noteq> ur_id r) (leaders_table s) = leaders_table s"
    using assms
    by (auto intro!: filter_absent [where A = "user_ids s"] simp: schema_ok_def schema_parts links_ok_def)
      (simp_all add: user_ids_def)
  then show ?thesis by (simp add: sql_delete_user_def)
qed

definition new_user_row :: "string \<Rightarrow> create_user_request \<Rightarrow> user_row" where
  "new_user_row uid req = \<lparr>ur_id = uid, ur_username = cu_username req,
     ur_display_name = cu_display_name req, ur_email = cu_email req, ur_avatar_url = []\<rparr>"

definition new_account_row :: "string \<Rightarrow> string \<Rightarrow> string \<Rightarrow> string list \<Rightarrow> create_user_request \<Rightarrow> account_row" where
  "new_account_row aid uid hash rs req = \<lparr>ar_id = aid, ar_username = cu_username req,
     ar_password_hash = hash, ar_roles = rs, ar_user_id = uid\<rparr>"

lemma org_new_account:
  assumes s: "sound_store s" and fresh: "ur_id u \<notin> user_ids s" "ar_id a \<notin> ar_id ` set (accounts_table s)"
    and a: "ar_user_id a = ur_id u" "\<exists>r\<in>set (ar_roles a). r \<noteq> RoleTeamLeader"
      "ar_username a \<notin> ar_username ` set (accounts_table s)"
      "ur_username u \<notin> ur_username ` set (users_table s)"
    and s': "s' = s\<lparr>users_table := users_table s @ [u], accounts_table := accounts_table s @ [a]\<rparr>"
  shows "sound_store s' \<and> org_of s' = spec_create_user (ur_id u) (set (ar_roles a)) (org_of s)"
proof -
  note ss = sound_storeD [OF s]
  let ?s1 = "s\<lparr>users_table := users_table s @ [u]\<rparr>"
  have "sql_insert_user u s = Inr ?s1"
    using fresh a by (simp add: sql_insert_user_def)
  then have s1: "schema_ok ?s1" using ss(2) by (rule schema_insert_user [rotated])
  have "sql_insert_account (ar_id a) (ar_username a) (ar_password_hash a) (Some (ar_roles a)) (ar_user_id a) ?s1 = Inr s'"
    using fresh a by (cases a) (simp add: sql_insert_account_def s' id_set_defs)
  then have ok: "schema_ok s'" using s1 by (rule schema_insert_account [rotated])
  have out: "ur_id u \<notin> ar_user_id ` set (accounts_table s)"
    using ss(2) fresh(1) by (auto simp: schema_ok_def accounts_ok_def)
  then have "accounts_regular s'"
    using ss(3) a by (auto simp: accounts_regular_def s')
  moreover have "healthy s'" using ss(1) by (simp add: healthy_def s')
  moreover have "roles_of s' v = ((roles_of s)(ur_id u \<mapsto> set (ar_roles a))) v" for v
  proof -
    have "List.find (\<lambda>x. ar_user_id x = ur_id u) (accounts_table s) = None"
      using out by (simp add: find_key_None)
    with a(1) show ?thesis by (auto simp: roles_of_def s' split: option.splits)
  qed
  then have "org_of s' = spec_create_user (ur_id u) (set (ar_roles a)) (org_of s)"
    by (intro org_eqI) (auto simp: spec_create_user_def id_set_defs s' fun_eq_iff)
  ultimately show ?thesis using ok by (simp add: sound_store_def)
qed

text \<open>The identifiers of a new user must be fresh, as for a team; the role \<open>TEAM_LEADER\<close> is not
  asked for.\<close>

lemma CreateUser_refines:
  assumes s: "sound_store s" and it: "iteration_ok (iter E)"
    and fresh: "''u-'' @ take 8 uuid1 \<notin> user_ids s" "''a-'' @ take 8 uuid2 \<notin> ar_id ` set (accounts_table s)"
    and roles: "RoleTeamLeader \<notin> set (cu_roles req)"
    and run: "run_state (AdminHandler_CreateUser E uuid1 uuid2 (Some req)) s = (r, s')"
  shows "sound_store s' \<and>
    (if status r = 201
     then org_of s' = spec_create_user (''u-'' @ take 8 uuid1)
       (if cu_roles req = [] then {RoleTeamMember} else set (cu_roles req)) (org_of s)
     else s' = s)"
proof (cases "cu_username req = [] \<or> cu_password req = [] \<or> cu_display_name req = []
    \<or> bcrypt_hash E (cu_password req) = None")
  case True
  with run s show ?thesis
    by (cases "bcrypt_hash E (cu_password req)") (auto simp: AdminHandler_CreateUser_def Let_def split: if_splits)
next
  case False
  note ss = sound_storeD [OF s]
  let ?uid = "''u-'' @ take 8 uuid1" and ?aid = "''a-'' @ take 8 uuid2"
  let ?rs = "if cu_roles req = [] then [RoleTeamMember] else cu_roles req"
  obtain hash where hash: "bcrypt_hash E (cu_password req) = Some hash"
    using False by auto
  have "?rs \<noteq> []" by simp
  then obtain strs where strs: "rolesToStrings (iter E) (role_set ?rs []) = Some strs" "set strs = set ?rs"
    by (rule role_set_strings [OF it])
  let ?u = "new_user_row ?uid req" and ?a = "new_account_row ?aid ?uid hash strs req"
  let ?s1 = "s\<lparr>users_table := users_table s @ [?u]\<rparr>"
  have rows: "row_of_user \<lparr>user_id = i, user_username = cu_username req,
      user_display_name = cu_display_name req, user_email = cu_email req, user_avatar_url = [],
      user_platform_usernames = []\<rparr> = new_user_row i req" for i
    by (simp add: row_of_user_def new_user_row_def)
  have u: "ur_id (new_user_row i req) = i" "ur_username (new_user_row i req) = cu_username req" for i
    by (simp_all add: new_user_row_def)
  have h1: "healthy ?s1" using ss(1) by (simp add: healthy_def)
  show ?thesis
  proof (cases "cu_username req \<in> ur_username ` set (users_table s)")
    case True
    then have "run_state (UserRepo_Save \<lparr>user_id = ?uid, user_username = cu_username req,
        user_display_name = cu_display_name req, user_email = cu_email req, user_avatar_url = [],
        user_platform_usernames = []\<rparr>) s =
      (Inl (Errorf ''save user'' (Driver (Unique_Violation ''users_username_key''))), s)"
      using fresh(1) ss(1)
      by (simp add: UserRepo_Save_def run_write_healthy rows sql_upsert_user_def sql_insert_user_def u)
    with run False hash s show ?thesis
      by (auto simp: AdminHandler_CreateUser_def Let_def)
  next
    case new: False
    have saved: "run_state (UserRepo_Save \<lparr>user_id = ?uid, user_username = cu_username req,
        user_display_name = cu_display_name req, user_email = cu_email req, user_avatar_url = [],
        user_platform_usernames = []\<rparr>) s = (Inr (), ?s1)"
      using fresh(1) new ss(1)
      by (simp add: UserRepo_Save_def run_write_healthy rows sql_upsert_user_def sql_insert_user_def u)
    let ?save = "AccountRepo_Save E \<lparr>account_id = ?aid, account_username = cu_username req,
        account_password_hash = hash, account_roles = role_set ?rs [], account_user_id = ?uid\<rparr>"
    show ?thesis
    proof (cases "cu_username req \<in> ar_username ` set (accounts_table s)")
      case True
      then have "run_state ?save ?s1 =
          (Inl (Errorf ''save account'' (Driver (Unique_Violation ''user_accounts_username_key''))), ?s1)"
        using fresh(2) h1
        by (simp add: AccountRepo_Save_def run_write_healthy sql_upsert_account_def sql_insert_account_def strs(1))
      moreover have "run_state (UserRepo_Delete ?uid) ?s1 = (Inr (), s)"
        using delete_fresh_user [OF ss(2), of ?u] fresh(1) h1
        by (simp add: UserRepo_Delete_def run_write_healthy u)
      ultimately have "s' = s" "status r = 500"
        using run False hash saved by (auto simp: AdminHandler_CreateUser_def Let_def)
      with s show ?thesis by simp
    next
      case unused: False
      let ?s2 = "s\<lparr>users_table := users_table s @ [?u], accounts_table := accounts_table s @ [?a]\<rparr>"
      have "run_state ?save ?s1 = (Inr (), ?s2)"
        using fresh(2) h1 unused
        by (simp add: AccountRepo_Save_def run_write_healthy sql_upsert_account_def sql_insert_account_def
            strs(1) new_account_row_def id_set_defs u)
      then have fin: "s' = ?s2" "status r = 201"
        using run False hash saved by (auto simp: AdminHandler_CreateUser_def Let_def)
      have "\<exists>q\<in>set (ar_roles ?a). q \<noteq> RoleTeamLeader"
      proof (cases "cu_roles req")
        case Nil
        with strs(2) show ?thesis by (simp add: new_account_row_def role_defs)
      next
        case (Cons q qs)
        with strs(2) roles show ?thesis by (auto simp: new_account_row_def)
      qed
      then have "sound_store s' \<and> org_of s' = spec_create_user (ur_id ?u) (set (ar_roles ?a)) (org_of s)"
        using fresh new unused by (intro org_new_account [OF s _ _ _ _ _ _ fin(1)]) (simp_all add: new_account_row_def u)
      with fin strs(2) show ?thesis by (simp add: new_account_row_def u)
    qed
  qed
qed

section \<open>Requests that leave the organisation alone\<close>

definition org_tables ::
    "db \<Rightarrow> user_row list \<times> account_row list \<times> team_row list \<times> (string \<times> string) list \<times> (string \<times> string) list" where
  "org_tables s = (users_table s, accounts_table s, teams_table s, members_table s, leaders_table s)"

interpretation org_statements: stmt_invariant "\<lambda>s. org_tables s = t"
  by unfold_locales (simp add: org_tables_def)

lemma statements_org_tables:
  "sql_upsert_platform_username pr s = Inr s' \<Longrightarrow> org_tables s' = org_tables s"
  "sql_upsert_repo rr s = Inr s' \<Longrightarrow> org_tables s' = org_tables s"
  "sql_add_team_repo b t' r s = Inr s' \<Longrightarrow> org_tables s' = org_tables s"
  "sql_remove_team_repo t' r s = Inr s' \<Longrightarrow> org_tables s' = org_tables s"
  "sql_upsert_config kv s = Inr s' \<Longrightarrow> org_tables s' = org_tables s"
proof -
  show "sql_upsert_platform_username pr s = Inr s' \<Longrightarrow> org_tables s' = org_tables s"
    by (auto simp: sql_upsert_platform_username_def sql_insert_platform_username_def org_tables_def split: if_splits)
  show "sql_upsert_repo rr s = Inr s' \<Longrightarrow> org_tables s' = org_tables s"
    by (auto simp: sql_upsert_repo_def sql_insert_repo_def org_tables_def split: if_splits)
  show "sql_add_team_repo b t' r s = Inr s' \<Longrightarrow> org_tables s' = org_tables s"
    by (clarsimp simp: sql_add_team_repo_def org_tables_def)
  show "sql_remove_team_repo t' r s = Inr s' \<Longrightarrow> org_tables s' = org_tables s"
    by (clarsimp simp: sql_remove_team_repo_def org_tables_def)
  show "sql_upsert_config kv s = Inr s' \<Longrightarrow> org_tables s' = org_tables s"
    by (auto simp: sql_upsert_config_def sql_insert_config_def org_tables_def split: if_splits)
qed

interpretation org_routine: routine_invariant "\<lambda>s. org_tables s = t"
  by unfold_locales (rule org_statements.keeps_exec, simp add: statements_org_tables)+

lemma org_tables_cong:
  assumes "org_tables s' = org_tables s"
  shows "org_of s' = org_of s" "accounts_regular s' = accounts_regular s"
  using assms by (simp_all add: org_tables_def org_of_def id_set_defs roles_of_def accounts_regular_def fun_eq_iff)

lemma routine_org:
  assumes "\<And>t. keeps (\<lambda>s. org_tables s = t) m" "keeps schema_ok m" "keeps healthy m"
    and "sound_store s" "run_state m s = (r, s')"
  shows "sound_store s' \<and> org_of s' = org_of s"
proof -
  note ss = sound_storeD [OF assms(4)]
  note same = org_tables_cong [OF keeps_run [OF assms(1) refl assms(5)]]
  from ss(3) keeps_run [OF assms(2) ss(2) assms(5)] keeps_run [OF assms(3) ss(1) assms(5)]
  show ?thesis by (simp add: sound_store_def same)
qed

section \<open>Steps\<close>

text \<open>
  Excluded are: a restore, which replaces the organisation by the backup's; a new user that asks
  for the role \<open>TEAM_LEADER\<close>; and an identifier drawn at random that is already taken, since the
  code writes the row of a new user, account or team over one with the same identifier.
\<close>

fun ordinary :: "db \<Rightarrow> api_request \<Rightarrow> bool" where
  "ordinary s (Req_BackupRestore b) = (b = None)"
| "ordinary s (Req_CreateUser uuid1 uuid2 (Some req)) =
     (''u-'' @ take 8 uuid1 \<notin> user_ids s \<and> ''a-'' @ take 8 uuid2 \<notin> ar_id ` set (accounts_table s) \<and>
      RoleTeamLeader \<notin> set (cu_roles req))"
| "ordinary s (Req_CreateTeam uuid b) = (''t-'' @ take 8 uuid \<notin> team_ids s)"
| "ordinary s _ = True"

definition good_store :: "db \<Rightarrow> bool" where
  "good_store s \<longleftrightarrow> sound_store s \<and> org_ok (org_of s)"

text \<open>The requests that run none of the statements on users, accounts, teams, members and leaders.\<close>

fun routine :: "api_request \<Rightarrow> bool" where
  "routine (Req_AddMember t b) = False"
| "routine (Req_RemoveMember t u) = False"
| "routine (Req_BackupRestore b) = False"
| "routine (Req_CreateUser i j b) = False"
| "routine (Req_DeleteUser u) = False"
| "routine (Req_CreateTeam i b) = False"
| "routine (Req_DeleteTeam t) = False"
| "routine (Req_AddLeader t b) = False"
| "routine (Req_RemoveLeader t u) = False"
| "routine _ = True"

lemma routine_handle: "routine req \<Longrightarrow> keeps (\<lambda>s. org_tables s = t) (handle E R req actx)"
  by (cases req) (simp_all add: handle_def org_routine.keeps_routine)

lemma good_routine:
  assumes "good_store s" "routine req" "run_state (handle E R req actx) s = (r, s')"
  shows "good_store s'"
  using routine_org [OF routine_handle [OF assms(2)] schema_program.keeps_handle
      healthy_program.keeps_handle _ assms(3)] assms(1)
  by (simp add: good_store_def)

lemma good_admin:
  assumes good: "good_store s" and it: "iteration_ok (iter E)"
  shows "run_state (AdminHandler_AddMember t b) s = (r, s') \<Longrightarrow> good_store s'"
    and "run_state (AdminHandler_RemoveMember E t u) s = (r, s') \<Longrightarrow> good_store s'"
    and "run_state (AdminHandler_AddLeader E t b) s = (r, s') \<Longrightarrow> good_store s'"
    and "run_state (AdminHandler_RemoveLeader E t u) s = (r, s') \<Longrightarrow> good_store s'"
    and "run_state (AdminHandler_DeleteTeam E t) s = (r, s') \<Longrightarrow> good_store s'"
    and "run_state (AdminHandler_DeleteUser u) s = (r, s') \<Longrightarrow> good_store s'"
    and "''t-'' @ take 8 uuid \<notin> team_ids s \<Longrightarrow>
      run_state (AdminHandler_CreateTeam E uuid tb) s = (r, s') \<Longrightarrow> good_store s'"
    and "ordinary s (Req_CreateUser i j cb) \<Longrightarrow>
      run_state (AdminHandler_CreateUser E i j cb) s = (r, s') \<Longrightarrow> good_store s'"
proof -
  have s: "sound_store s" and ok: "org_ok (org_of s)"
    using good by (simp_all add: good_store_def)
  show "good_store s'" if run: "run_state (AdminHandler_AddMember t b) s = (r, s')"
  proof (cases b)
    case None
    with run good show ?thesis by (auto simp: AdminHandler_AddMember_def)
  next
    case (Some u)
    from AddMember_refines [OF s run [unfolded Some]] s ok show ?thesis
      by (auto simp: good_store_def spec_add_member_ok split: if_splits)
  qed
  show "good_store s'" if run: "run_state (AdminHandler_RemoveMember E t u) s = (r, s')"
    using RemoveMember_refines [OF s run] s ok
    by (auto simp: good_store_def intro: spec_remove_member_ok split: if_splits)
  show "good_store s'" if run: "run_state (AdminHandler_AddLeader E t b) s = (r, s')"
  proof (cases b)
    case None
    with run good show ?thesis by (auto simp: AdminHandler_AddLeader_def)
  next
    case (Some u)
    from AddLeader_refines [OF s it run [unfolded Some]] s ok show ?thesis
      by (auto simp: good_store_def intro: spec_add_leader_ok split: if_splits)
  qed
  show "good_store s'" if run: "run_state (AdminHandler_RemoveLeader E t u) s = (r, s')"
    using RemoveLeader_refines [OF s it run] s ok
    by (auto simp: good_store_def intro!: spec_remove_leader_ok split: if_splits)
  show "good_store s'" if run: "run_state (AdminHandler_DeleteTeam E t) s = (r, s')"
    using DeleteTeam_refines [OF s it run] s ok
    by (auto simp: good_store_def intro!: spec_delete_team_ok split: if_splits)
  show "good_store s'" if run: "run_state (AdminHandler_DeleteUser u) s = (r, s')"
    using DeleteUser_refines [OF s ok run] s ok
    by (auto simp: good_store_def intro!: spec_delete_user_ok split: if_splits) metis
  show "good_store s'" if fresh: "''t-'' @ take 8 uuid \<notin> team_ids s"
    and run: "run_state (AdminHandler_CreateTeam E uuid tb) s = (r, s')"
  proof (cases tb)
    case None
    with run good show ?thesis by (auto simp: AdminHandler_CreateTeam_def)
  next
    case (Some req)
    from CreateTeam_refines [OF s it fresh run [unfolded Some]] s ok show ?thesis
      by (auto simp: good_store_def spec_create_team_ok split: if_splits)
  qed
  show "good_store s'" if ord: "ordinary s (Req_CreateUser i j cb)"
    and run: "run_state (AdminHandler_CreateUser E i j cb) s = (r, s')"
  proof (cases cb)
    case None
    with run good show ?thesis by (auto simp: AdminHandler_CreateUser_def)
  next
    case (Some req)
    have fresh: "''u-'' @ take 8 i \<notin> user_ids s" "''a-'' @ take 8 j \<notin> ar_id ` set (accounts_table s)"
      "RoleTeamLeader \<notin> set (cu_roles req)"
      using ord Some by auto
    have "\<not> leads (org_of s) (''u-'' @ take 8 i)"
      using sound_storeD(2) [OF s] fresh(1) by (force simp: leads_org schema_ok_def teams_ok_def links_ok_def)
    with CreateUser_refines [OF s it fresh run [unfolded Some]] s ok fresh(3) show ?thesis
      by (auto simp: good_store_def role_defs intro!: spec_create_user_ok split: if_splits)
  qed
qed

lemma good_handle:
  assumes good: "good_store s" and it: "iteration_ok (iter E)" and ord: "ordinary s req"
    and run: "run_state (handle E R req actx) s = (r, s')"
  shows "good_store s'"
proof (cases "routine req")
  case True
  from good_routine [OF good True run] show ?thesis .
next
  case admin: False
  show ?thesis
  proof (cases req)
    case (Req_BackupRestore b)
    with ord run good show ?thesis by (auto simp: handle_def BackupHandler_Restore_def)
  qed (use admin run ord in \<open>simp_all add: handle_def good_admin [OF good it]\<close>)
qed

lemma good_serve:
  assumes good: "good_store s" and it: "iteration_ok (iter E)" and ord: "ordinary s req"
    and run: "run_state (serve E R h req) s = (r, s')"
  shows "good_store s'"
  using run
proof (cases rule: serve_cases)
  case refused
  with good show ?thesis by (auto simp: only_read_def good_store_def sound_store_def)
next
  case unguarded
  with good_handle [OF good it ord] show ?thesis by blast
next
  case (passed ctx s1)
  then have "s1 = s" using good by (simp add: only_read_def good_store_def sound_store_def)
  with good_handle [OF good it ord] passed(3) show ?thesis by blast
qed

section \<open>Reachable stores\<close>

inductive reachable :: "db \<Rightarrow> bool" where
  migrated: "reachable seeded"
| request: "\<lbrakk>reachable s; iteration_ok (iter E); ordinary s req;
    run_state (serve E R h req) s = (r, s')\<rbrakk> \<Longrightarrow> reachable s'"

lemma reachable_good: "reachable s \<Longrightarrow> good_store s"
proof (induction rule: reachable.induct)
  case migrated
  show ?case by (simp add: good_store_def)
next
  case (request s E req R h r s')
  from good_serve [OF request.IH request.hyps(2-4)] show ?case .
qed

text \<open>What the rules say of the tables.\<close>

lemma good_store_rules:
  assumes "good_store s"
  shows "schema_ok s \<and> (\<forall>t\<in>set (teams_table s). \<exists>u. (tr_id t, u) \<in> set (leaders_table s)) \<and>
    set (leaders_table s) \<subseteq> set (members_table s) \<and>
    (\<forall>a\<in>set (accounts_table s). RoleTeamLeader \<in> set (ar_roles a) \<longleftrightarrow>
       (\<exists>t. (t, ar_user_id a) \<in> set (leaders_table s)))"
proof -
  have s: "sound_store s" and ok: "org_ok (org_of s)"
    using assms by (simp_all add: good_store_def)
  have "RoleTeamLeader \<in> set (ar_roles a) \<longleftrightarrow> (\<exists>t. (t, ar_user_id a) \<in> set (leaders_table s))"
    if "a \<in> set (accounts_table s)" for a
    using roles_of_Some [OF sound_storeD(3) [OF s] that] ok by (auto simp: org_ok_def role_derived_def leads_def)
  moreover have "\<exists>u. (tr_id t, u) \<in> set (leaders_table s)" if "t \<in> set (teams_table s)" for t
    using ok that by (auto simp: org_ok_def every_team_led_def team_ids_def)
  ultimately show ?thesis
    using sound_storeD(2) [OF s] ok by (auto simp: org_ok_def leaders_among_members_def)
qed

end
