(* ===== verification/Answers.thy ===== *)
theory Answers
  imports Startup Report_Facts
begin

text \<open>
  When the fetchers of the program answer: if every request to a platform comes back, the pages
  of every listing end, and no issue or merge request of GitLab has a web address without a path,
  then no call of a report panics or hangs, whatever the platforms return. With
  \<open>GenerateReport_answers\<close> the stream of every report then ends.
\<close>

section \<open>Calls that settle\<close>

definition settles :: "'a outcome \<Rightarrow> bool" where
  "settles m \<longleftrightarrow> m \<noteq> Panicked \<and> m \<noteq> Diverged"

lemma quiet_settles: "quiet c = settles c"
  by (simp add: quiet_def settles_def)

named_theorems settles_rules \<open>calls that neither panic nor hang\<close>

lemma settles_Returned [settles_rules]: "settles (Returned r)"
  by (simp add: settles_def)

lemma settles_and_then [settles_rules]: "settles m \<Longrightarrow> (\<And>x. settles (k x)) \<Longrightarrow> settles (and_then m k)"
  by (cases "(m, k)" rule: and_then.cases) (simp_all add: settles_def)

lemma settles_and_then_of:
  "settles m \<Longrightarrow> (\<And>x. m = Returned (Inr x) \<Longrightarrow> settles (k x)) \<Longrightarrow> settles (and_then m k)"
  by (cases "(m, k)" rule: and_then.cases) (simp_all add: settles_def)

lemma settles_wrap_err [settles_rules]: "settles m \<Longrightarrow> settles (wrap_err msg m)"
  by (cases "(msg, m)" rule: wrap_err.cases) (simp_all add: settles_def)

lemma settles_append_each [settles_rules]:
  "(\<And>x. x \<in> set xs \<Longrightarrow> settles (f x)) \<Longrightarrow> settles (append_each f xs)"
  by (induction xs) (auto intro!: settles_rules)

lemma settles_if [settles_rules]: "(b \<Longrightarrow> settles m) \<Longrightarrow> (\<not> b \<Longrightarrow> settles n) \<Longrightarrow> settles (if b then m else n)"
  by simp

lemma settles_let [settles_rules]: "(\<And>x. x = t \<Longrightarrow> settles (f x)) \<Longrightarrow> settles (let x = t in f x)"
  by simp

lemma settles_unmarshal [settles_rules]: "settles (unmarshal msg dec t)"
  unfolding unmarshal_def by (intro settles_rules)

section \<open>The network\<close>

text \<open>Every request comes back; the pages of a listing end, for both ways of naming the next one.\<close>

definition net_answers :: "net \<Rightarrow> bool" where
  "net_answers N \<longleftrightarrow> (\<forall>req. settles (do_request N req)) \<and>
     (\<forall>headers url. \<exists>n. url_after N headers gh_next url n = None) \<and>
     (\<forall>headers url. \<exists>n. url_after N headers gl_next url n = None)"

lemma settles_get_page:
  assumes "\<forall>req. settles (do_request N req)" shows "settles (get_page N headers url)"
  using assms unfolding get_page_def by (auto split: sum.splits intro!: settles_rules)

lemma settles_http_Get:
  assumes "\<forall>req. settles (do_request N req)" shows "settles (http_Get N headers url)"
  unfolding http_Get_def
  by (intro settles_and_then settles_get_page [OF assms]) (auto intro: settles_rules)

lemma loop_settles:
  assumes "\<forall>req. settles (do_request N req)" "get_all_loop N headers nxt url pages = Some r"
  shows "settles r"
proof (rule get_all_loop.raw_induct [where P = "\<lambda>N headers nxt url pages r.
    (\<forall>req. settles (do_request N req)) \<longrightarrow> settles r", OF _ assms(2), THEN mp, OF _ assms(1)], intro impI)
  fix loop N headers nxt url pages r
  assume IH: "\<And>N headers nxt url pages r. loop N headers nxt url pages = Some r \<Longrightarrow>
      (\<forall>req. settles (do_request N req)) \<longrightarrow> settles r"
    and body: "(if url = [] then Some (Returned (Inr pages))
      else case get_page N headers url of Returned (Inl err) \<Rightarrow> Some (Returned (Inl err))
        | Returned (Inr page) \<Rightarrow> loop N headers nxt (nxt (fst page) (fst (snd page))) (pages @ [snd (snd page)])
        | Panicked \<Rightarrow> Some Panicked | Diverged \<Rightarrow> Some Diverged) = Some r"
    and N: "\<forall>req. settles (do_request N req)"
  have "get_page N headers url \<noteq> Panicked" "get_page N headers url \<noteq> Diverged"
    using settles_get_page [OF N] by (auto simp: settles_def)
  with body IH N show "settles r"
    by (auto simp: settles_Returned split: if_splits outcome.splits sum.splits)
qed

lemma settles_GetAll:
  assumes "\<forall>req. settles (do_request N req)" "\<exists>n. url_after N headers nxt url n = None"
  shows "settles (http_GetAll N headers nxt url)"
proof -
  obtain r where r: "get_all_loop N headers nxt url [] = Some r"
    using assms(2) loop_ends_iff [of N headers nxt url "[]"] by auto
  from loop_settles [OF assms(1) r] r show ?thesis by (simp add: http_GetAll_def)
qed

lemma settles_client:
  assumes "net_answers N"
  shows "settles (gh_Get N c url)" "settles (gl_Get N c url)"
    and "settles (gh_GetAll N c url)" "settles (gl_GetAll N c url)"
  using assms unfolding gh_Get_def gl_Get_def gh_GetAll_def gl_GetAll_def net_answers_def
  by (auto intro: settles_http_Get settles_GetAll)

section \<open>The fetchers\<close>

lemma gh_answers:
  assumes N: "net_answers N"
  shows "fetcher_answers (gh_NewActivityFetcher N J it c)"
proof -
  note rules = settles_rules settles_client [OF N]
  have "settles (gh_FetchForUser N J c u repo since until types)" for u repo since until types
    unfolding gh_FetchForUser_def both_def fetch_if_def gh_fetchCommits_def gh_fetchReviews_def gh_pr_reviews_def
    by (intro rules)
  moreover have "settles (gh_SearchActivities N J c it u repos since until types)" for u repos since until types
    unfolding gh_SearchActivities_def both_def fetch_if_def gh_searchIssues_def gh_searchMergedPRs_def
      gh_search_items_def
    by (intro rules)
  moreover have "settles (gh_DiscoverUserRepos N J c u)" for u
    unfolding gh_DiscoverUserRepos_def by (intro rules)
  ultimately show ?thesis
    by (simp add: fetcher_answers_def gh_NewActivityFetcher_def quiet_settles)
qed

text \<open>No decoded issue or merge request has a web address without a path.\<close>

definition web_urls_ok :: "net \<Rightarrow> gl_json \<Rightarrow> bool" where
  "web_urls_ok N J \<longleftrightarrow>
     (\<forall>page issues i. dec_gl_issues J page = Inr issues \<longrightarrow> i \<in> set issues \<longrightarrow>
        url_Path (authority_ok N) (gli_web_url i) \<noteq> Some []) \<and>
     (\<forall>page mrs m. dec_gl_mrs J page = Inr mrs \<longrightarrow> m \<in> set mrs \<longrightarrow>
        url_Path (authority_ok N) (glm_web_url m) \<noteq> Some [])"

lemma settles_if_in_repos:
  "url_Path (authority_ok N) url \<noteq> Some [] \<Longrightarrow> settles (if_in_repos N rs url a)"
  by (auto simp: if_in_repos_def extractProjectPath_def settles_def split: option.splits list.splits)

lemma gl_answers:
  assumes N: "net_answers N" and J: "web_urls_ok N J"
  shows "fetcher_answers (gl_NewActivityFetcher N J c)"
proof -
  note rules = settles_rules settles_client [OF N]
  have issues: "settles (gl_searchIssues N J c u since until rs)" for u since until rs
    unfolding gl_searchIssues_def
    by (intro settles_let settles_and_then settles_client [OF N] settles_append_each settles_and_then_of
        settles_unmarshal settles_if_in_repos)
      (use J in \<open>auto simp: web_urls_ok_def unmarshal_ok\<close>)
  have mrs: "settles (gl_searchMergedMRs N J c u since until rs)" for u since until rs
    unfolding gl_searchMergedMRs_def
    by (intro settles_let settles_and_then settles_client [OF N] settles_append_each settles_and_then_of
        settles_unmarshal settles_if_in_repos)
      (use J in \<open>auto simp: web_urls_ok_def unmarshal_ok\<close>)
  have "settles (gl_searchMRDiscussions N J c u repos since until)" for u repos since until
    unfolding gl_searchMRDiscussions_def gl_repo_discussions_def gl_mr_notes_def by (intro rules)
  then have "settles (gl_SearchActivities N J c u repos since until types)" for u repos since until types
    unfolding gl_SearchActivities_def gl_fetch_if_eq gl_copies both_def fetch_if_def by (intro rules issues mrs) simp_all
  moreover have "settles (gl_FetchForUser N J c u repo since until types)" for u repo since until types
    unfolding gl_FetchForUser_def gl_fetch_if_eq gl_copies fetch_if_def gl_fetchCommits_def by (intro rules)
  moreover have "settles (gl_DiscoverUserRepos N J c u)" for u
    unfolding gl_DiscoverUserRepos_def by (intro rules)
  ultimately show ?thesis
    by (simp add: fetcher_answers_def gl_NewActivityFetcher_def quiet_settles)
qed

lemma program_answers:
  assumes "net_answers N" "web_urls_ok N JL"
  shows "registry_answers (program_registry getenv N JH JL it)"
  using gh_answers [OF assms(1)] gl_answers [OF assms]
  by (auto simp: registry_answers_def program_registry_def Let_def Build_Register Build_empty
      gh_Build_def gl_Build_def split: if_splits)

end
