(* ===== verification/Instances.thy ===== *)
theory Instances
  imports Lifecycle Answers
begin

text \<open>
  Concrete data on which the properties are applied: a platform that answers every request with
  one page, a registry of the program's fetchers over it, the demonstration store with tokens,
  and the store after an administration request.
\<close>

section \<open>Requests\<close>

text \<open>A report port without platforms, for concrete requests.\<close>

definition demo_port :: report_port where
  "demo_port = \<lparr>rp_registry = NewActivityFetcherRegistry, rp_schedules = (\<lambda>n. []), rp_flusher = True\<rparr>"

text \<open>The administrator makes Alice, a member of the team, a second leader of it.\<close>

definition two_leaders :: db where
  "two_leaders = snd (run_state (serve demo_env demo_port ''Bearer token-admin''
     (Req_AddLeader ''t-eng'' (Some ''u-alice''))) seeded)"

lemma two_leaders_table: "leaders_table two_leaders = [(''t-eng'', ''u-carol''), (''t-eng'', ''u-alice'')]"
  unfolding two_leaders_def by code_simp

lemma reachable_two_leaders: "reachable two_leaders"
proof -
  obtain r where "run_state (serve demo_env demo_port ''Bearer token-admin''
     (Req_AddLeader ''t-eng'' (Some ''u-alice''))) seeded = (r, two_leaders)"
    unfolding two_leaders_def by (metis surjective_pairing)
  then show ?thesis
    by (rule request [OF migrated, rotated 2]) simp_all
qed

section \<open>Platforms\<close>

definition demo_net :: net where
  "demo_net = \<lparr>new_request = Inr,
     do_request = (\<lambda>q. Returned (Inr \<lparr>hr_status = 200, hr_header = (\<lambda>h. []), hr_body = Inr ''page''\<rparr>)),
     authority_ok = (\<lambda>a. True)\<rparr>"

definition demo_time :: go_time where
  "demo_time = \<lparr>time_unix = 1709251200, time_offset = 0\<rparr>"

text \<open>The user's repository is one of the team's, and has one commit.\<close>

definition demo_gh_json :: gh_json where
  "demo_gh_json = \<lparr>
     dec_gh_repos = (\<lambda>page. Inr [\<lparr>ghrepo_id = 17, ghrepo_name = ''contribution-tracker'',
       ghrepo_full_name = ''myorg/contribution-tracker'',
       ghrepo_html_url = ''https://github.com/myorg/contribution-tracker''\<rparr>]),
     dec_gh_commits = (\<lambda>page. Inr [\<lparr>ghc_sha = ''c0ffee'',
       ghc_commit = \<lparr>ghd_message = ''fix the build'', ghd_author = \<lparr>ghu_name = ''alice'', ghu_email = [],
         ghu_date = demo_time\<rparr>\<rparr>, ghc_html_url = []\<rparr>]),
     dec_gh_search = (\<lambda>page. Inr \<lparr>gh_total_count = 0, gh_items = []\<rparr>),
     dec_gh_reviews = (\<lambda>page. Inr [])\<rparr>"

definition demo_gl_json :: gl_json where
  "demo_gl_json = \<lparr>dec_gl_projects = (\<lambda>page. Inr []), dec_gl_commits = (\<lambda>page. Inr []),
     dec_gl_issues = (\<lambda>page. Inr []), dec_gl_mrs = (\<lambda>page. Inr []), dec_gl_notes = (\<lambda>page. Inr [])\<rparr>"

definition demo_registry :: fetcher_registry where
  "demo_registry = program_registry (\<lambda>key. []) demo_net demo_gh_json demo_gl_json (\<lambda>n. [0..<n])"

lemma no_next_page:
  "hr_header r = (\<lambda>h. []) \<Longrightarrow> gh_next u r = []" "hr_header r = (\<lambda>h. []) \<Longrightarrow> gl_next u r = []"
  by (simp_all add: gh_next_def gl_next_def parseNextLink_def nextPageURL_def)

text \<open>Every listing has one page.\<close>

lemma demo_pages: "http_GetAll demo_net headers gl_next (c # url) = Returned (Inr [''page''])"
  "http_GetAll demo_net headers gh_next (c # url) = Returned (Inr [''page''])"
  unfolding GetAll_pages
  by (rule more_pages; simp add: get_page_def demo_net_def check_response_def; simp add: no_next_page last_page)+

lemma demo_net_answers: "net_answers demo_net"
proof -
  have "url_after demo_net headers nxt url (Suc (Suc 0)) = None"
    if "\<And>u r. hr_header r = (\<lambda>h. []) \<Longrightarrow> nxt u r = []" for headers nxt url
    using that by (auto simp: next_url_def get_page_def demo_net_def check_response_def split: option.splits)
  then have "\<exists>n. url_after demo_net headers gh_next url n = None"
    "\<exists>n. url_after demo_net headers gl_next url n = None" for headers url
    by (blast intro: no_next_page)+
  then show ?thesis
    by (simp add: net_answers_def demo_net_def settles_def)
qed

lemma demo_registry_answers: "registry_answers demo_registry"
  unfolding demo_registry_def
  by (intro program_answers demo_net_answers) (simp add: web_urls_ok_def demo_gl_json_def)

text \<open>The demonstration store with a token for every repository.\<close>

definition tokened :: db where
  "tokened = seeded\<lparr>repos_table := map (\<lambda>r. r\<lparr>rr_api_token := ''ghp_1''\<rparr>) (repos_table seeded)\<rparr>"

text \<open>Carol asks for the report of her team, Alice for the same.\<close>

definition demo_query :: "string \<Rightarrow> (role, bool) go_map \<Rightarrow> report_query" where
  "demo_query caller roles = \<lparr>query_team_id = ''t-eng'', query_member_id = [], query_caller_id = caller,
     query_caller_roles = roles, query_since = demo_time, query_until = demo_time,
     query_types = [ActivityTypeCommit], query_report_type = ''ACTIVITY_LOG''\<rparr>"

lemma tokened_simps [simp]:
  "users_table tokened = users_table seeded" "teams_table tokened = teams_table seeded"
  "members_table tokened = members_table seeded" "leaders_table tokened = leaders_table seeded"
  "team_repos_table tokened = team_repos_table seeded" "platform_table tokened = platform_table seeded"
  "faults tokened = []" "healthy tokened"
  by (simp_all add: tokened_def seeded_tables healthy_def)

definition demo_report :: "string \<Rightarrow> (report_event list \<times> ending) \<times> db" where
  "demo_report caller = run_state (GenerateReport demo_env demo_registry (\<lambda>n. [])
     (demo_query caller [(RoleTeamMember, True)])) tokened"

lemma demo_team: "by_key tr_id (query_team_id (demo_query caller roles)) (teams_table tokened) =
    [\<lparr>tr_id = ''t-eng'', tr_name = ''Engineering''\<rparr>]"
  by (simp add: demo_query_def seeded_tables)

text \<open>Alice, a member, gets her own report; Carol, who leads the team, gets everybody's.\<close>

lemma demo_reports:
  obtains reports s' where
    "demo_report caller = ((map UserReportEvent reports @ [ReportCompleteEvent], Closed), s')"
    "map (\<lambda>r. user_id (report_user r)) reports =
       (if caller = ''u-carol'' then [''u-alice'', ''u-bob'', ''u-carol'']
        else filter (\<lambda>u. u = caller) [''u-alice'', ''u-bob'', ''u-carol'', ''u-admin''])"
proof -
  let ?q = "demo_query caller [(RoleTeamMember, True)]" and ?t = "\<lparr>tr_id = ''t-eng'', tr_name = ''Engineering''\<rparr>"
  obtain reports s' where r: "demo_report caller = ((map UserReportEvent reports @ [ReportCompleteEvent], Closed), s')"
    "map report_user reports = map (user_view tokened)
       (filter (\<lambda>r. ur_id r \<in> set (report_member_ids ?q (team_view tokened ?t))) (users_table tokened))"
    using GenerateReport_reports [OF demo_registry_answers tokened_simps(8) demo_team]
    unfolding demo_report_def by blast
  have "map (\<lambda>r. user_id (report_user r)) reports = map user_id (map report_user reports)" by simp
  also have "\<dots> = map ur_id (filter (\<lambda>r. ur_id r \<in> set (report_member_ids ?q (team_view tokened ?t))) (users_table tokened))"
    unfolding r(2) by simp
  also have "report_member_ids ?q (team_view tokened ?t) =
      (if caller = ''u-carol'' then [''u-alice'', ''u-bob'', ''u-carol''] else [caller])"
    by (simp add: report_member_ids_def demo_query_def seeded_tables linked_def map_flag_def role_defs)
  finally show thesis
    using that [OF r(1)] by (auto simp: seeded_tables)
qed

text \<open>A user with accounts on both platforms, and a group of repositories on each.\<close>

definition demo_user :: user where
  "demo_user = \<lparr>user_id = ''u-alice'', user_username = ''alice'', user_display_name = ''Alice Johnson'',
     user_email = ''alice@example.com'', user_avatar_url = [],
     user_platform_usernames = [(PlatformGitHub, ''alice-gh''), (PlatformGitLab, ''alice-gl'')]\<rparr>"

definition demo_groups :: "fetcher_group list" where
  "demo_groups = [
     \<lparr>group_platform = PlatformGitHub, group_token = ''ghp_1'',
       group_repos = map repo_of_row (repos_table tokened)\<rparr>,
     \<lparr>group_platform = PlatformGitLab, group_token = ''glpat'', group_repos = []\<rparr>]"

end
