(* ===== verification/Admin_Properties.thy ===== *)
theory Admin_Properties
  imports Instances
begin

text \<open>
  The properties of the single components behind administration: each handler refines its operation
  on the abstract organisation, a saved team is found again, the derived role, restoring accounts,
  and the migrations. The lemmas of the components' theories carry the proofs; every property is
  followed by a run of it on the demonstration data.
\<close>

section \<open>Handlers and the organisation\<close>

text \<open>C13. Deleting a team refines the abstract operation: from a sound store the team, its members and
  its leaders are gone, and each of its leaders who leads no other team loses the role
  \<open>TEAM_LEADER\<close>; an unknown team is answered with 404 and nothing changes.\<close>

theorem delete_team_refines:
  assumes "sound_store s" "iteration_ok (iter E)"
    and "run_state (AdminHandler_DeleteTeam E t) s = (r, s')"
  shows "sound_store s' \<and>
    (if t \<in> team_ids s
     then status r = 200 \<and> org_of s' = spec_delete_team t (linked (leaders_table s) t) (org_of s)
     else status r = 404 \<and> s' = s)"
  by (rule DeleteTeam_refines [OF assms])

theorem delete_team_refines_witness:
  "let (r, s') = run_state (AdminHandler_DeleteTeam demo_env ''t-eng'') seeded in
     status r = 200 \<and> org_of s' = spec_delete_team ''t-eng'' [''u-carol''] (org_of seeded)"
  using delete_team_refines [OF sound_seeded _ surjective_pairing, of demo_env "''t-eng''"]
  by (simp add: case_prod_unfold Let_def team_ids_def seeded_tables linked_def)

text \<open>C14. Creating a team refines the abstract operation, when the team's random identifier is new: the
  team has the given leader, who becomes a member and gets the role; a missing name or leader, or
  a leader who is no user, is answered with 400 and nothing changes.\<close>

theorem create_team_refines:
  assumes "sound_store s" "iteration_ok (iter E)" "''t-'' @ take 8 uuid \<notin> team_ids s"
    and "run_state (AdminHandler_CreateTeam E uuid (Some req)) s = (r, s')"
  shows "sound_store s' \<and>
    (if ct_name req \<noteq> [] \<and> ct_leader_id req \<noteq> [] \<and> ct_leader_id req \<in> user_ids s
     then status r = 201 \<and> org_of s' = spec_create_team (''t-'' @ take 8 uuid) (ct_leader_id req) (org_of s)
     else status r = 400 \<and> s' = s)"
  by (rule CreateTeam_refines [OF assms])

theorem create_team_refines_witness:
  "let (r, s') = run_state (AdminHandler_CreateTeam demo_env ''0a1b2c3d-4e5f''
      (Some \<lparr>ct_name = ''Platform'', ct_leader_id = ''u-bob''\<rparr>)) seeded in
     status r = 201 \<and> org_of s' = spec_create_team ''t-0a1b2c3d'' ''u-bob'' (org_of seeded)"
  using create_team_refines [OF sound_seeded _ _ surjective_pairing, of demo_env "''0a1b2c3d-4e5f''"
      "\<lparr>ct_name = ''Platform'', ct_leader_id = ''u-bob''\<rparr>"]
  by (simp add: case_prod_unfold Let_def team_ids_def user_ids_def seeded_tables)

text \<open>C15. Making a user a leader refines the abstract operation, and is answered with 200 only for a
  member of the team; any other answer leaves the store as it was.\<close>

theorem add_leader_refines:
  assumes "sound_store s" "iteration_ok (iter E)"
    and "run_state (AdminHandler_AddLeader E t (Some u)) s = (r, s')"
  shows "sound_store s' \<and>
    (if status r = 200 then (t, u) \<in> set (members_table s) \<and> org_of s' = spec_add_leader t u (org_of s)
     else s' = s)"
  by (rule AddLeader_refines [OF assms])

theorem add_leader_refines_witness:
  "let (r, s') = run_state (AdminHandler_AddLeader demo_env ''t-eng'' (Some ''u-admin'')) seeded in
     status r \<noteq> 200 \<and> s' = seeded"
  using add_leader_refines [OF sound_seeded _ surjective_pairing, of demo_env "''t-eng''" "''u-admin''"]
  by (simp add: case_prod_unfold Let_def seeded_tables split: if_splits)

text \<open>C16. Taking the lead from a user refines the abstract operation, and is answered with 200 only when
  the team keeps another leader; any other answer leaves the store as it was.\<close>

theorem remove_leader_refines:
  assumes "sound_store s" "iteration_ok (iter E)"
    and "run_state (AdminHandler_RemoveLeader E t u) s = (r, s')"
  shows "sound_store s' \<and>
    (if status r = 200
     then (\<exists>v. v \<noteq> u \<and> (t, v) \<in> set (leaders_table s)) \<and> org_of s' = spec_remove_leader t u (org_of s)
     else s' = s)"
  by (rule RemoveLeader_refines [OF assms])

theorem remove_leader_refines_witness:
  "let (r, s') = run_state (AdminHandler_RemoveLeader demo_env ''t-eng'' ''u-carol'') seeded in
     status r \<noteq> 200 \<and> s' = seeded"
  using remove_leader_refines [OF sound_seeded _ surjective_pairing, of demo_env "''t-eng''" "''u-carol''"]
  by (simp add: case_prod_unfold Let_def seeded_tables split: if_splits)

text \<open>C17. Removing a member refines the abstract operation, and is answered with 200 only for one who
  does not lead the team; any other answer leaves the store as it was.\<close>

theorem remove_member_refines:
  assumes "sound_store s" "run_state (AdminHandler_RemoveMember E t u) s = (r, s')"
  shows "sound_store s' \<and>
    (if status r = 200 then (t, u) \<notin> set (leaders_table s) \<and> org_of s' = spec_remove_member t u (org_of s)
     else s' = s)"
  by (rule RemoveMember_refines [OF assms])

theorem remove_member_refines_witness:
  "let (r, s') = run_state (AdminHandler_RemoveMember demo_env ''t-eng'' ''u-carol'') seeded in
     status r \<noteq> 200 \<and> s' = seeded"
  using remove_member_refines [OF sound_seeded surjective_pairing, of demo_env "''t-eng''" "''u-carol''"]
  by (simp add: case_prod_unfold Let_def seeded_tables split: if_splits)

text \<open>C18. Deleting a user refines the abstract operation: the only leader of a team is kept (400,
  nothing changes), and every other user is gone with memberships, leads and account. Leaders must
  be members, as in every reachable store, for the guard looks at the user's own teams only.\<close>

theorem delete_user_refines:
  assumes "sound_store s" "org_ok (org_of s)" "run_state (AdminHandler_DeleteUser u) s = (r, s')"
  shows "sound_store s' \<and>
    (if \<exists>t. (t, u) \<in> set (leaders_table s) \<and> (\<forall>v. (t, v) \<in> set (leaders_table s) \<longrightarrow> v = u)
     then status r = 400 \<and> s' = s
     else status r = 200 \<and> org_of s' = spec_delete_user u (org_of s))"
  by (rule DeleteUser_refines [OF assms])

theorem delete_user_refines_witness:
  "let (r, s') = run_state (AdminHandler_DeleteUser ''u-carol'') seeded in
     status r = 400 \<and> s' = seeded"
  using delete_user_refines [OF sound_seeded org_ok_seeded surjective_pairing, of "''u-carol''"]
  by (simp add: case_prod_unfold Let_def seeded_tables split: if_splits)



section \<open>Teams, roles and restored accounts\<close>

text \<open>A team that was saved is found again: its name, leaders and members are those it was saved
  with, in the same order; its repositories are those that the store had for it, since saving does
  not write them.\<close>

lemma team_saved_found:
  assumes "healthy s" "schema_ok s" "set (team_leader_ids t) \<subseteq> user_ids s" "distinct (team_leader_ids t)"
    and "set (team_member_ids t) \<subseteq> user_ids s" "distinct (team_member_ids t)"
  shows "\<exists>s'. run_state (TeamRepo_Save t) s = (Inr (), s') \<and>
    run_state (TeamRepo_FindByID (team_id t)) s' =
      (Inr (t\<lparr>team_repository_ids := linked (team_repos_table s) (team_id t)\<rparr>), s')"
  using run_TeamRepo_Save [OF assms(1,3-6)] find_saved_team [OF assms(1,2)] by blast

lemma team_saved_found_example:
  "\<exists>s'. run_state (TeamRepo_Save \<lparr>team_id = ''t-eng'', team_name = ''Core'', team_leader_ids = [''u-bob''],
      team_member_ids = [''u-bob'', ''u-alice''], team_repository_ids = []\<rparr>) seeded = (Inr (), s') \<and>
    run_state (TeamRepo_FindByID ''t-eng'') s' = (Inr \<lparr>team_id = ''t-eng'', team_name = ''Core'',
      team_leader_ids = [''u-bob''], team_member_ids = [''u-bob'', ''u-alice''],
      team_repository_ids = [''r-ct'', ''r-api'']\<rparr>, s')"
  using team_saved_found [OF healthy_seeded schema_seeded, of "\<lparr>team_id = ''t-eng'', team_name = ''Core'',
      team_leader_ids = [''u-bob''], team_member_ids = [''u-bob'', ''u-alice''], team_repository_ids = []\<rparr>"]
  by (simp add: user_ids_def seeded_tables linked_def)

text \<open>C21. The last role stays: taking the role \<open>TEAM_LEADER\<close> from an account that has no other role
  fails, since no role at all is stored as \<open>NULL\<close>; the error is not looked at and the account keeps
  the role.\<close>

theorem last_role_stays:
  assumes "healthy s" "distinct (map ar_user_id (accounts_table s))"
    and "a \<in> set (accounts_table s)" "ar_roles a = [RoleTeamLeader]"
  shows "run_state (removeLeaderRoleIfOrphaned E (ar_user_id a)) s = ((), s)"
proof -
  let ?as = "order_by (collate E) ar_username (accounts_table s)"
  have "List.find (\<lambda>x. ar_user_id x = ar_user_id a \<and> RoleTeamLeader \<in> set (ar_roles x)) ?as = Some a"
    using assms(4) iffD2 [OF find_key_Some [OF assms(2)], of a "ar_user_id a"] assms(3)
    by (simp add: find_unique_conj find_order_by assms(2))
  then have "List.find (\<lambda>x. account_user_id x = ar_user_id a \<and> map_flag (account_roles x) RoleTeamLeader)
      (map scanAccount ?as) = Some (scanAccount a)"
    by (simp add: find_map comp_def)
  moreover have "map_delete RoleTeamLeader (account_roles (scanAccount a)) = []"
    using assms(4) by (simp add: scanAccount_def stringsToRoles_def map_delete_def)
  ultimately show ?thesis
    using assms(1) by (simp add: removeLeaderRoleIfOrphaned_def run_rules save_without_roles)
qed

text \<open>Carol without her other role.\<close>

theorem last_role_stays_witness:
  "let s = seeded\<lparr>accounts_table := [carol_row\<lparr>ar_roles := [RoleTeamLeader]\<rparr>], leaders_table := []\<rparr> in
     run_state (removeLeaderRoleIfOrphaned demo_env ''u-carol'') s = ((), s)"
  using last_role_stays [of "seeded\<lparr>accounts_table := [carol_row\<lparr>ar_roles := [RoleTeamLeader]\<rparr>], leaders_table := []\<rparr>"
      "carol_row\<lparr>ar_roles := [RoleTeamLeader]\<rparr>" demo_env]
  by (simp add: healthy_def seeded_tables carol_facts)

text \<open>A backup in which some account has no role cannot be restored: whatever the store and the
  database, the request is answered with 500 and no table changes.\<close>

theorem restore_refuses_no_roles:
  assumes "a \<in> set (backup_accounts b)" "account_roles a = []"
    and "run_state (BackupHandler_Restore E (Some b)) s = (r, s')"
  shows "status r = 500 \<and> tables s' = tables s"
proof (cases "run_state (BackupRepo_Restore E b) s")
  case (Pair res s1)
  with restore_needs_roles [OF assms(1,2), of E s] obtain e where "res = Inl e"
    by (cases res) auto
  with Pair assms(3) restore_atomic [of E b s e s1] show ?thesis
    by (auto simp: BackupHandler_Restore_def BackupService_Restore_def)
qed

theorem restore_refuses_no_roles_witness:
  "let b = (backup_of demo_env seeded)\<lparr>backup_accounts := [(scanAccount carol_row)\<lparr>account_roles := []\<rparr>]\<rparr>;
     (r, s') = run_state (BackupHandler_Restore demo_env (Some b)) seeded
   in status r = 500 \<and> tables s' = tables seeded"
  using restore_refuses_no_roles [OF _ _ surjective_pairing, of "(scanAccount carol_row)\<lparr>account_roles := []\<rparr>"
      "(backup_of demo_env seeded)\<lparr>backup_accounts := [(scanAccount carol_row)\<lparr>account_roles := []\<rparr>]\<rparr>" demo_env seeded]
  by (simp add: case_prod_unfold Let_def)

section \<open>Migrations\<close>

text \<open>C23. Migrations resume: a start that failed somewhere, before or within a migration, and one
  undisturbed start after it leave the data and the log that a single undisturbed start would have
  left, and succeed as it would have.\<close>

theorem migrations_after_failure:
  assumes "ReadDir FS dir = Inr entries" "distinct (migration_files entries)"
    and "run_state (RunMigrations FS script dir) (s\<lparr>mig_faults := []\<rparr>) = (Inr (), s2)"
    and "run_state (RunMigrations FS script dir) (s\<lparr>mig_faults := fs\<rparr>) = (r, s1)"
  shows "run_state (RunMigrations FS script dir) (s1\<lparr>mig_faults := []\<rparr>) = (Inr (), s2)"
  by (rule migrations_resume [OF assms])

text \<open>The connection is lost in the second migration of the demonstration data.\<close>

theorem migrations_after_failure_witness:
  "run_state (RunMigrations demo_files demo_script ''migrations'') (snd (run_state
      (RunMigrations demo_files demo_script ''migrations'')
      \<lparr>mig_data = empty_store, mig_log = None, mig_faults = replicate 8 Proceed @ [Fail ''connection reset'']\<rparr>)
        \<lparr>mig_faults := []\<rparr>)
    = (Inr (), \<lparr>mig_data = seeded, mig_log = Some migration_names, mig_faults = []\<rparr>)"
proof -
  let ?s = "\<lparr>mig_data = empty_store, mig_log = None, mig_faults = []\<rparr>"
  have dir: "ReadDir demo_files dir = Inr (map (\<lambda>f. \<lparr>entry_name = f, entry_is_dir = False\<rparr>)
       (rev migration_names @ [''README.md'']))" for dir
    by (simp add: demo_files_def)
  have "run_state (RunMigrations demo_files demo_script ''migrations'') (?s\<lparr>mig_faults := []\<rparr>) =
      (Inr (), \<lparr>mig_data = seeded, mig_log = Some migration_names, mig_faults = []\<rparr>)"
    using demo_migrations [of "''migrations''"] by simp
  from migrations_after_failure [OF dir _ this surjective_pairing,
      of "replicate 8 Proceed @ [Fail ''connection reset'']"]
  show ?thesis
    unfolding demo_migration_files by (simp add: migration_names_def)
qed

end
