(* ===== verification/Event_Channel.thy ===== *)
theory Event_Channel
  imports Streaming
begin

text \<open>
  The channel between the report service and the handler (\<open>presentation/report_handler.go\<close>): the
  service runs in a goroutine of its own and sends its events into a channel of 16 places; the
  handler receives them one by one and writes each to the response, until the channel is closed
  and empty. \<open>chan_step\<close> interleaves the two. Shown: what was sent is what is written, in order;
  the channel never overflows; every run ends; and nothing deadlocks, so that the events written
  are those of \<open>GenerateReport\<close>, unless a panic in the service takes the process down, which
  loses at most the 16 events of the channel and the one in the handler's hand.
\<close>

section \<open>Producer and consumer\<close>

record 'e chan_state =
  to_send :: "'e list"
  buffer :: "'e list"
  in_hand :: "'e list"
  written :: "'e list"
  chan_closed :: bool
  handler_done :: bool
  process_down :: bool

definition chan_capacity :: nat where
  "chan_capacity = 16"

text \<open>\<open>e\<close> is how the service ends after its last event; a receive takes the event out of the channel,
  a write follows.\<close>

inductive chan_step :: "ending \<Rightarrow> 'e chan_state \<Rightarrow> 'e chan_state \<Rightarrow> bool" for e :: ending where
  send: "\<lbrakk>\<not> process_down c; to_send c = x # xs; length (buffer c) < chan_capacity\<rbrakk>
    \<Longrightarrow> chan_step e c (c\<lparr>to_send := xs, buffer := buffer c @ [x]\<rparr>)"
| close: "\<lbrakk>\<not> process_down c; to_send c = []; e = Closed; \<not> chan_closed c\<rbrakk>
    \<Longrightarrow> chan_step e c (c\<lparr>chan_closed := True\<rparr>)"
| panic: "\<lbrakk>\<not> process_down c; to_send c = []; e = Crashed\<rbrakk>
    \<Longrightarrow> chan_step e c (c\<lparr>process_down := True\<rparr>)"
| receive: "\<lbrakk>\<not> process_down c; \<not> handler_done c; in_hand c = []; buffer c = x # xs\<rbrakk>
    \<Longrightarrow> chan_step e c (c\<lparr>buffer := xs, in_hand := [x]\<rparr>)"
| deliver: "\<lbrakk>\<not> process_down c; in_hand c = [x]\<rbrakk>
    \<Longrightarrow> chan_step e c (c\<lparr>in_hand := [], written := written c @ [x]\<rparr>)"
| leave: "\<lbrakk>\<not> process_down c; \<not> handler_done c; in_hand c = []; buffer c = []; chan_closed c\<rbrakk>
    \<Longrightarrow> chan_step e c (c\<lparr>handler_done := True\<rparr>)"

inductive_cases chan_step_cases: "chan_step e c c'"

lemmas chan_stepE = chan_step_cases [consumes 1, case_names send close panic receive deliver leave]

definition chan_start :: "'e list \<Rightarrow> 'e chan_state" where
  "chan_start events = \<lparr>to_send = events, buffer = [], in_hand = [], written = [],
     chan_closed = False, handler_done = False, process_down = False\<rparr>"

section \<open>Every run ends\<close>

definition chan_work :: "'e chan_state \<Rightarrow> nat" where
  "chan_work c = 3 * length (to_send c) + 2 * length (buffer c) + length (in_hand c) +
     (if chan_closed c then 0 else 1) + (if handler_done c then 0 else 1) + (if process_down c then 0 else 1)"

lemma chan_step_work: "chan_step e c c' \<Longrightarrow> chan_work c' < chan_work c"
  by (cases rule: chan_stepE) (auto simp: chan_work_def)

section \<open>Invariant\<close>

definition chan_ok :: "ending \<Rightarrow> 'e list \<Rightarrow> 'e chan_state \<Rightarrow> bool" where
  "chan_ok e events c \<longleftrightarrow> written c @ in_hand c @ buffer c @ to_send c = events \<and>
     length (buffer c) \<le> chan_capacity \<and> length (in_hand c) \<le> 1 \<and>
     (chan_closed c \<longrightarrow> e = Closed \<and> to_send c = []) \<and>
     (handler_done c \<longrightarrow> chan_closed c \<and> buffer c = [] \<and> in_hand c = []) \<and>
     (process_down c \<longrightarrow> e = Crashed \<and> to_send c = [])"

lemma chan_ok_start: "chan_ok e events (chan_start events)"
  by (simp add: chan_ok_def chan_start_def)

lemma chan_ok_step: "chan_step e c c' \<Longrightarrow> chan_ok e events c \<Longrightarrow> chan_ok e events c'"
  by (cases rule: chan_stepE) (auto simp: chan_ok_def chan_capacity_def)

lemma chan_okD:
  assumes "chan_ok e events c"
  shows "written c @ in_hand c @ buffer c @ to_send c = events" "length (buffer c) \<le> chan_capacity"
    "length (in_hand c) \<le> 1" "handler_done c \<Longrightarrow> chan_closed c \<and> buffer c = [] \<and> in_hand c = []"
    "chan_closed c \<Longrightarrow> e = Closed" "process_down c \<Longrightarrow> e = Crashed \<and> to_send c = []"
  using assms by (simp_all add: chan_ok_def)

lemma chan_ok_reachable:
  "(chan_step e)\<^sup>*\<^sup>* (chan_start events) c \<Longrightarrow> chan_ok e events c"
  by (induction rule: rtranclp_induct) (auto intro: chan_ok_start chan_ok_step)

section \<open>Where a run stops\<close>

definition chan_stuck :: "ending \<Rightarrow> 'e chan_state \<Rightarrow> bool" where
  "chan_stuck e c \<longleftrightarrow> (\<nexists>c'. chan_step e c c')"

lemma stuck_emptied:
  assumes "chan_stuck e c" "chan_ok e events c" "\<not> process_down c"
  shows "to_send c = [] \<and> buffer c = [] \<and> in_hand c = []"
proof -
  have no: "\<not> chan_step e c c'" for c'
    using assms(1) by (simp add: chan_stuck_def)
  have hand: "in_hand c = []"
  proof (rule ccontr)
    assume "in_hand c \<noteq> []"
    then obtain x where "in_hand c = [x]"
      using chan_okD(3) [OF assms(2)] by (cases "in_hand c") simp_all
    with no chan_step.deliver [of c x e] assms(3) show False by simp
  qed
  have buf: "buffer c = []"
  proof (rule ccontr)
    assume "buffer c \<noteq> []"
    then obtain x xs where "buffer c = x # xs" by (cases "buffer c") simp_all
    moreover from this have "\<not> handler_done c" using chan_okD(4) [OF assms(2)] by auto
    ultimately show False
      using no chan_step.receive [of c x xs e] assms(3) hand by simp
  qed
  have "to_send c = []"
  proof (rule ccontr)
    assume "to_send c \<noteq> []"
    then obtain x xs where "to_send c = x # xs" by (cases "to_send c") simp_all
    then show False
      using no chan_step.send [of c x xs e] assms(3) buf by (simp add: chan_capacity_def)
  qed
  with hand buf show ?thesis by simp
qed

lemma stuck_delivered:
  assumes "(chan_step e)\<^sup>*\<^sup>* (chan_start events) c" "chan_stuck e c"
  shows "(e = Closed \<longrightarrow> handler_done c) \<and> (e \<noteq> Crashed \<longrightarrow> written c = events) \<and>
    (e = Hangs \<longrightarrow> \<not> handler_done c)"
proof -
  have ok: "chan_ok e events c"
    using assms(1) by (rule chan_ok_reachable)
  have up: "\<not> process_down c" if "e \<noteq> Crashed" using chan_okD(6) [OF ok] that by blast
  have empty: "to_send c = [] \<and> buffer c = [] \<and> in_hand c = []" if "e \<noteq> Crashed"
    using stuck_emptied [OF assms(2) ok up [OF that]] .
  have "handler_done c" if "e = Closed"
  proof (rule ccontr)
    assume "\<not> handler_done c"
    with assms(2) up empty that chan_step.close [of c e] chan_step.leave [of c e] show False
      unfolding chan_stuck_def by blast
  qed
  moreover have "written c = events" if "e \<noteq> Crashed"
    using chan_okD(1) [OF ok] empty [OF that] by simp
  moreover have "\<not> handler_done c" if "e = Hangs"
    using chan_okD(4,5) [OF ok] that by blast
  ultimately show ?thesis by blast
qed

lemma crash_loses:
  assumes "(chan_step e)\<^sup>*\<^sup>* (chan_start events) c" "chan_stuck e c"
  shows "length events \<le> length (written c) + chan_capacity + 1 \<and> take (length (written c)) events = written c"
proof -
  have ok: "chan_ok e events c"
    using assms(1) by (rule chan_ok_reachable)
  have sent: "to_send c = []"
    using stuck_emptied [OF assms(2) ok] chan_okD(6) [OF ok] by blast
  have events: "written c @ in_hand c @ buffer c = events"
    using chan_okD(1) [OF ok] sent by simp
  show ?thesis
    unfolding events [symmetric] using chan_okD(2,3) [OF ok] by simp
qed

end
