(* ===== verification/Frontend.thy ===== *)
theory Frontend
  imports Report_Facts
begin

text \<open>
  The frontend's own computations (\<open>presentation/frontend/app.js\<close>) on what it sends and shows: the
  periods offered for a report, as the two dates that go into the request; the count of a type;
  the escaping of texts for the page; the colour of a user. The loop that reads the event stream is
  in \<open>Streaming\<close>. A JavaScript date is its milliseconds since 1970; the time zone of the browser is
  two functions, from an instant to local time and back.
\<close>

section \<open>Dates\<close>

definition msPerDay :: int where
  "msPerDay = 86400000"

record js_zone =
  LocalTime :: "int \<Rightarrow> int"
  UTC :: "int \<Rightarrow> int"

text \<open>\<open>MakeDay\<close> and \<open>MakeDate\<close> of the language: months count from 0, and a month or a day out of its
  range goes on into the neighbouring ones.\<close>

definition js_day :: "int \<Rightarrow> int" where
  "js_day t = t div msPerDay"

definition js_date :: "int \<Rightarrow> date" where
  "js_date t = date_of_day (js_day t + unix_epoch_day)"

definition MakeDay :: "int \<Rightarrow> int \<Rightarrow> int \<Rightarrow> int" where
  "MakeDay y m d =
     day_of_date \<lparr>year = y + m div 12, month = nat (m mod 12) + 1, day = 1\<rparr> - unix_epoch_day + d - 1"

definition MakeDate :: "int \<Rightarrow> int \<Rightarrow> int" where
  "MakeDate d time = d * msPerDay + time"

definition getFullYear :: "js_zone \<Rightarrow> int \<Rightarrow> int" where
  "getFullYear z t = year (js_date (LocalTime z t))"

definition getMonth :: "js_zone \<Rightarrow> int \<Rightarrow> int" where
  "getMonth z t = int (month (js_date (LocalTime z t))) - 1"

definition getDate :: "js_zone \<Rightarrow> int \<Rightarrow> int" where
  "getDate z t = day (js_date (LocalTime z t))"

text \<open>\<open>new Date(y, m, d)\<close>, which takes the years 0 to 99 as those of the 20th century.\<close>

definition new_Date :: "js_zone \<Rightarrow> int \<Rightarrow> int \<Rightarrow> int \<Rightarrow> int" where
  "new_Date z y m d =
     (let yr = (if 0 \<le> y \<and> y \<le> 99 then 1900 + y else y) in UTC z (MakeDate (MakeDay yr m d) 0))"

definition setDate :: "js_zone \<Rightarrow> int \<Rightarrow> int \<Rightarrow> int" where
  "setDate z t dt =
     UTC z (MakeDate (MakeDay (getFullYear z t) (getMonth z t) dt) (LocalTime z t mod msPerDay))"

text \<open>\<open>toISOString().slice(0, 10)\<close>: the date in UTC; a year that has not four digits is written with a
  sign and six.\<close>

definition js_year :: "int \<Rightarrow> string" where
  "js_year y = (if 0 \<le> y \<and> y \<le> 9999 then appendInt y 4
     else (if y < 0 then ''-'' else ''+'') @ appendInt \<bar>y\<bar> 6)"

definition iso_slice :: "int \<Rightarrow> string" where
  "iso_slice t = (let c = js_date t
     in take 10 (js_year (year c) @ ''-'' @ appendInt (int (month c)) 2 @ ''-'' @ appendInt (day c) 2))"

section \<open>The periods of a report\<close>

definition startOfQuarter :: "js_zone \<Rightarrow> int \<Rightarrow> int" where
  "startOfQuarter z d = (let q = getMonth z d div 3 in new_Date z (getFullYear z d) (q * 3) 1)"

definition resolvePeriod :: "js_zone \<Rightarrow> int \<Rightarrow> string \<Rightarrow> string \<times> string" where
  "resolvePeriod z today period =
     (if period = ''last7'' then
        (let s = setDate z today (getDate z today - 6) in (iso_slice s, iso_slice today))
      else if period = ''last30'' then
        (let s = setDate z today (getDate z today - 29) in (iso_slice s, iso_slice today))
      else if period = ''currentQuarter'' then (iso_slice (startOfQuarter z today), iso_slice today)
      else if period = ''lastQuarter'' then
        (let sq = startOfQuarter z today; e = setDate z sq (getDate z sq - 1)
         in (iso_slice (startOfQuarter z e), iso_slice e))
      else if period = ''currentYear'' then
        (FormatInt (getFullYear z today) @ ''-01-01'', iso_slice today)
      else if period = ''lastYear'' then
        (let y = getFullYear z today - 1 in (FormatInt y @ ''-01-01'', FormatInt y @ ''-12-31''))
      else (iso_slice today, iso_slice today))"

text \<open>A zone with one offset, in milliseconds east of Greenwich.\<close>

definition fixed_zone :: "int \<Rightarrow> js_zone" where
  "fixed_zone off = \<lparr>LocalTime = (\<lambda>t. t + off), UTC = (\<lambda>t. t - off)\<rparr>"

text \<open>The text of a day, and the first day of the quarter of a day, days counted from 1970.\<close>

definition day_text :: "int \<Rightarrow> string" where
  "day_text d = iso_slice (d * msPerDay)"

definition quarter_first :: "int \<Rightarrow> int" where
  "quarter_first d =
     (let c = date_of_day (d + unix_epoch_day)
      in day_of_date \<lparr>year = year c, month = 3 * ((month c - 1) div 3) + 1, day = 1\<rparr> - unix_epoch_day)"

lemma iso_slice_day: "iso_slice t = day_text (js_day t)"
  by (simp add: day_text_def iso_slice_def js_date_def js_day_def msPerDay_def)

lemma msPerDay_pos: "0 < msPerDay"
  by (simp add: msPerDay_def)

lemma js_day_shift:
  assumes "\<bar>off\<bar> < msPerDay"
  shows "js_day (d * msPerDay - off) = d - (if 0 < off then 1 else 0)"
proof (cases "0 < off")
  case True
  have split: "d * msPerDay - off = (msPerDay - off) + (d - 1) * msPerDay" by (simp add: left_diff_distrib)
  have "js_day (d * msPerDay - off) = d - 1 + (msPerDay - off) div msPerDay"
    unfolding js_day_def split using msPerDay_pos by (intro div_mult_self1) simp
  with True assms show ?thesis by (simp add: div_pos_pos_trivial)
next
  case False
  have "js_day (d * msPerDay - off) = d + (- off) div msPerDay"
    using msPerDay_pos div_mult_self1 [of msPerDay "- off" d] by (simp add: js_day_def add.commute)
  with False assms show ?thesis by (simp add: div_pos_pos_trivial)
qed

lemma js_day_plain: "js_day (d * msPerDay + r mod msPerDay) = d" "js_day (d * msPerDay) = d"
  "(d * msPerDay) mod msPerDay = 0" "js_day t * msPerDay + t mod msPerDay = t"
  "js_day (t - n * msPerDay) = js_day t - n"
  by (simp_all add: js_day_def msPerDay_def)

text \<open>Going back by days within a date.\<close>

lemma MakeDay_back:
  "MakeDay (year (js_date t)) (int (month (js_date t)) - 1) (day (js_date t) - n) = js_day t - n"
proof -
  let ?c = "js_date t"
  have "valid_date ?c" "day_of_date ?c = js_day t + unix_epoch_day"
    using date_of_day_correct by (simp_all add: js_date_def)
  then show ?thesis
    by (simp add: MakeDay_def valid_date_def day_of_date_def nat_diff_distrib)
qed

lemma setDate_back:
  "setDate (fixed_zone off) t (getDate (fixed_zone off) t - n) = t - n * msPerDay"
proof -
  have "setDate (fixed_zone off) t (getDate (fixed_zone off) t - n) =
      (js_day (t + off) - n) * msPerDay + (t + off) mod msPerDay - off"
    by (simp add: setDate_def getDate_def getFullYear_def getMonth_def fixed_zone_def MakeDate_def MakeDay_back)
  also have "\<dots> = t - n * msPerDay"
    using js_day_plain(4) [of "t + off"] by (simp add: left_diff_distrib)
  finally show ?thesis .
qed

lemma MakeDay_quarter:
  assumes "1 \<le> m" "m \<le> 12"
  shows "MakeDay y ((int m - 1) div 3 * 3) 1 =
    day_of_date \<lparr>year = y, month = 3 * ((m - 1) div 3) + 1, day = 1\<rparr> - unix_epoch_day"
proof -
  define k where "k = (m - 1) div 3"
  have "(int m - 1) div 3 = int k"
    using assms by (simp add: k_def of_nat_diff zdiv_int)
  moreover have "k \<le> 3" using assms by (simp add: k_def)
  then have "int k * 3 div 12 = 0" "int k * 3 mod 12 = int (3 * k)" by auto
  ultimately show ?thesis
    by (simp only: MakeDay_def k_def [symmetric] nat_int) simp
qed

lemma startOfQuarter_day:
  assumes "100 \<le> getFullYear (fixed_zone off) t"
  shows "startOfQuarter (fixed_zone off) t = quarter_first (js_day (t + off)) * msPerDay - off"
proof -
  let ?c = "date_of_day (js_day (t + off) + unix_epoch_day)"
  have "1 \<le> month ?c" "month ?c \<le> 12"
    using date_of_day_correct by (simp_all add: valid_date_def)
  from MakeDay_quarter [OF this] assms show ?thesis
    by (simp add: startOfQuarter_def new_Date_def getMonth_def getFullYear_def fixed_zone_def MakeDate_def
        quarter_first_def js_date_def Let_def)
qed

text \<open>C37. The periods that the frontend offers, in a browser whose zone is \<open>off\<close> milliseconds east of
  Greenwich: a period of the last days ends with the current day in UTC; a quarter is that of the
  local day, but east of Greenwich its first day and the last day of the quarter before come out one
  day early, because the local midnight that stands for them falls on the day before in UTC.\<close>

theorem report_periods:
  assumes "\<bar>off\<bar> < msPerDay" "100 \<le> getFullYear (fixed_zone off) t"
    and "100 \<le> year (date_of_day (quarter_first (js_day (t + off)) - 1 + unix_epoch_day))"
  shows "let today = js_day t; q = quarter_first (js_day (t + off)); early = (if 0 < off then 1 else 0);
      period = resolvePeriod (fixed_zone off) t in
    period ''last7'' = (day_text (today - 6), day_text today) \<and>
    period ''last30'' = (day_text (today - 29), day_text today) \<and>
    period ''currentQuarter'' = (day_text (q - early), day_text today) \<and>
    period ''lastQuarter'' = (day_text (quarter_first (q - 1) - early), day_text (q - 1 - early))"
proof -
  let ?z = "fixed_zone off" and ?q = "quarter_first (js_day (t + off))"
  have sq: "startOfQuarter ?z t = ?q * msPerDay - off"
    using startOfQuarter_day [OF assms(2)] .
  have e: "setDate ?z (?q * msPerDay - off) (getDate ?z (?q * msPerDay - off) - 1) = (?q - 1) * msPerDay - off"
    by (simp add: setDate_back left_diff_distrib)
  have "js_day ((?q - 1) * msPerDay - off + off) = ?q - 1" by (simp add: js_day_plain)
  then have "startOfQuarter ?z ((?q - 1) * msPerDay - off) = quarter_first (?q - 1) * msPerDay - off"
    using assms(3) startOfQuarter_day [of off "(?q - 1) * msPerDay - off"]
    by (simp add: getFullYear_def fixed_zone_def js_date_def)
  then show ?thesis
    by (simp add: resolvePeriod_def Let_def sq e iso_slice_day js_day_shift [OF assms(1)] setDate_back [of off t] js_day_plain)
qed

text \<open>15 May 2024 at noon, an hour east of Greenwich: the last quarter lacks 31 March and has the last
  day of the year before.\<close>

theorem report_periods_witness:
  "resolvePeriod (fixed_zone 3600000) 1715774400000 ''lastQuarter'' = (''2023-12-31'', ''2024-03-30'')"
proof -
  have "\<bar>3600000\<bar> < msPerDay" "100 \<le> getFullYear (fixed_zone 3600000) 1715774400000"
    "100 \<le> year (date_of_day (quarter_first (js_day (1715774400000 + 3600000)) - 1 + unix_epoch_day))"
    by code_simp+
  from report_periods [OF this]
  have "resolvePeriod (fixed_zone 3600000) 1715774400000 ''lastQuarter'' =
    (day_text (quarter_first (quarter_first (js_day (1715774400000 + 3600000)) - 1) - 1),
     day_text (quarter_first (js_day (1715774400000 + 3600000)) - 1 - 1))"
    by (simp add: Let_def)
  also have "\<dots> = (''2023-12-31'', ''2024-03-30'')" by code_simp
  finally show ?thesis .
qed

section \<open>Counts\<close>

text \<open>\<open>getCountByType\<close> finds the first entry of a type in the counts of a report; \<open>summary_totals\<close> is the
  loop of \<open>buildSummaryCard\<close>: activities, commits, merged requests, issues and reviews.\<close>

definition getCountByType :: "user_report_dto \<Rightarrow> string \<Rightarrow> nat" where
  "getCountByType report t =
     (case find (\<lambda>c. ac_type c = t) (ur_dto_counts report) of None \<Rightarrow> 0 | Some c \<Rightarrow> ac_count c)"

fun summary_totals ::
    "user_report_dto list \<Rightarrow> nat \<times> nat \<times> nat \<times> nat \<times> nat \<Rightarrow> nat \<times> nat \<times> nat \<times> nat \<times> nat" where
  "summary_totals [] totals = totals"
| "summary_totals (r # rs) (activities, commits, merged, issues, reviews) =
     summary_totals rs (activities + length (ur_dto_activities r), commits + getCountByType r ''COMMIT'',
       merged + getCountByType r ''MERGED_PR'', issues + getCountByType r ''ISSUE'',
       reviews + getCountByType r ''PR_REVIEW'')"

lemma find_unique:
  assumes "distinct (map f xs)" "x \<in> set xs" "f x = k"
  shows "find (\<lambda>y. f y = k) xs = Some x"
  using assms by (induction xs) auto

lemma type_names:
  "type_name ActivityTypeCommit = ''COMMIT''" "type_name ActivityTypeMergedPullRequest = ''MERGED_PR''"
  "type_name ActivityTypeIssue = ''ISSUE''" "type_name ActivityTypePullRequestReview = ''PR_REVIEW''"
  by (simp_all add: ActivityTypeCommit_def ActivityTypeMergedPullRequest_def ActivityTypeIssue_def
      ActivityTypePullRequestReview_def)

lemma GetType_name: "type_name (GetType a) = type_name (GetType b) \<longleftrightarrow> GetType a = GetType b"
  by (cases a; cases b) (simp_all add: ActivityTypeCommit_def ActivityTypeMergedPullRequest_def
      ActivityTypeIssue_def ActivityTypePullRequestReview_def)

text \<open>The counts of a report are shown as the numbers of its activities.\<close>

lemma shown_count:
  assumes it: "iteration_ok it" and counts: "report_counts r = buildActivityCounts it (report_activities r)"
  shows "getCountByType (UserReportToDTO it' r) (type_name (GetType a)) = number_of_type (report_activities r) (GetType a)"
proof -
  let ?as = "report_activities r" and ?cs = "buildActivityCounts it (report_activities r)"
  note correct = buildActivityCounts_correct [OF it, where as = ?as]
  have typed: "\<exists>b\<in>set ?as. count_type c = GetType b" if "c \<in> set ?cs" for c
  proof -
    from correct(2) that have "0 < number_of_type ?as (count_type c)" by metis
    then have "filter (\<lambda>b. GetType b = count_type c) ?as \<noteq> []" by (simp add: number_of_type_def)
    then show ?thesis by (metis (mono_tags) filter_empty_conv)
  qed
  then have names: "type_name (count_type c) = type_name (GetType b) \<longleftrightarrow> count_type c = GetType b"
    if "c \<in> set ?cs" for c b using that GetType_name by metis
  have same: "find (\<lambda>c. ac_type c = type_name (GetType a)) (map count_to_dto cs) =
      map_option count_to_dto (find (\<lambda>c. count_type c = GetType a) cs)" if "set cs \<subseteq> set ?cs" for cs
    using that by (induction cs) (auto simp: count_to_dto_def names)
  show ?thesis
  proof (cases "number_of_type ?as (GetType a) = 0")
    case True
    then have "c \<notin> set ?cs" if "count_type c = GetType a" for c
      using correct(2) [where c = c] that by auto
    then have "find (\<lambda>c. count_type c = GetType a) ?cs = None" by (auto simp: find_None_iff)
    with True same [of ?cs] show ?thesis by (simp add: getCountByType_def UserReportToDTO_def counts)
  next
    case False
    let ?c = "\<lparr>count_type = GetType a, count_count = number_of_type ?as (GetType a)\<rparr>"
    have "?c \<in> set ?cs" using False correct(2) [where c = ?c] by simp
    then have "find (\<lambda>c. count_type c = GetType a) ?cs = Some ?c"
      by (rule find_unique [OF correct(1)]) simp
    with same [of ?cs] show ?thesis
      by (simp add: getCountByType_def UserReportToDTO_def counts count_to_dto_def)
  qed
qed

lemma number_of_types:
  "number_of_type as ActivityTypeCommit + number_of_type as ActivityTypeMergedPullRequest +
    number_of_type as ActivityTypeIssue + number_of_type as ActivityTypePullRequestReview = length as"
proof (induction as)
  case (Cons a as)
  then show ?case
    by (cases a) (simp_all add: number_of_type_def ActivityTypeCommit_def ActivityTypeMergedPullRequest_def
        ActivityTypeIssue_def ActivityTypePullRequestReview_def)
qed (simp add: number_of_type_def)

text \<open>So the four numbers of a report add up to the number of the activities shown with them.\<close>

lemma shown_counts_add_up:
  assumes "iteration_ok it" "report_counts r = buildActivityCounts it (report_activities r)"
  shows "getCountByType (UserReportToDTO it' r) ''COMMIT'' + getCountByType (UserReportToDTO it' r) ''MERGED_PR'' +
    getCountByType (UserReportToDTO it' r) ''ISSUE'' + getCountByType (UserReportToDTO it' r) ''PR_REVIEW'' =
    length (ur_dto_activities (UserReportToDTO it' r))"
  using shown_count [OF assms, of it' "Commit undefined"] shown_count [OF assms, of it' "MergedPullRequest undefined"]
    shown_count [OF assms, of it' "Issue undefined"] shown_count [OF assms, of it' "PullRequestReview undefined"]
    number_of_types [of "report_activities r"]
  by (simp add: type_names) (simp add: UserReportToDTO_def)

section \<open>Texts on the page\<close>

text \<open>\<open>escapeHtml\<close>: the markup of a text node with this text, in which a quote stands for itself.
  \<open>read_attribute\<close> is what a browser makes of such markup in the quotes of an attribute: the value up
  to the closing quote, and what follows it.\<close>

definition nbsp :: string where
  "nbsp = [CHR 0xC2, CHR 0xA0]"

fun escapeHtml :: "string \<Rightarrow> string" where
  "escapeHtml [] = []"
| "escapeHtml (c # s) =
     (if c = CHR ''&'' then ''&amp;'' @ escapeHtml s
      else if c = CHR ''<'' then ''&lt;'' @ escapeHtml s
      else if c = CHR ''>'' then ''&gt;'' @ escapeHtml s
      else if HasPrefix (c # s) nbsp then ''&nbsp;'' @ escapeHtml (drop 1 s)
      else c # escapeHtml s)"

abbreviation quote :: char where
  "quote \<equiv> CHR 0x22"

fun read_attribute :: "string \<Rightarrow> string \<times> string" where
  "read_attribute [] = ([], [])"
| "read_attribute (c # s) =
     (if c = quote then ([], s)
      else if HasPrefix (c # s) ''&amp;'' then map_prod (Cons (CHR ''&'')) id (read_attribute (drop 4 s))
      else if HasPrefix (c # s) ''&lt;'' then map_prod (Cons (CHR ''<'')) id (read_attribute (drop 3 s))
      else if HasPrefix (c # s) ''&gt;'' then map_prod (Cons (CHR ''>'')) id (read_attribute (drop 3 s))
      else if HasPrefix (c # s) ''&nbsp;'' then map_prod (append nbsp) id (read_attribute (drop 5 s))
      else map_prod (Cons c) id (read_attribute s))"

text \<open>No tag begins in an escaped text, and an attribute is read back as written if it holds no quote.\<close>

lemma escapeHtml_no_tag: "CHR ''<'' \<notin> set (escapeHtml s) \<and> CHR ''>'' \<notin> set (escapeHtml s)"
  by (induction s rule: escapeHtml.induct) auto

lemma attribute_reads_back:
  "quote \<notin> set s \<Longrightarrow> read_attribute (escapeHtml s @ quote # rest) = (s, rest)"
proof (induction s rule: escapeHtml.induct)
  case (2 c s)
  show ?case
  proof (cases "c \<noteq> CHR ''&'' \<and> c \<noteq> CHR ''<'' \<and> c \<noteq> CHR ''>'' \<and> HasPrefix (c # s) nbsp")
    case True
    then have "c = CHR 0xC2" "s = CHR 0xA0 # drop 1 s" by (auto simp: HasPrefix_iff nbsp_def)
    moreover have "quote \<notin> set (drop 1 s)" using 2(6) by (auto dest: in_set_dropD)
    ultimately show ?thesis using 2(4) True by (simp add: nbsp_def map_prod_def)
  next
    case False
    with 2 show ?thesis by (auto simp: map_prod_def)
  qed
qed simp

text \<open>A quote ends the attribute: the escaped text behind it is read as part of the tag.\<close>

lemma attribute_broken:
  assumes "quote \<notin> set s"
  shows "read_attribute (escapeHtml (s @ quote # t) @ quote # rest) = (s, escapeHtml t @ quote # rest)"
proof -
  have "escapeHtml (s @ quote # t) = escapeHtml s @ quote # escapeHtml t"
  proof (induction s rule: escapeHtml.induct)
    case (2 c s)
    have "HasPrefix (c # s @ quote # t) nbsp \<longleftrightarrow> HasPrefix (c # s) nbsp"
      by (cases s) (auto simp: nbsp_def)
    moreover have "drop 1 (s @ quote # t) = drop 1 s @ quote # t" if "HasPrefix (c # s) nbsp"
      using that by (cases s) (auto simp: nbsp_def)
    ultimately show ?case using 2 by auto
  qed (simp add: nbsp_def)
  with attribute_reads_back [OF assms] show ?thesis by simp
qed

section \<open>The colour of a user\<close>

text \<open>The shift works on 32 bits; the sum is a number of the language, exact up to 2 to the 53. A text
  is its code units.\<close>

definition ToInt32 :: "int \<Rightarrow> int" where
  "ToInt32 n = (n + 2 ^ 31) mod 2 ^ 32 - 2 ^ 31"

fun color_hash :: "int list \<Rightarrow> int \<Rightarrow> int" where
  "color_hash [] hash = hash"
| "color_hash (c # cs) hash = color_hash cs (c + (ToInt32 (ToInt32 hash * 2 ^ 5) - hash))"

definition colors :: "string list" where
  "colors = [''#0969da'', ''#1a7f37'', ''#8250df'', ''#9a6700'', ''#cf222e'', ''#0550ae'', ''#116329'', ''#6639ba'']"

definition stringToColor :: "int list \<Rightarrow> string" where
  "stringToColor str = colors ! nat (\<bar>color_hash str 0\<bar> mod int (length colors))"

lemma ToInt32_bound: "\<bar>ToInt32 n\<bar> \<le> 2 ^ 31"
  using pos_mod_bound [of "2 ^ 32" "n + 2 ^ 31"] pos_mod_sign [of "2 ^ 32" "n + 2 ^ 31"]
  by (simp add: ToInt32_def abs_le_iff)

lemma color_hash_bound:
  assumes "\<forall>c\<in>set cs. 0 \<le> c \<and> c < 65536"
  shows "\<bar>color_hash cs hash\<bar> \<le> \<bar>hash\<bar> + int (length cs) * (2 ^ 31 + 65536)"
  using assms
proof (induction cs arbitrary: hash)
  case (Cons c cs)
  let ?h = "c + (ToInt32 (ToInt32 hash * 2 ^ 5) - hash)"
  have "\<bar>?h\<bar> \<le> 65536 + 2 ^ 31 + \<bar>hash\<bar>"
    using Cons.prems ToInt32_bound [of "ToInt32 hash * 2 ^ 5"] by auto
  then show ?case
    using Cons.IH [of ?h] Cons.prems by (auto simp: algebra_simps)
qed simp

text \<open>Up to two million characters no hash leaves the numbers that are exact, and every user has one of
  the eight colours.\<close>

lemma color_exact:
  assumes "\<forall>c\<in>set str. 0 \<le> c \<and> c < 65536" "length str \<le> 2000000"
  shows "\<bar>color_hash str 0\<bar> < 2 ^ 53 \<and> stringToColor str \<in> set colors"
proof
  have "int (length str) * (2 ^ 31 + 65536) \<le> 2000000 * (2 ^ 31 + 65536)"
    using assms(2) by (intro mult_right_mono) auto
  then show "\<bar>color_hash str 0\<bar> < 2 ^ 53" using color_hash_bound [OF assms(1), of 0] by simp
  show "stringToColor str \<in> set colors"
    unfolding stringToColor_def by (intro nth_mem) (simp add: colors_def nat_less_iff)
qed

end
