(* ===== verification/Report_Period.thy ===== *)
theory Report_Period
  imports Startup Frontend
begin

text \<open>
  The period of a report, from the dates that the frontend sends to the activities in the stream: the
  handler reads the two dates as the midnights at which their days begin, the fetchers keep to the
  time between these two instants, and a report holds nothing that a fetcher did not return.
\<close>

section \<open>The dates of a request\<close>

lemma StreamReport_dates:
  assumes "run_state (ReportHandler_StreamReport E R (Some req) (Some ctx)) s = (r, s')"
  shows "(status r = 400 \<longleftrightarrow> \<not> (date_text (rq_since req) \<and> date_text (rq_until req))) \<and>
    (status r = 200 \<longrightarrow> (\<exists>since until evs e. Parse_Date (rq_since req) = Some since \<and>
       Parse_Date (rq_until req) = Some until \<and>
       run_state (GenerateReport E (rp_registry R) (rp_schedules R) (report_query_of ctx req since until)) s =
         ((evs, e), s') \<and>
       resp_body r = EventStream (map (event_data (iter E)) evs) e))"
proof (cases "Parse_Date (rq_since req) = None \<or> Parse_Date (rq_until req) = None")
  case True
  with assms have "status r = 400"
    by (auto simp: ReportHandler_StreamReport_def split: option.splits)
  with True show ?thesis by (auto simp: Parse_Date_iff)
next
  case False
  then obtain since until where dates: "Parse_Date (rq_since req) = Some since" "Parse_Date (rq_until req) = Some until"
    by auto
  have texts: "date_text (rq_since req)" "date_text (rq_until req)"
    using False by (auto simp: Parse_Date_iff)
  show ?thesis
  proof (cases "rp_flusher R")
    case True
    obtain evs e s1 where gen: "run_state (GenerateReport E (rp_registry R) (rp_schedules R)
        (report_query_of ctx req since until)) s = ((evs, e), s1)" by (metis surj_pair)
    with assms dates True have "r = \<lparr>status = 200, resp_body = EventStream (map (event_data (iter E)) evs) e\<rparr>" "s1 = s'"
      by (auto simp: ReportHandler_StreamReport_def NewSSEWriter_def)
    with gen texts dates show ?thesis by auto
  next
    case False
    with assms dates texts show ?thesis
      by (auto simp: ReportHandler_StreamReport_def NewSSEWriter_def)
  qed
qed

text \<open>The day that the frontend names is the one whose midnight the handler reads.\<close>

lemma day_text_Format:
  assumes "0 \<le> year (date_of_day (d + unix_epoch_day))" "year (date_of_day (d + unix_epoch_day)) \<le> 9999"
  shows "day_text d = Format_Date \<lparr>time_unix = d * 86400, time_offset = 0\<rparr>"
proof -
  let ?c = "date_of_day (d + unix_epoch_day)"
  have v: "valid_date ?c" using date_of_day_correct by simp
  have "1 \<le> day ?c" "day ?c \<le> 31" "month ?c \<le> 12"
    using v month_length_bounds [of "month ?c - 1" "year ?c"] by (simp_all add: valid_date_def) linarith
  then have small: "nat (day ?c) < 100" "month ?c < 100" "nat (year ?c) < 10000"
    "int (nat (day ?c)) = day ?c" "int (nat (year ?c)) = year ?c" using assms by simp_all
  have len: "length (appendInt (int (nat (year ?c))) 4) = 4" "length (appendInt (int (month ?c)) 2) = 2"
    "length (appendInt (int (nat (day ?c))) 2) = 2"
    using length_appendInt_cases(1) [OF small(1)] length_appendInt_cases(1) [OF small(2)]
      length_appendInt_cases(2) [OF small(3)] by fastforce+
  then have "day_text d = format_date ?c"
    using assms unfolding small(4,5)
    by (simp add: day_text_def iso_slice_def js_date_def js_day_plain js_year_def format_date_def Let_def)
  then show ?thesis by (simp add: Format_Date_def time_date_def local_seconds_def)
qed

lemma Parse_day_text:
  assumes "0 \<le> year (date_of_day (d + unix_epoch_day))" "year (date_of_day (d + unix_epoch_day)) \<le> 9999"
  shows "Parse_Date (day_text d) = Some \<lparr>time_unix = d * 86400, time_offset = 0\<rparr>"
  unfolding day_text_Format [OF assms] using assms
  by (intro Parse_Format_Date) (simp_all add: is_midnight_def time_date_def local_seconds_def)

section \<open>What a report holds\<close>

lemma results_mset_from:
  "a \<in># results_mset cs \<Longrightarrow> \<exists>as. Returned (Inr as) \<in> set cs \<and> a \<in> set as"
proof (induction cs)
  case (Cons c cs)
  then show ?case by (cases c rule: result_mset.cases) auto
qed simp

lemma member_activity:
  assumes "run_state (fetchMemberReport E reg sched member gs q) s = (Returned report, s')"
    and "a \<in> set (report_activities report)"
  obtains p key f repos u as where "registry_Build reg p key = Inr f"
    "Returned (Inr as) \<in> set (member_calls f repos u q)" "a \<in> set as"
proof -
  have "a \<in># (\<Sum>cs\<leftarrow>all_calls reg member q gs. results_mset cs)"
    using fetchMemberReport_result [OF assms(1)] assms(2) by (metis set_mset_mset)
  then obtain cs g where cs: "cs \<in> set (group_calls reg member q g)" "a \<in># results_mset cs"
    by (auto simp: all_calls_def)
  obtain as where as: "Returned (Inr as) \<in> set cs" "a \<in> set as"
    using results_mset_from [OF cs(2)] by blast
  show thesis
  proof (cases "registry_Build reg (group_platform g) (group_token g)")
    case (Inr f)
    with cs(1) have "cs = member_calls f (group_repos g) (GetPlatformUsername member (group_platform g)) q"
      by (simp add: group_calls_def)
    with Inr as show thesis using that by metis
  qed (use cs(1) in \<open>simp add: group_calls_def\<close>)
qed

lemma send_reports_activity:
  assumes "run_state (send_reports E reg scheds n gs q ms) s = ((evs, e), s')"
    and "UserReportEvent report \<in> set evs"
  shows "\<exists>sched m s1 s2. run_state (fetchMemberReport E reg sched m gs q) s1 = (Returned report, s2)"
  using assms
proof (induction ms arbitrary: n s evs)
  case (Cons m ms)
  obtain r s1 where r: "run_state (fetchMemberReport E reg (scheds n) m gs q) s = (r, s1)" by fastforce
  show ?case
  proof (cases r)
    case (Returned report')
    obtain evs' where "run_state (send_reports E reg scheds (Suc n) gs q ms) s1 = ((evs', e), s')"
      "evs = UserReportEvent report' # evs'"
      using Cons.prems(1) r Returned by (auto split: prod.splits)
    then show ?thesis using Cons.IH [of "Suc n" s1 evs'] Cons.prems(2) r Returned by auto
  qed (use Cons.prems r in auto)
qed simp

text \<open>Every activity of a report is one that a fetcher of the registry returned for the query.\<close>

lemma GenerateReport_activity:
  assumes "run_state (GenerateReport E reg scheds q) s = ((evs, e), s')"
    and "UserReportEvent report \<in> set evs" "a \<in> set (report_activities report)"
  obtains p key f repos u as where "registry_Build reg p key = Inr f"
    "Returned (Inr as) \<in> set (member_calls f repos u q)" "a \<in> set as"
  using assms(1)
proof (cases rule: GenerateReport_cases)
  case (error msg err)
  with assms(2) show thesis by (simp add: error_event_def)
next
  case (reports t s1 us s2 repos s3)
  from send_reports_activity [OF reports(4) assms(2)] obtain sched m sa sb where
    "run_state (fetchMemberReport E reg sched m (report_groups (iter E) repos) q) sa = (Returned report, sb)"
    by metis
  from member_activity [OF this assms(3)] show thesis using that by metis
qed

lemma GenerateReport_requested:
  assumes "\<And>p key f. registry_Build reg p key = Inr f \<Longrightarrow> activity_fetcher f p"
    and "run_state (GenerateReport E reg scheds q) s = ((evs, e), s')"
    and "UserReportEvent report \<in> set evs" "a \<in> set (report_activities report)"
  shows "as_requested (query_since q) (query_until q) (query_types q) a"
proof -
  obtain p key f repos u as where f: "registry_Build reg p key = Inr f"
    and call: "Returned (Inr as) \<in> set (member_calls f repos u q)" and a: "a \<in> set as"
    using GenerateReport_activity [OF assms(2-4)] by metis
  note contract = activity_fetcher.fetch_requested [OF assms(1) [OF f]]
    activity_fetcher.search_requested [OF assms(1) [OF f]]
  from call consider repo where "f_fetch f u repo (query_since q) (query_until q) (query_types q) = Returned (Inr as)"
    | "f_search f u repos (query_since q) (query_until q) (query_types q) = Returned (Inr as)"
    by (auto simp: member_calls_def)
  then show ?thesis using contract a by cases blast+
qed

text \<open>The last seven days as the frontend asks for them: the report has the reviews from the midnight at
  which the first of the days begins to the midnight at which the last one begins.\<close>

lemma request_types_names: "type_name ` set (request_types ts) \<subseteq> set ts"
proof (induction ts)
  case (Cons t ts)
  then have "type_name ` set (request_types ts) \<subseteq> set (t # ts)" by auto
  then show ?case by (simp add: type_names) (intro conjI impI; simp)
qed simp

lemma last_days_report:
  assumes period: "(rq_since req, rq_until req) = resolvePeriod (fixed_zone off) t ''last7''"
    and years: "0 \<le> year (date_of_day (js_day t - 6 + unix_epoch_day))"
      "year (date_of_day (js_day t - 6 + unix_epoch_day)) \<le> 9999"
      "0 \<le> year (date_of_day (js_day t + unix_epoch_day))"
      "year (date_of_day (js_day t + unix_epoch_day)) \<le> 9999"
    and registry: "rp_registry R = program_registry getenv N JH JL it"
    and run: "run_state (ReportHandler_StreamReport E R (Some req) (Some ctx)) s = (r, s')" "status r = 200"
  shows "\<exists>evs e. resp_body r = EventStream (map (event_data (iter E)) evs) e \<and>
    (\<forall>report a. UserReportEvent report \<in> set evs \<and> a \<in> set (report_activities report) \<longrightarrow>
       type_name (GetType a) \<in> set (rq_types req) \<and>
       (\<forall>v. a = PullRequestReview v \<longrightarrow>
          (js_day t - 6) * 86400 \<le> time_unix (review_submitted_at v) \<and>
          time_unix (review_submitted_at v) \<le> js_day t * 86400))"
proof -
  have "rq_since req = day_text (js_day t - 6)" "rq_until req = day_text (js_day t)"
    using period by (simp_all add: resolvePeriod_def Let_def setDate_back iso_slice_day js_day_plain)
  then have dates: "Parse_Date (rq_since req) = Some \<lparr>time_unix = (js_day t - 6) * 86400, time_offset = 0\<rparr>"
    "Parse_Date (rq_until req) = Some \<lparr>time_unix = js_day t * 86400, time_offset = 0\<rparr>"
    using Parse_day_text [OF years(1,2)] Parse_day_text [OF years(3,4)] by simp_all
  obtain since until evs e where "Parse_Date (rq_since req) = Some since" "Parse_Date (rq_until req) = Some until"
    and gen: "run_state (GenerateReport E (rp_registry R) (rp_schedules R) (report_query_of ctx req since until)) s =
         ((evs, e), s')"
    and body: "resp_body r = EventStream (map (event_data (iter E)) evs) e"
    using StreamReport_dates [OF run(1)] run(2) by blast
  then have "since = \<lparr>time_unix = (js_day t - 6) * 86400, time_offset = 0\<rparr>"
    "until = \<lparr>time_unix = js_day t * 86400, time_offset = 0\<rparr>"
    using dates by (metis option.inject)+
  then have bounds: "time_unix since = (js_day t - 6) * 86400" "time_unix until = js_day t * 86400" by simp_all
  have "type_name (GetType a) \<in> set (rq_types req) \<and> (\<forall>v. a = PullRequestReview v \<longrightarrow>
      time_unix since \<le> time_unix (review_submitted_at v) \<and> time_unix (review_submitted_at v) \<le> time_unix until)"
    if "UserReportEvent report \<in> set evs" "a \<in> set (report_activities report)" for report a
  proof -
    have "as_requested since until (request_types (rq_types req)) a"
      using GenerateReport_requested [OF _ gen that] registered_fetchers registry
      by (fastforce simp: report_query_of_def)
    then show ?thesis
      using request_types_names [of "rq_types req"]
      by (auto simp: as_requested_def in_period_def time_Before_def time_After_def)
  qed
  then show ?thesis using body bounds by (intro exI [of _ evs] exI [of _ e]) auto
qed

end
