(* ===== verification/Report_Page.thy ===== *)
theory Report_Page
  imports Report_Period
begin

text \<open>
  What the browser makes of the events of a report (\<open>generateReport\<close> in \<open>frontend/app.js\<close>): a card per
  member, a summary at the end, and the status line. \<open>JSON.parse\<close> is a parameter, \<open>None\<close> where it
  throws. \<open>page_of_report\<close> follows a report from the service to this page.
\<close>

section \<open>The page\<close>

record report_page =
  pg_reports :: "user_report_dto list"
  pg_summaries :: "(nat \<times> nat \<times> nat \<times> nat \<times> nat) list"
  pg_class :: string
  pg_message :: string

definition opened_page :: report_page where
  "opened_page = \<lparr>pg_reports = [], pg_summaries = [], pg_class = ''stream-status'',
     pg_message = ''Opening stream...''\<rparr>"

definition complete_message :: "user_report_dto list \<Rightarrow> string" where
  "complete_message allReports =
     (let totalActivities = sum_list (map (\<lambda>r. length (ur_dto_activities r)) allReports)
      in ''Report complete -- '' @ decimal totalActivities @ '' activities across '' @
         decimal (length allReports) @ '' '' @ (if length allReports = 1 then ''member'' else ''members'') @ ''.'')"

text \<open>The \<open>switch\<close> over the type of an event.\<close>

definition show_event :: "(string \<Rightarrow> sse_event_data option) \<Rightarrow> report_page \<Rightarrow> string \<times> string \<Rightarrow> report_page" where
  "show_event parse page evt =
     (case parse (snd evt) of
        None \<Rightarrow> page
      | Some parsed \<Rightarrow>
          if fst evt = ''USER_REPORT'' then
            (case sse_report parsed of
               None \<Rightarrow> page
             | Some report \<Rightarrow>
                 let u = ur_dto_user report; name = (if ud_display_name u \<noteq> [] then ud_display_name u else ud_username u)
                 in page\<lparr>pg_reports := pg_reports page @ [report],
                      pg_message := ''Received data for '' @ name @ ''...''\<rparr>)
          else if fst evt = ''COMPLETE'' then
            page\<lparr>pg_summaries := pg_summaries page @ [summary_totals (pg_reports page) (0, 0, 0, 0, 0)],
              pg_class := ''stream-status done'', pg_message := complete_message (pg_reports page)\<rparr>
          else if fst evt = ''ERROR'' then
            page\<lparr>pg_class := ''stream-status error'',
              pg_message := ''Error: '' @ (if sse_error parsed \<noteq> [] then sse_error parsed else ''Unknown error'')\<rparr>
          else page)"

definition shown_page :: "(string \<Rightarrow> sse_event_data option) \<Rightarrow> string list \<Rightarrow> report_page" where
  "shown_page parse chunks = foldl (show_event parse) opened_page (fst (read_chunks chunks []))"

section \<open>From the events to the page\<close>

text \<open>What is assumed of \<open>json.Marshal\<close> and \<open>JSON.parse\<close> on the data of some events.\<close>

definition json_law ::
    "(sse_event_data \<Rightarrow> string) \<Rightarrow> (string \<Rightarrow> sse_event_data option) \<Rightarrow> (string \<times> sse_event_data) list \<Rightarrow> bool" where
  "json_law marshal parse evs \<longleftrightarrow>
     list_all (\<lambda>(t, d). marshal d \<noteq> [] \<and> newline \<notin> set (marshal d) \<and> parse (marshal d) = Some d) evs"

lemma shown_page_events:
  assumes "json_law marshal parse (map (event_data it) evs)"
    and "concat chunks = stream_bytes marshal (map (event_data it) evs)"
  shows "shown_page parse chunks =
    foldl (show_event parse) opened_page (map (\<lambda>e. (fst (event_data it e), marshal (snd (event_data it e)))) evs)"
proof -
  have "event_ok marshal (event_data it e)" if "e \<in> set evs" for e
    using assms(1) that by (cases e) (auto simp: json_law_def list_all_iff event_ok_def js_space_def)
  then have "list_all (event_ok marshal) (map (event_data it) evs)" by (simp add: list_all_iff)
  from stream_roundtrip [OF this assms(2)] show ?thesis
    by (simp add: shown_page_def comp_def case_prod_unfold)
qed

lemma show_reports:
  assumes "\<And>r. r \<in> set reports \<Longrightarrow> parse (marshal (snd (event_data it (UserReportEvent r)))) =
      Some (snd (event_data it (UserReportEvent r)))"
  shows "pg_reports (foldl (show_event parse) page (map (\<lambda>r. (''USER_REPORT'',
      marshal (snd (event_data it (UserReportEvent r))))) reports)) =
      pg_reports page @ map (UserReportToDTO it) reports \<and>
    pg_summaries (foldl (show_event parse) page (map (\<lambda>r. (''USER_REPORT'',
      marshal (snd (event_data it (UserReportEvent r))))) reports)) = pg_summaries page"
  using assms
proof (induction reports arbitrary: page)
  case (Cons r rs)
  then show ?case by (simp add: show_event_def Let_def)
qed simp

lemma summary_sums:
  "summary_totals rs (a, c, m, i, v) =
    (a + sum_list (map (\<lambda>r. length (ur_dto_activities r)) rs), c + sum_list (map (\<lambda>r. getCountByType r ''COMMIT'') rs),
     m + sum_list (map (\<lambda>r. getCountByType r ''MERGED_PR'') rs), i + sum_list (map (\<lambda>r. getCountByType r ''ISSUE'') rs),
     v + sum_list (map (\<lambda>r. getCountByType r ''PR_REVIEW'') rs))"
  by (induction rs arbitrary: a c m i v) simp_all

text \<open>The page after all reports and the completion event.\<close>

lemma complete_page:
  assumes it: "iteration_ok it"
    and counts: "\<And>r. r \<in> set reports \<Longrightarrow> report_counts r = buildActivityCounts it (report_activities r)"
    and law: "json_law marshal parse (map (event_data it) (map UserReportEvent reports @ [ReportCompleteEvent]))"
    and bytes: "concat chunks = stream_bytes marshal (map (event_data it) (map UserReportEvent reports @ [ReportCompleteEvent]))"
  defines "of_type \<equiv> \<lambda>t. sum_list (map (\<lambda>r. number_of_type (report_activities r) t) reports)"
    and "shown \<equiv> sum_list (map (\<lambda>r. length (report_activities r)) reports)"
  shows "pg_reports (shown_page parse chunks) = map (UserReportToDTO it) reports \<and>
    pg_class (shown_page parse chunks) = ''stream-status done'' \<and>
    pg_summaries (shown_page parse chunks) = [(shown, of_type ActivityTypeCommit, of_type ActivityTypeMergedPullRequest,
      of_type ActivityTypeIssue, of_type ActivityTypePullRequestReview)] \<and>
    of_type ActivityTypeCommit + of_type ActivityTypeMergedPullRequest + of_type ActivityTypeIssue +
      of_type ActivityTypePullRequestReview = shown"
proof -
  let ?page = "foldl (show_event parse) opened_page (map (\<lambda>r. (''USER_REPORT'',
      marshal (snd (event_data it (UserReportEvent r))))) reports)"
  have parse: "parse (marshal (snd (event_data it e))) = Some (snd (event_data it e))"
    if "e \<in> set (map UserReportEvent reports @ [ReportCompleteEvent])" for e
    using law that by (cases e) (auto simp: json_law_def list_all_iff)
  have page: "pg_reports ?page = map (UserReportToDTO it) reports" "pg_summaries ?page = []"
    using show_reports [of reports parse marshal it opened_page, OF parse]
    by (simp_all add: opened_page_def)
  have at_end: "shown_page parse chunks = show_event parse ?page (''COMPLETE'', marshal (snd (event_data it ReportCompleteEvent)))"
    unfolding shown_page_events [OF law bytes] by (simp add: comp_def)
  have sums: "sum_list (map (\<lambda>r. getCountByType (UserReportToDTO it r) (type_name (GetType a))) reports) = of_type (GetType a)" for a
    unfolding of_type_def using shown_count [OF it counts] by (intro arg_cong [where f = sum_list] map_cong) auto
  have total: "sum_list (map (\<lambda>r. length (ur_dto_activities (UserReportToDTO it r))) reports) = shown"
    by (simp add: shown_def UserReportToDTO_def)
  have "of_type ActivityTypeCommit + of_type ActivityTypeMergedPullRequest + of_type ActivityTypeIssue +
      of_type ActivityTypePullRequestReview = shown"
    unfolding of_type_def shown_def sum_list_addf [symmetric] number_of_types ..
  with at_end page sums [of "Commit undefined"] sums [of "MergedPullRequest undefined"] sums [of "Issue undefined"]
    sums [of "PullRequestReview undefined"] total parse [of ReportCompleteEvent]
  show ?thesis by (simp add: show_event_def type_names summary_sums comp_def)
qed

text \<open>A report that ends, from the service to the page.\<close>

lemma page_of_report:
  assumes "iteration_ok (iter E)"
    and run: "run_state (GenerateReport E reg scheds q) s = ((evs, Closed), s')"
    and law: "json_law marshal parse (map (event_data (iter E)) evs)"
    and bytes: "concat chunks = stream_bytes marshal (map (event_data (iter E)) evs)"
  shows "(\<exists>msg. evs = [ReportErrorEvent msg] \<and> pg_reports (shown_page parse chunks) = [] \<and>
      pg_class (shown_page parse chunks) = ''stream-status error'' \<and>
      pg_message (shown_page parse chunks) = ''Error: '' @ msg) \<or>
    (\<exists>reports commits merged issues reviews. evs = map UserReportEvent reports @ [ReportCompleteEvent] \<and>
      pg_reports (shown_page parse chunks) = map (UserReportToDTO (iter E)) reports \<and>
      pg_class (shown_page parse chunks) = ''stream-status done'' \<and>
      pg_summaries (shown_page parse chunks) =
        [(commits + merged + issues + reviews, commits, merged, issues, reviews)] \<and>
      commits = sum_list (map (\<lambda>r. number_of_type (report_activities r) ActivityTypeCommit) reports) \<and>
      commits + merged + issues + reviews = sum_list (map (\<lambda>r. length (report_activities r)) reports))"
  using run
proof (cases rule: GenerateReport_cases)
  case (error msg err)
  then obtain m where evs: "evs = [ReportErrorEvent m]" "m \<noteq> []" by (auto simp: error_event_def)
  have "parse (marshal (snd (event_data (iter E) (ReportErrorEvent m)))) = Some (snd (event_data (iter E) (ReportErrorEvent m)))"
    using law evs by (simp add: json_law_def)
  then show ?thesis
    using evs shown_page_events [OF law bytes] by (simp add: show_event_def opened_page_def)
next
  case (reports t s1 us s2 repos s3)
  obtain rs where evs: "evs = map UserReportEvent rs @ [ReportCompleteEvent]"
    using send_reports_shape [OF reports(4)] by auto
  have "report_counts r = buildActivityCounts (iter E) (report_activities r)" if "r \<in> set rs" for r
  proof -
    have "UserReportEvent r \<in> set evs" using that evs by auto
    from send_reports_activity [OF reports(4) this] show ?thesis using fetchMemberReport_result by blast
  qed
  from complete_page [OF assms(1) this law [unfolded evs] bytes [unfolded evs]] evs show ?thesis by auto
qed

end
