(* ===== verification/Report_Properties.thy ===== *)
theory Report_Properties
  imports Instances Event_Channel Report_Page
begin

text \<open>
  The properties of the parts of a report: the goroutines and their mutex, grouping,
  the event stream from the server's bytes to the browser's page, and the texts of times.
\<close>

section \<open>Goroutines\<close>


text \<open>C24. Nothing is lost and nothing deadlocks: however the goroutines of a report interleave, if no call
  panics or hangs then a state in which none of them can move is one in which all have finished,
  and the shared slice holds what the calls returned, each result as often as it was returned.\<close>

theorem goroutines_lose_nothing:
  assumes "pool_step\<^sup>*\<^sup>* (spawn css) p" "stuck p" "\<forall>cs\<in>set css. \<forall>c\<in>set cs. quiet c"
  shows "all_finished p \<and> \<not> panicked p \<and> mset (shared p) = (\<Sum>cs\<leftarrow>css. results_mset cs)"
  by (rule final_pool [OF assms])

theorem goroutines_lose_nothing_witness:
  "let p = wait_all [1, 0, 1, 1, 0, 0] (spawn [[Returned (Inr [1, 2]), Returned (Inr [3 :: nat])],
       [Returned (Inl (Msg ''rate limit'')), Returned (Inr [4])]])
   in all_finished p \<and> mset (shared p) = {#1, 2, 3, 4#}"
  using goroutines_lose_nothing [OF wait_all_reachable wait_all_stuck, of
      "[[Returned (Inr [1, 2]), Returned (Inr [3 :: nat])],
        [Returned (Inl (Msg ''rate limit'')), Returned (Inr [4])]]" "[1, 0, 1, 1, 0, 0]"]
  by (simp add: quiet_def)

text \<open>C25. Mutual exclusion: in every reachable state at most one goroutine is between \<open>Lock\<close> and
  \<open>Unlock\<close>, and a goroutine that has read the slice and not yet written it back has read what the
  slice still holds.\<close>

theorem goroutines_exclude:
  assumes "pool_step\<^sup>*\<^sup>* (spawn css) p" "i < length (threads p)" "j < length (threads p)"
    and "in_section (threads p ! i)" "in_section (threads p ! j)"
  shows "i = j \<and> (\<forall>xs old cs. threads p ! i = Storing xs old cs \<longrightarrow> old = shared p)"
  using mutex_ok_reachable [OF assms(1) mutex_ok_spawn] assms(2-5) by (simp add: mutex_ok_def)

text \<open>Both goroutines have a result; the first holds the mutex and the second waits for it.\<close>

theorem goroutines_exclude_witness:
  "let p = run_schedule [0, 1, 0, 1, 0, 1] (spawn [[Returned (Inr [1 :: nat])], [Returned (Inr [2])]])
   in \<forall>j < 2. in_section (threads p ! j) \<longrightarrow> j = 0"
proof -
  let ?p = "run_schedule [0, 1, 0, 1, 0, 1] (spawn [[Returned (Inr [1 :: nat])], [Returned (Inr [2])]])"
  have p: "length (threads ?p) = 2" "in_section (threads ?p ! 0)"
    by (simp_all add: spawn_def step_thread_def)
  then show ?thesis
    using goroutines_exclude [OF schedule_reachable, of _ "[0, 1, 0, 1, 0, 1]"
        "[[Returned (Inr [1 :: nat])], [Returned (Inr [2])]]" 0]
    unfolding Let_def by (metis zero_less_numeral)
qed



section \<open>Grouping\<close>

text \<open>C27. The groups of a report partition the repositories that have a token: each group has one
  platform and one token, shared by all its repositories; no two groups agree in both; and every
  repository with a token is in exactly one group. No platform name may hold a zero byte, which
  separates platform and token in the key.\<close>

theorem groups_partition:
  assumes "iteration_ok it" "\<forall>r\<in>set rs. no_zero_byte r"
  shows "list_all group_ok (report_groups it rs) \<and>
    mset (concat (map group_repos (report_groups it rs))) = mset (filter (\<lambda>r. repo_api_token r \<noteq> []) rs) \<and>
    distinct (map (\<lambda>g. (group_platform g, group_token g)) (report_groups it rs))"
  using report_groups_partition [OF assms] by blast

theorem groups_partition_witness:
  "let gs = report_groups (\<lambda>n. [0..<n]) (map repo_of_row (repos_table tokened))
   in map group_token gs = [''ghp_1''] \<and>
     mset (concat (map group_repos gs)) = mset (map repo_of_row (repos_table tokened))"
proof -
  let ?rs = "map repo_of_row (repos_table tokened)"
  have "\<forall>r\<in>set ?rs. no_zero_byte r" "filter (\<lambda>r. repo_api_token r \<noteq> []) ?rs = ?rs"
    by (simp_all add: tokened_def seeded_tables repo_of_row_def no_zero_byte_def char_of_eq_iff)
  with groups_partition [OF iteration_identity, of ?rs]
  show ?thesis
    by (simp add: Let_def) (simp add: report_groups_def tokened_def seeded_tables repo_of_row_def group_key_def)
qed

section \<open>The event stream\<close>

text \<open>C29. What the report handler writes is what the browser reads, wherever the network cuts the bytes:
  the reading loop yields one event per report event, in order, with the same type and the same
  data text, and nothing is left in its buffer. The text of an event's data must be one line, as
  \<open>json.Marshal\<close> makes it.\<close>

theorem stream_read_back:
  assumes "\<And>d. marshal d \<noteq> [] \<and> newline \<notin> set (marshal d)"
    and "concat chunks = stream_bytes marshal (map (event_data it) evs)"
  shows "read_chunks chunks [] = (map (\<lambda>e. (fst (event_data it e), marshal (snd (event_data it e)))) evs, [])"
proof -
  have "list_all (event_ok marshal) (map (event_data it) evs)"
    using event_data_ok [of marshal it] assms(1) by (simp add: list_all_iff)
  from stream_roundtrip [OF this assms(2)] show ?thesis
    by (simp add: comp_def case_prod_unfold)
qed

text \<open>The completion event, cut after each of its bytes.\<close>

theorem stream_read_back_witness:
  "read_chunks (map (\<lambda>c. [c]) (stream_bytes (\<lambda>d. ''{}'') (map (event_data (\<lambda>n. [0..<n])) [ReportCompleteEvent]))) []
     = ([(''COMPLETE'', ''{}'')], [])"
proof -
  have "\<And>d :: sse_event_data. ''{}'' \<noteq> [] \<and> newline \<notin> set ''{}''"
    by (simp add: char_of_eq_iff)
  moreover have "concat (map (\<lambda>c. [c]) s) = s" for s :: string
    by (induction s) simp_all
  ultimately show ?thesis
    using stream_read_back [where marshal = "\<lambda>d. ''{}''" and evs = "[ReportCompleteEvent]" and it = "\<lambda>n. [0..<n]"]
    by simp
qed

text \<open>C30. What the service sends is what the handler writes: over the channel of 16 places, whatever the
  interleaving of the two goroutines, a run takes at most three steps per event and three more,
  the channel never holds more than 16 events, and what is written is a prefix of what is sent.
  Where neither can move, the handler has returned exactly if the service closed the channel, and
  all events are written, unless the process died of a panic: then at most 17 are lost.\<close>

theorem events_delivered:
  assumes "(chan_step e ^^ n) (chan_start events) c"
  shows "n \<le> 3 * length events + 3 \<and> length (buffer c) \<le> 16 \<and>
    take (length (written c)) events = written c \<and>
    (chan_stuck e c \<longrightarrow> (handler_done c \<longleftrightarrow> e = Closed) \<and> (e \<noteq> Crashed \<longrightarrow> written c = events) \<and>
       length events \<le> length (written c) + 17)"
proof -
  have run: "(chan_step e)\<^sup>*\<^sup>* (chan_start events) c"
    using assms by (rule relpowp_imp_rtranclp)
  then have ok: "chan_ok e events c" by (rule chan_ok_reachable)
  have "n + chan_work c \<le> chan_work (chan_start events)"
    using relpowp_measure [of "chan_step e" chan_work, OF chan_step_work assms] .
  then have "n \<le> 3 * length events + 3" by (simp add: chan_work_def chan_start_def)
  moreover have "take (length (written c)) events = written c"
    unfolding chan_okD(1) [OF ok, symmetric] by simp
  moreover have "handler_done c \<Longrightarrow> e = Closed"
    using chan_okD(4,5) [OF ok] by blast
  moreover have "length (buffer c) \<le> 16"
    using chan_okD(2) [OF ok] by (simp add: chan_capacity_def)
  moreover have "length events \<le> length (written c) + 17" if "chan_stuck e c"
    using conjunct1 [OF crash_loses [OF run that]] by (simp add: chan_capacity_def)
  ultimately show ?thesis
    using stuck_delivered [OF run] by blast
qed

text \<open>One event, sent, closed, received, written, and the handler returns.\<close>

theorem events_delivered_witness:
  "(chan_step Closed ^^ 5) (chan_start [2024 :: int]) \<lparr>to_send = [], buffer = [], in_hand = [], written = [2024],
     chan_closed = True, handler_done = True, process_down = False\<rparr> \<and> (5 :: nat) \<le> 3 * length [2024 :: int] + 3"
proof
  let ?x = "2024 :: int"
  let ?c = "\<lambda>b h w cl d. \<lparr>to_send = [], buffer = b, in_hand = h, written = w,
     chan_closed = cl, handler_done = d, process_down = False\<rparr>"
  have steps: "chan_step Closed (chan_start [?x]) (?c [?x] [] [] False False)"
    "chan_step Closed (?c [?x] [] [] False False) (?c [?x] [] [] True False)"
    "chan_step Closed (?c [?x] [] [] True False) (?c [] [?x] [] True False)"
    "chan_step Closed (?c [] [?x] [] True False) (?c [] [] [?x] True False)"
    "chan_step Closed (?c [] [] [?x] True False) (?c [] [] [?x] True True)"
    using chan_step.send [of "chan_start [?x]" ?x "[]" Closed]
      chan_step.close [of "?c [?x] [] [] False False" Closed]
      chan_step.receive [of "?c [?x] [] [] True False" ?x "[]" Closed]
      chan_step.deliver [of "?c [] [?x] [] True False" ?x Closed]
      chan_step.leave [of "?c [] [] [?x] True False" Closed]
    by (simp_all add: chan_start_def chan_capacity_def)
  have five: "(5 :: nat) = Suc (Suc (Suc (Suc (Suc 0))))" by simp
  show run: "(chan_step Closed ^^ 5) (chan_start [?x]) (?c [] [] [?x] True True)"
    unfolding five using steps relpowp_0_I [of "chan_step Closed" "chan_start [?x]"]
    by (blast intro: relpowp_Suc_I)
  show "(5 :: nat) \<le> 3 * length [?x] + 3"
    using events_delivered [OF run] by blast
qed

section \<open>The page\<close>



section \<open>Times\<close>

text \<open>C31. The dates of a request: the report handler answers 400 exactly if one of the two dates is
  not the text, as the program prints it, of a day of the years 0 to 9999; for any other request
  the period that the service is asked for begins and ends with the days whose texts were sent.\<close>

theorem request_dates:
  assumes "run_state (ReportHandler_StreamReport E R (Some req) (Some ctx)) s = (r, s')"
  shows "(status r = 400 \<longleftrightarrow> \<not> (date_text (rq_since req) \<and> date_text (rq_until req))) \<and>
    (status r = 200 \<longrightarrow> (\<exists>since until evs e. Format_Date since = rq_since req \<and> Format_Date until = rq_until req \<and>
       run_state (GenerateReport E (rp_registry R) (rp_schedules R) (report_query_of ctx req since until)) s =
         ((evs, e), s') \<and>
       resp_body r = EventStream (map (event_data (iter E)) evs) e))"
  using StreamReport_dates [OF assms] by (meson Format_Parse_Date)

text \<open>A date without a zero, and the empty text for the other.\<close>

theorem request_dates_witness:
  "status (fst (run_state (ReportHandler_StreamReport demo_env demo_port
     (Some \<lparr>rq_team_id = ''t-eng'', rq_member_id = [], rq_since = ''2024-3-01'', rq_until = [], rq_types = [],
        rq_report_type = []\<rparr>)
     (Some \<lparr>ctx_account_id = ''a-alice'', ctx_user_id = ''u-alice'', ctx_roles = []\<rparr>)) seeded)) = 400"
proof -
  have "Parse_Date ''2024-3-01'' = None" by code_simp
  then show ?thesis
    using request_dates [OF surjective_pairing, of demo_env demo_port "\<lparr>rq_team_id = ''t-eng'', rq_member_id = [],
      rq_since = ''2024-3-01'', rq_until = [], rq_types = [], rq_report_type = []\<rparr>"
      "\<lparr>ctx_account_id = ''a-alice'', ctx_user_id = ''u-alice'', ctx_roles = []\<rparr>" seeded]
    by (simp add: Parse_Date_iff)
qed

text \<open>The time of an activity is sent wrongly unless it is in UTC: the text is that of the local time
  marked as UTC, the instant shifted by the offset of the zone.\<close>

theorem activity_time_shifted:
  "ad_created_at (ActivityToDTO a) = Format_RFC3339
     \<lparr>time_unix = time_unix (data_created_at (GetData a)) + time_offset (data_created_at (GetData a)),
       time_offset = 0\<rparr>"
  by (simp add: ActivityToDTO_def Let_def Format_Z_shift)

end
