(* ===== verification/Platform_Properties.thy ===== *)
theory Platform_Properties
  imports Instances Report_Period
begin

text \<open>
  The properties of the clients of GitHub and GitLab: when following pages ends and what it yields,
  the two ways of naming the next page, what the fetchers return and which days of a period reach a
  report, where a web address crashes the program.
\<close>

section \<open>Following pages\<close>


text \<open>The loop of \<open>GetAll\<close> ends exactly if after some number of pages there is no next page to
  fetch, because none is named or because a request fails; nothing else bounds it.\<close>

theorem paging_ends:
  "get_all_loop N headers nxt url pages \<noteq> None \<longleftrightarrow> (\<exists>n. url_after N headers nxt url n = None)"
  by (rule loop_ends_iff)

text \<open>C35. A server whose next links form a cycle keeps \<open>GetAll\<close> fetching forever: there is no timeout and
  no limit on the number of pages.\<close>

theorem paging_cycle:
  assumes "url_after N headers nxt url m = Some u" "url_after N headers nxt u (Suc n) = Some u"
  shows "http_GetAll N headers nxt url = Diverged"
  using cycle_diverges [OF assms, of "[]"] by (simp add: http_GetAll_def)

text \<open>A page of GitHub that names itself.\<close>

definition looping_net :: net where
  "looping_net = \<lparr>new_request = Inr,
     do_request = (\<lambda>q. Returned (Inr \<lparr>hr_status = 200,
       hr_header = (\<lambda>h. link_header [(''https://api.github.com/x'', ''next'')]), hr_body = Inr ''[]''\<rparr>)),
     authority_ok = (\<lambda>a. True)\<rparr>"

theorem paging_cycle_witness:
  "http_GetAll looping_net [] gh_next ''https://api.github.com/x'' = Diverged"
proof -
  let ?u = "''https://api.github.com/x''"
  have "parseNextLink (link_header [(?u, ''next'')]) = ?u"
    by (subst parse_link_header) (simp_all add: link_ok_def next_of_def)
  then have "next_url looping_net [] gh_next ?u = Some ?u"
    by (simp add: next_url_def get_page_def looping_net_def check_response_def gh_next_def)
  then have "url_after looping_net [] gh_next ?u 0 = Some ?u" "url_after looping_net [] gh_next ?u (Suc 0) = Some ?u"
    by simp_all
  then show ?thesis by (rule paging_cycle)
qed

section \<open>The next page\<close>

text \<open>C36. The address of the next page. GitHub names it in a link header, addresses in angle brackets
  with their relations: the client takes the first link with the relation \<open>next\<close>, and nothing when
  there is none. GitLab gives its number, and the next page is the same request with the page
  replaced: the address before the query is kept, each page parameter of the query gets the new
  value, one is appended when there is none, and going on from a page so reached gives the same
  address as going there at once, so that the address does not grow.\<close>

theorem next_page_address:
  assumes "list_all link_ok ls" "page_value_ok v" "page_value_ok w" "CHR ''?'' \<notin> set base"
  shows "parseNextLink (link_header ls) = next_of ls \<and>
    nextPageURL (base @ ''?'' @ q) v = base @ ''?'' @ Join (set_page v (Split q (CHR ''&''))) ''&'' \<and>
    nextPageURL base v = base @ ''?page='' @ v \<and>
    nextPageURL (nextPageURL raw v) w = nextPageURL raw w"
  using parse_link_header [OF assms(1)] nextPageURL_query [OF assms(2,4)] nextPageURL_no_query [OF assms(2,4)]
    nextPageURL_again [OF assms(2,3)]
  by simp

theorem next_page_address_witness:
  "parseNextLink (link_header [(''https://h/r?page=1'', ''prev''), (''https://h/r?page=3'', ''next'')])
      = ''https://h/r?page=3'' \<and>
    nextPageURL ''https://h/p?per_page=100&page=2&x=1'' ''3'' = ''https://h/p?per_page=100&page=3&x=1'' \<and>
    nextPageURL ''https://h/p'' ''3'' = ''https://h/p?page=3''"
proof -
  let ?ls = "[(''https://h/r?page=1'', ''prev''), (''https://h/r?page=3'', ''next'')]"
  have "parseNextLink (link_header ?ls) = next_of ?ls \<and>
    nextPageURL (''https://h/p'' @ ''?'' @ ''per_page=100&page=2&x=1'') ''3'' =
      ''https://h/p'' @ ''?'' @ Join (set_page ''3'' (Split ''per_page=100&page=2&x=1'' (CHR ''&''))) ''&'' \<and>
    nextPageURL ''https://h/p'' ''3'' = ''https://h/p'' @ ''?page='' @ ''3'' \<and>
    nextPageURL (nextPageURL [] ''3'') ''3'' = nextPageURL [] ''3''"
    by (rule next_page_address) (simp_all add: page_value_ok_def link_ok_def)
  moreover have "Join (set_page ''3'' (Split ''per_page=100&page=2&x=1'' (CHR ''&''))) ''&'' =
      ''per_page=100&page=3&x=1''" "next_of ?ls = ''https://h/r?page=3''"
    by code_simp+
  ultimately show ?thesis by simp
qed

section \<open>What fetchers return\<close>

text \<open>Every fetcher that the program builds, for GitHub or GitLab, keeps the contract that reports rely
  on, whatever the platforms answer: activities are of requested types only, reviews only from the
  requested period, and discovered repositories are of the fetcher's platform and carry no token.
  For any other platform no fetcher is built.\<close>

lemma fetchers_keep_contract:
  assumes "registry_Build (program_registry getenv N JH JL it) p key = Inr f"
  shows "(p = PlatformGitHub \<or> p = PlatformGitLab) \<and>
    (\<forall>u repo since until types as a. f_fetch f u repo since until types = Returned (Inr as) \<and> a \<in> set as \<longrightarrow>
       as_requested since until types a) \<and>
    (\<forall>u repos since until types as a. f_search f u repos since until types = Returned (Inr as) \<and> a \<in> set as \<longrightarrow>
       as_requested since until types a) \<and>
    (\<forall>discover u rs r. f_discover f = Some discover \<and> discover u = Returned (Inr rs) \<and> r \<in> set rs \<longrightarrow>
       repo_platform r = p \<and> repo_api_token r = [])"
  using registered_fetchers [OF assms]
  by (blast dest: activity_fetcher.fetch_requested activity_fetcher.search_requested activity_fetcher.discovered_plain)

text \<open>C38. The last day is missing, from the browser to the platforms and back: when the frontend asks for
  the last seven days, every activity in the reports of the composed program is of a type asked for,
  and every review in them lies between the midnight at which the first of these days begins and
  the midnight at which the last one begins, not the one at which it ends: what was reviewed on the
  day of the report is never in it.\<close>

theorem last_day_missing:
  assumes "(rq_since req, rq_until req) = resolvePeriod (fixed_zone off) t ''last7''"
    and "0 \<le> year (date_of_day (js_day t - 6 + unix_epoch_day))"
    and "year (date_of_day (js_day t - 6 + unix_epoch_day)) \<le> 9999"
    and "0 \<le> year (date_of_day (js_day t + unix_epoch_day))"
    and "year (date_of_day (js_day t + unix_epoch_day)) \<le> 9999"
    and "rp_registry R = program_registry getenv N JH JL it"
    and "run_state (ReportHandler_StreamReport E R (Some req) (Some ctx)) s = (r, s')" "status r = 200"
  shows "\<exists>evs e. resp_body r = EventStream (map (event_data (iter E)) evs) e \<and>
    (\<forall>report a. UserReportEvent report \<in> set evs \<and> a \<in> set (report_activities report) \<longrightarrow>
       type_name (GetType a) \<in> set (rq_types req) \<and>
       (\<forall>v. a = PullRequestReview v \<longrightarrow>
          (js_day t - 6) * 86400 \<le> time_unix (review_submitted_at v) \<and>
          time_unix (review_submitted_at v) \<le> js_day t * 86400))"
  by (rule last_days_report [OF assms])

text \<open>Carol's request on 15 May 2024 at noon.\<close>

theorem last_day_missing_witness:
  "\<exists>r s' evs e. run_state (ReportHandler_StreamReport demo_env (demo_port\<lparr>rp_registry := demo_registry\<rparr>)
      (Some \<lparr>rq_team_id = ''t-eng'', rq_member_id = [], rq_since = ''2024-05-09'', rq_until = ''2024-05-15'',
         rq_types = [''PR_REVIEW''], rq_report_type = []\<rparr>)
      (Some \<lparr>ctx_account_id = ''a-carol'', ctx_user_id = ''u-carol'', ctx_roles = []\<rparr>)) tokened = (r, s') \<and>
    resp_body r = EventStream (map (event_data (iter demo_env)) evs) e \<and>
    (\<forall>report a v. UserReportEvent report \<in> set evs \<and> a \<in> set (report_activities report) \<and> a = PullRequestReview v \<longrightarrow>
       time_unix (review_submitted_at v) \<le> 1715731200)"
proof -
  let ?req = "\<lparr>rq_team_id = ''t-eng'', rq_member_id = [], rq_since = ''2024-05-09'', rq_until = ''2024-05-15'',
    rq_types = [''PR_REVIEW''], rq_report_type = []\<rparr>"
  let ?ctx = "\<lparr>ctx_account_id = ''a-carol'', ctx_user_id = ''u-carol'', ctx_roles = []\<rparr>"
  let ?R = "demo_port\<lparr>rp_registry := demo_registry\<rparr>" and ?t = "1715774400000"
  obtain r s' where run: "run_state (ReportHandler_StreamReport demo_env ?R (Some ?req) (Some ?ctx)) tokened = (r, s')"
    by (metis surj_pair)
  have "Parse_Date ''2024-05-09'' \<noteq> None" "Parse_Date ''2024-05-15'' \<noteq> None" by code_simp+
  then have ok: "status r = 200"
    using run by (auto simp: ReportHandler_StreamReport_def NewSSEWriter_def demo_port_def split: prod.splits)
  have period: "(rq_since ?req, rq_until ?req) = resolvePeriod (fixed_zone 0) ?t ''last7''" by code_simp
  have years: "year (date_of_day (js_day ?t - 6 + unix_epoch_day)) = 2024"
    "year (date_of_day (js_day ?t + unix_epoch_day)) = 2024" "js_day ?t * 86400 = 1715731200"
    by code_simp+
  have registry: "rp_registry ?R = program_registry (\<lambda>key. []) demo_net demo_gh_json demo_gl_json (\<lambda>n. [0..<n])"
    by (simp add: demo_registry_def)
  from last_day_missing [OF period _ _ _ _ registry run ok, unfolded years] run show ?thesis
    by auto
qed

section \<open>Projects of web addresses\<close>

text \<open>The project of an issue or merge request: from an address of the form
  \<open>https://host/project/-/rest\<close> without escapes, query or fragment, \<open>extractProjectPath\<close> yields the
  project.\<close>

theorem project_of_address:
  assumes "plain_path host" "CHR ''/'' \<notin> set host" "authority_ok N host"
    and "plain_path project" "project \<noteq> []" "\<not> Contains (project @ ''/-'') ''/-/''" "plain_path rest"
  shows "extractProjectPath N (''https://'' @ host @ ''/'' @ project @ ''/-/'' @ rest) = Returned project"
  by (rule extractProjectPath_ok [OF assms])

theorem project_of_address_witness:
  "extractProjectPath demo_net (''https://'' @ ''gitlab.com'' @ ''/'' @ ''grp/sub/app'' @ ''/-/'' @ ''issues/7'')
     = Returned ''grp/sub/app''"
  by (rule project_of_address)
    (simp_all add: plain_path_def control_byte_def byte_def demo_net_def Contains_def HasPrefix_iff)

text \<open>C40. An issue without a web address crashes: when the first issue of the first page has an empty
  address, \<open>searchIssues\<close> slices an empty path and panics; nothing in the goroutine recovers.\<close>

theorem empty_address_panics:
  assumes "gl_GetAll N c (''/api/v4/issues?'' @ Values_Encode
      (created_params since until (Values_Set ''author_username'' u []))) = Returned (Inr (page # pages))"
    and "dec_gl_issues J page = Inr (issue # issues)" "gli_web_url issue = []"
  shows "gl_searchIssues N J c u since until rs = Panicked"
  by (rule gl_searchIssues_panics [OF assms])

theorem empty_address_panics_witness:
  "gl_searchIssues demo_net (demo_gl_json\<lparr>dec_gl_issues := (\<lambda>page. Inr [\<lparr>gli_id = 1, gli_iid = 1,
      gli_title = ''t'', gli_state = ''opened'', gli_web_url = [], gli_created_at = demo_time, gli_labels = []\<rparr>])\<rparr>)
      (NewApiClient ''https://gitlab.com'' ''glpat'') ''alice-gl'' demo_time demo_time [] = Panicked"
proof -
  have "gl_GetAll demo_net (NewApiClient ''https://gitlab.com'' ''glpat'') (CHR ''/'' # url) = Returned (Inr [''page''])" for url
    using demo_pages(1) by (simp add: gl_GetAll_def full_url_def NewApiClient_def TrimRight_def HasPrefix_iff)
  then show ?thesis
    using empty_address_panics [where pages = "[]" and issues = "[]" and issue = "\<lparr>gli_id = 1, gli_iid = 1,
      gli_title = ''t'', gli_state = ''opened'', gli_web_url = [], gli_created_at = demo_time, gli_labels = []\<rparr>"]
    by simp
qed

end
