(* ===== verification/Interleaving.thy ===== *)
theory Interleaving
  imports Persistence
begin

text \<open>
  Requests at the same time. The server runs every request in a goroutine of its own, and no
  handler holds a transaction or a lock across its statements: between two statements of one
  request the statements of another may run. Such a handler is a script, whose turns are its
  statements (a transaction is one turn); \<open>alone\<close> runs a script with the store to itself.
  \<open>request_step\<close> lets one of several requests take its next turn on the common store. Reasoning
  is by rely and guarantee: \<open>fits R I Q p s\<close> says that the script \<open>p\<close>, resumed after \<open>s\<close> in any
  store that steps of \<open>R\<close> lead to, keeps \<open>I\<close>, makes only steps of \<open>R\<close> itself, and ends with \<open>Q\<close>.
\<close>

section \<open>Scripts\<close>

datatype 'a script =
    Ended 'a
  | Turn "(db, 'a script) state"

definition stmt :: "(db, 'a) state \<Rightarrow> 'a script" where
  "stmt m = Turn (state.map_state Ended m)"

primrec andthen :: "'a script \<Rightarrow> ('a \<Rightarrow> 'b script) \<Rightarrow> 'b script" where
  "andthen (Ended a) k = k a"
| "andthen (Turn m) k = Turn (state.map_state (\<lambda>p. andthen p k) m)"

definition join :: "(db, (db, 'a) state) state \<Rightarrow> (db, 'a) state" where
  "join m = do { n \<leftarrow> m; n }"

text \<open>A script with the store to itself.\<close>

primrec alone :: "'a script \<Rightarrow> (db, 'a) state" where
  "alone (Ended a) = State_Monad.return a"
| "alone (Turn m) = join (state.map_state alone m)"

lemma run_map [simp]: "run_state (state.map_state f m) s = map_prod f id (run_state m s)"
  by (cases m) simp

lemma run_join [simp]: "run_state (join m) s = (case run_state m s of (n, s') \<Rightarrow> run_state n s')"
  by (simp add: join_def)

lemma alone_stmt [simp]: "alone (stmt m) = m"
  by (rule state_ext) (simp add: stmt_def map_prod_def case_prod_unfold)

lemma alone_andthen [simp]: "alone (andthen p k) = do { a \<leftarrow> alone p; alone (k a) }"
proof (induction p)
  case (Turn m)
  show ?case
  proof (rule state_ext)
    fix s
    obtain p s' where m: "run_state m s = (p, s')" by fastforce
    then have "p \<in> set_state m" by (auto simp: set_state_iff)
    from Turn [OF this] show "run_state (alone (andthen (Turn m) k)) s =
        run_state (alone (Turn m) \<bind> (\<lambda>a. alone (k a))) s"
      by (simp add: m)
  qed
qed simp

text \<open>The forms of \<open>Prelude\<close> and \<open>Persistence\<close>, on scripts.\<close>

definition checked :: "'a result script \<Rightarrow> ('a \<Rightarrow> 'b result script) \<Rightarrow> 'b result script" where
  "checked p k = andthen p (\<lambda>r. case r of Inl e \<Rightarrow> Ended (Inl e) | Inr x \<Rightarrow> k x)"

fun script_map_each :: "('a \<Rightarrow> 'b result script) \<Rightarrow> 'a list \<Rightarrow> 'b list result script" where
  "script_map_each f [] = Ended (Inr [])"
| "script_map_each f (x # xs) = checked (f x) (\<lambda>y.
     checked (script_map_each f xs) (\<lambda>ys. Ended (Inr (y # ys))))"

fun script_do_each :: "('a \<Rightarrow> 'b script) \<Rightarrow> 'a list \<Rightarrow> unit script" where
  "script_do_each f [] = Ended ()"
| "script_do_each f (x # xs) = andthen (f x) (\<lambda>_. script_do_each f xs)"

fun script_map_state :: "('a \<Rightarrow> 'b script) \<Rightarrow> 'a list \<Rightarrow> 'b list script" where
  "script_map_state f [] = Ended []"
| "script_map_state f (x # xs) = andthen (f x) (\<lambda>y. andthen (script_map_state f xs) (\<lambda>ys. Ended (y # ys)))"

definition wrapped :: "string \<Rightarrow> 'a result script \<Rightarrow> 'a result script" where
  "wrapped msg p = andthen p (\<lambda>r. Ended (case r of Inl e \<Rightarrow> Inl (Errorf msg e) | Inr x \<Rightarrow> Inr x))"

lemma alone_case_sum [simp]:
  "alone (case r of Inl e \<Rightarrow> f e | Inr x \<Rightarrow> g x) = (case r of Inl e \<Rightarrow> alone (f e) | Inr x \<Rightarrow> alone (g x))"
  by (cases r) simp_all

lemma alone_case_option [simp]:
  "alone (case r of None \<Rightarrow> p | Some x \<Rightarrow> g x) = (case r of None \<Rightarrow> alone p | Some x \<Rightarrow> alone (g x))"
  by (cases r) simp_all

lemma alone_if [simp]: "alone (if b then p else q) = (if b then alone p else alone q)"
  by simp

lemma alone_checked [simp]: "alone (checked p k) = check_err (alone p) (\<lambda>x. alone (k x))"
  by (rule state_ext) (simp add: checked_def check_err_def split: prod.splits sum.splits)

lemma alone_map_each [simp]: "alone (script_map_each f xs) = map_each (\<lambda>x. alone (f x)) xs"
  by (induction xs) (auto intro!: state_ext simp: check_err_def split: prod.splits sum.splits)

lemma alone_do_each [simp]: "alone (script_do_each f xs) = do_each (\<lambda>x. alone (f x)) xs"
  by (induction xs) simp_all


lemma alone_map_state [simp]: "alone (script_map_state f xs) = map_state (\<lambda>x. alone (f x)) xs"
  by (induction xs) simp_all

lemma alone_wrapped [simp]: "alone (wrapped msg p) = wrapf msg (alone p)"
  by (simp add: wrapped_def wrapf_def)

lemma alone_let [simp]: "alone (let x = t in f x) = (let x = t in alone (f x))"
  by simp

section \<open>Several requests\<close>

inductive request_step :: "'a script list \<times> db \<Rightarrow> 'a script list \<times> db \<Rightarrow> bool" where
  turn: "\<lbrakk>i < length ps; ps ! i = Turn m; run_state m s = (p, s')\<rbrakk>
    \<Longrightarrow> request_step (ps, s) (ps[i := p], s')"

inductive_cases request_stepE: "request_step (ps, s) c"

text \<open>A request may take all its turns at once: every sequential order is an interleaving. It may also
  stop between the parts of \<open>andthen\<close>.\<close>

lemma prefix_first:
  assumes "i < length ps" "ps ! i = andthen p k" "run_state (alone p) s = (a, s')"
  shows "request_step\<^sup>*\<^sup>* (ps, s) (ps[i := k a], s')"
  using assms
proof (induction p arbitrary: ps s)
  case (Ended b)
  then show ?case by (metis (no_types) alone.simps(1) andthen.simps(1) list_update_id prod.inject
      rtranclp.rtrancl_refl run_state_return)
next
  case (Turn m)
  obtain p s1 where m: "run_state m s = (p, s1)" by fastforce
  then have p: "p \<in> set_state m" by (auto simp: set_state_iff)
  have "request_step (ps, s) (ps[i := andthen p k], s1)"
    using request_step.turn [of i ps "state.map_state (\<lambda>p. andthen p k) m" s "andthen p k" s1] Turn.prems m
    by simp
  moreover have "request_step\<^sup>*\<^sup>* (ps[i := andthen p k], s1) (ps[i := andthen p k, i := k a], s')"
    using Turn.prems m by (intro Turn.IH [OF p]) simp_all
  ultimately show ?case by (simp add: converse_rtranclp_into_rtranclp)
qed

lemma andthen_assoc: "andthen (andthen p f) g = andthen p (\<lambda>a. andthen (f a) g)"
  by (induction p) (auto simp: state.map_comp comp_def cong: state.map_cong)

lemma run_first:
  assumes "i < length ps" "run_state (alone (ps ! i)) s = (a, s')"
  shows "request_step\<^sup>*\<^sup>* (ps, s) (ps[i := Ended a], s')"
proof -
  have "andthen p Ended = p" for p :: "'a script"
    by (induction p) (simp_all add: state.map_ident_strong)
  then show ?thesis using prefix_first [of i ps "ps ! i" Ended s a s'] assms by simp
qed

section \<open>Rely and guarantee\<close>

inductive fits :: "(db \<Rightarrow> db \<Rightarrow> bool) \<Rightarrow> (db \<Rightarrow> bool) \<Rightarrow> ('a \<Rightarrow> db \<Rightarrow> bool) \<Rightarrow> 'a script \<Rightarrow> db \<Rightarrow> bool"
  for R I Q where
  ended: "(\<And>s'. R\<^sup>*\<^sup>* s s' \<Longrightarrow> I s' \<Longrightarrow> Q a s') \<Longrightarrow> fits R I Q (Ended a) s"
| turn: "(\<And>s' p s''. R\<^sup>*\<^sup>* s s' \<Longrightarrow> I s' \<Longrightarrow> run_state m s' = (p, s'') \<Longrightarrow>
     R\<^sup>*\<^sup>* s' s'' \<and> I s'' \<and> fits R I Q p s'') \<Longrightarrow> fits R I Q (Turn m) s"

inductive_cases fits_EndedE: "fits R I Q (Ended a) s"
inductive_cases fits_TurnE: "fits R I Q (Turn m) s"


lemma fits_later: "fits R I Q p s \<Longrightarrow> R\<^sup>*\<^sup>* s s' \<Longrightarrow> fits R I Q p s'"
  by (cases p) (auto intro!: fits.intros elim!: fits_EndedE fits_TurnE dest: rtranclp_trans)

lemma fits_stmt:
  assumes "\<And>s' a s''. R\<^sup>*\<^sup>* s s' \<Longrightarrow> I s' \<Longrightarrow> run_state m s' = (a, s'') \<Longrightarrow>
    R\<^sup>*\<^sup>* s' s'' \<and> I s'' \<and> (\<forall>t. R\<^sup>*\<^sup>* s'' t \<longrightarrow> I t \<longrightarrow> Q a t)"
  shows "fits R I Q (stmt m) s"
  unfolding stmt_def
proof (rule fits.turn)
  fix s' p s''
  assume s': "R\<^sup>*\<^sup>* s s'" "I s'" and "run_state (state.map_state Ended m) s' = (p, s'')"
  then obtain a where a: "run_state m s' = (a, s'')" "p = Ended a"
    by (cases "run_state m s'") auto
  show "R\<^sup>*\<^sup>* s' s'' \<and> I s'' \<and> fits R I Q p s''"
    using assms [OF s' a(1)] unfolding a(2) by (blast intro: fits.ended)
qed

lemma fits_andthen:
  assumes "fits R I P p s" "I s"
    and "\<And>a t. R\<^sup>*\<^sup>* s t \<Longrightarrow> I t \<Longrightarrow> P a t \<Longrightarrow> fits R I Q (k a) t"
  shows "fits R I Q (andthen p k) s"
  using assms
proof induction
  case (ended s a)
  then show ?case by simp
next
  case (turn s m)
  show ?case unfolding andthen.simps
  proof (rule fits.turn)
    fix s' q s''
    assume s': "R\<^sup>*\<^sup>* s s'" "I s'" and "run_state (state.map_state (\<lambda>p. andthen p k) m) s' = (q, s'')"
    then obtain p where p: "run_state m s' = (p, s'')" "q = andthen p k"
      by (cases "run_state m s'") auto
    then have "R\<^sup>*\<^sup>* s' s''" "I s''" and ih: "\<And>a t. R\<^sup>*\<^sup>* s'' t \<Longrightarrow> I t \<Longrightarrow> P a t \<Longrightarrow> fits R I Q (k a) t"
      using turn(1) [OF s' p(1)] turn(3) s' by (blast intro: rtranclp_trans)+
    with turn(1) [OF s' p(1)] show "R\<^sup>*\<^sup>* s' s'' \<and> I s'' \<and> fits R I Q q s''"
      unfolding p(2) by blast
  qed
qed

lemma fits_checked:
  assumes "fits R I P p s" "I s"
    and "\<And>x t. R\<^sup>*\<^sup>* s t \<Longrightarrow> I t \<Longrightarrow> P (Inr x) t \<Longrightarrow> fits R I Q (k x) t"
    and "\<And>e t. R\<^sup>*\<^sup>* s t \<Longrightarrow> I t \<Longrightarrow> Q (Inl e) t"
  shows "fits R I Q (checked p k) s"
  unfolding checked_def
proof (rule fits_andthen [OF assms(1,2)])
  fix r t
  assume t: "R\<^sup>*\<^sup>* s t" "I t" "P r t"
  show "fits R I Q (case r of Inl e \<Rightarrow> Ended (Inl e) | Inr x \<Rightarrow> k x) t"
  proof (cases r)
    case (Inl e)
    then show ?thesis using assms(4) t(1) by (auto intro!: fits.ended dest: rtranclp_trans)
  qed (use assms(3) t in auto)
qed

lemma fits_weaken:
  assumes "fits R I P p s" "\<And>a t. R\<^sup>*\<^sup>* s t \<Longrightarrow> I t \<Longrightarrow> P a t \<Longrightarrow> Q a t"
  shows "fits R I Q p s"
  using assms
proof induction
  case (ended s a)
  then show ?case by (intro fits.ended) simp
next
  case (turn s m)
  show ?case
  proof (rule fits.turn)
    fix s' p s''
    assume s': "R\<^sup>*\<^sup>* s s'" "I s'" "run_state m s' = (p, s'')"
    from turn(1) [OF this] have "R\<^sup>*\<^sup>* s s''" using s'(1) by (metis rtranclp_trans)
    then have "P a t \<Longrightarrow> Q a t" if "R\<^sup>*\<^sup>* s'' t" "I t" for a t
      using turn(2) that rtranclp_trans by metis
    with turn(1) [OF s'] show "R\<^sup>*\<^sup>* s' s'' \<and> I s'' \<and> fits R I Q p s''" by blast
  qed
qed

text \<open>Requests that fit together: each keeps to what the others rely on.\<close>

definition all_fit :: "(db \<Rightarrow> db \<Rightarrow> bool) \<Rightarrow> (db \<Rightarrow> bool) \<Rightarrow> (nat \<Rightarrow> 'a \<Rightarrow> db \<Rightarrow> bool) \<Rightarrow> 'a script list \<times> db \<Rightarrow> bool" where
  "all_fit R I Q c \<longleftrightarrow> I (snd c) \<and> (\<forall>i<length (fst c). fits R I (Q i) (fst c ! i) (snd c))"

lemma all_fit_step:
  assumes "request_step c c'" "all_fit R I Q c"
  shows "all_fit R I Q c' \<and> R\<^sup>*\<^sup>* (snd c) (snd c') \<and> length (fst c') = length (fst c)"
  using assms
proof cases
  case (turn i ps m s p s')
  then have "I s" "fits R I (Q i) (Turn m) s"
    using assms(2) by (auto simp: all_fit_def dest!: spec [of _ i])
  then have "R\<^sup>*\<^sup>* s s' \<and> I s' \<and> fits R I (Q i) p s'"
    using turn(5) by (blast elim: fits_TurnE)
  moreover have "\<forall>j<length ps. fits R I (Q j) (ps ! j) s"
    using assms(2) turn(1) by (simp add: all_fit_def)
  ultimately have "fits R I (Q j) (ps[i := p] ! j) s'" if "j < length ps" for j
    using fits_later that by (cases "j = i") (simp_all, blast)
  with \<open>R\<^sup>*\<^sup>* s s' \<and> I s' \<and> fits R I (Q i) p s'\<close> show ?thesis
    unfolding turn(1,2) by (simp add: all_fit_def)
qed

lemma all_fit_run:
  assumes "request_step\<^sup>*\<^sup>* c c'" "all_fit R I Q c"
  shows "all_fit R I Q c' \<and> R\<^sup>*\<^sup>* (snd c) (snd c') \<and> length (fst c') = length (fst c)"
  using assms
proof induction
  case (step c' c'')
  then show ?case using all_fit_step [OF step.hyps(2)] by (metis rtranclp_trans)
qed simp

lemma all_fit_ended:
  assumes "all_fit R I Q c" "i < length (fst c)" "fst c ! i = Ended a"
  shows "Q i a (snd c)"
proof -
  from assms have "fits R I (Q i) (Ended a) (snd c)" "I (snd c)"
    unfolding all_fit_def by metis+
  then show ?thesis by (blast elim: fits_EndedE)
qed


section \<open>Invariants of every turn\<close>

text \<open>The simplest contract: nothing is relied on but \<open>I\<close>, which every turn keeps.\<close>

definition every_turn :: "(db \<Rightarrow> bool) \<Rightarrow> 'a script \<Rightarrow> bool" where
  "every_turn I p \<longleftrightarrow> (\<forall>s. I s \<longrightarrow> fits (\<lambda>s t. True) I (\<lambda>a t. True) p s)"

named_theorems turn_rules \<open>rules that carry an invariant through the turns of a script\<close>

lemma every_turn_ended [turn_rules]: "every_turn I (Ended a)"
  by (simp add: every_turn_def fits.ended)

lemma every_turn_stmt [turn_rules]:
  assumes "keeps I m"
  shows "every_turn I (stmt m)"
  unfolding every_turn_def
  by (intro allI impI fits_stmt) (use assms in \<open>blast dest: keeps_run\<close>)

lemma every_turn_andthen [turn_rules]:
  assumes "every_turn I p" "\<And>a. every_turn I (k a)"
  shows "every_turn I (andthen p k)"
  using assms unfolding every_turn_def by (intro allI impI fits_andthen) blast+

lemma every_turn_case_sum [turn_rules]:
  "(\<And>e. every_turn I (f e)) \<Longrightarrow> (\<And>x. every_turn I (g x))
   \<Longrightarrow> every_turn I (case r of Inl e \<Rightarrow> f e | Inr x \<Rightarrow> g x)"
  by (cases r) auto

lemma every_turn_case_option [turn_rules]:
  "every_turn I p \<Longrightarrow> (\<And>x. every_turn I (g x)) \<Longrightarrow> every_turn I (case r of None \<Rightarrow> p | Some x \<Rightarrow> g x)"
  by (cases r) auto

lemma every_turn_if [turn_rules]: "every_turn I p \<Longrightarrow> every_turn I q \<Longrightarrow> every_turn I (if b then p else q)"
  by simp

lemma every_turn_let [turn_rules]: "(\<And>x. every_turn I (f x)) \<Longrightarrow> every_turn I (let x = t in f x)"
  by simp

lemma every_turn_checked [turn_rules]:
  "every_turn I p \<Longrightarrow> (\<And>x. every_turn I (k x)) \<Longrightarrow> every_turn I (checked p k)"
  unfolding checked_def by (intro turn_rules)

lemma every_turn_map_each [turn_rules]: "(\<And>x. every_turn I (f x)) \<Longrightarrow> every_turn I (script_map_each f xs)"
  by (induction xs) (auto intro!: turn_rules)

lemma every_turn_do_each [turn_rules]: "(\<And>x. every_turn I (f x)) \<Longrightarrow> every_turn I (script_do_each f xs)"
  by (induction xs) (auto intro!: turn_rules)

lemma every_turn_map_state [turn_rules]: "(\<And>x. every_turn I (f x)) \<Longrightarrow> every_turn I (script_map_state f xs)"
  by (induction xs) (auto intro!: turn_rules)

lemma every_turn_wrapped [turn_rules]: "every_turn I p \<Longrightarrow> every_turn I (wrapped msg p)"
  unfolding wrapped_def by (intro turn_rules)

lemma every_turn_run:
  assumes "request_step\<^sup>*\<^sup>* (ps, s) (ps', s')" "\<And>p. p \<in> set ps \<Longrightarrow> every_turn I p" "I s"
  shows "I s'"
proof -
  have "all_fit (\<lambda>s t. True) I (\<lambda>i a t. True) (ps, s)"
    using assms(2,3) by (simp add: all_fit_def every_turn_def)
  from all_fit_run [OF assms(1) this] show ?thesis by (simp add: all_fit_def)
qed

end
