(* ===== verification/Concurrent_Admin.thy ===== *)
theory Concurrent_Admin
  imports Interleaving Admin_Steps Router_Facts
begin

text \<open>
  The requests of \<open>presentation/admin_handler.go\<close> that change the organisation, statement by
  statement, with the branches of \<open>Admin\<close>: alone, each script is the handler. Whatever the
  interleaving and whatever faults the database has, an invariant of the program's statements
  holds at every moment; while nothing is removed, leaders stay members, teams stay led and every answer of success is true
  at the end; and two removals at the same time leave a team without a leader, which no order
  of the two, one after the other, does.
\<close>

section \<open>The repositories, turn by turn\<close>

definition loadRelations_turns :: "team_row \<Rightarrow> team result script" where
  "loadRelations_turns t =
     checked (stmt (loadLeaderIDs (tr_id t))) (\<lambda>leaderIDs.
     checked (stmt (loadMemberIDs (tr_id t))) (\<lambda>memberIDs.
     checked (stmt (loadRepositoryIDs (tr_id t))) (\<lambda>repoIDs.
     Ended (Inr \<lparr>team_id = tr_id t, team_name = tr_name t,
       team_leader_ids = leaderIDs, team_member_ids = memberIDs,
       team_repository_ids = repoIDs\<rparr>))))"

definition FindTeamByID_turns :: "string \<Rightarrow> team result script" where
  "FindTeamByID_turns tid =
     checked (stmt (wrapf ''find team by id'' (query_row (\<lambda>s. by_key tr_id tid (teams_table s)))))
       loadRelations_turns"

definition FindTeamsByMemberID_turns :: "string \<Rightarrow> team list result script" where
  "FindTeamsByMemberID_turns uid =
     checked (stmt (query_rows ''find teams by member'' ''scan team''
         (\<lambda>s. [t. t \<leftarrow> teams_table s, p \<leftarrow> members_table s, tr_id t = fst p \<and> snd p = uid])))
       (script_map_each loadRelations_turns)"

definition FindAllTeams_turns :: "env \<Rightarrow> team list result script" where
  "FindAllTeams_turns E =
     checked (stmt (query_rows ''find all teams'' ''scan team''
         (\<lambda>s. order_by (collate E) tr_name (teams_table s))))
       (script_map_each loadRelations_turns)"

definition RemoveMember_turns :: "string \<Rightarrow> string \<Rightarrow> unit result script" where
  "RemoveMember_turns tid uid =
     checked (stmt (wrapf ''check leader status'' (query_row (\<lambda>s. [(tid, uid) \<in> set (leaders_table s)])))) (\<lambda>isLeader.
     if isLeader then Ended (Inl (Msg
       ''cannot remove a team leader from members; remove leadership first''))
     else stmt (wrapf ''remove member from team'' (exec_sql (sql_remove_member tid uid))))"

definition RemoveLeader_turns :: "string \<Rightarrow> string \<Rightarrow> unit result script" where
  "RemoveLeader_turns tid uid =
     checked (stmt (wrapf ''count leaders'' (query_row (\<lambda>s. [length (linked (leaders_table s) tid)])))) (\<lambda>count.
     if count \<le> 1 then Ended (Inl (Msg ''cannot remove the last leader of a team''))
     else stmt (wrapf ''remove leader from team'' (exec_sql (sql_remove_leader tid uid))))"

definition FindUserByID_turns :: "string \<Rightarrow> user result script" where
  "FindUserByID_turns uid =
     checked (stmt (wrapf ''find user by id'' (query_row (\<lambda>s. by_key ur_id uid (users_table s))))) (\<lambda>r.
     checked (stmt (loadPlatformUsernames (ur_id r))) (\<lambda>ps.
     Ended (Inr (user_of_row r ps))))"

lemma alone_loadRelations [simp]: "alone (loadRelations_turns t) = loadRelations t"
  by (simp add: loadRelations_turns_def loadRelations_def)

lemma alone_methods [simp]:
  "alone (FindTeamByID_turns t) = TeamRepo_FindByID t"
  "alone (FindTeamsByMemberID_turns u) = TeamRepo_FindByMemberID u"
  "alone (FindAllTeams_turns E) = TeamRepo_FindAll E"
  "alone (RemoveMember_turns t u) = TeamRepo_RemoveMember t u"
  "alone (RemoveLeader_turns t u) = TeamRepo_RemoveLeader t u"
  "alone (FindUserByID_turns u) = UserRepo_FindByID u"
  by (simp_all add: FindTeamByID_turns_def FindTeamsByMemberID_turns_def FindAllTeams_turns_def
      RemoveMember_turns_def RemoveLeader_turns_def FindUserByID_turns_def load_user_def [abs_def]
      TeamRepo_FindByID_def TeamRepo_FindByMemberID_def TeamRepo_FindAll_def
      TeamRepo_RemoveMember_def TeamRepo_RemoveLeader_def UserRepo_FindByID_def cong: if_cong)

section \<open>The handlers, turn by turn\<close>

definition ensureLeaderRole_turns :: "env \<Rightarrow> string \<Rightarrow> unit script" where
  "ensureLeaderRole_turns E uid = andthen (stmt (AccountRepo_FindAll E)) (\<lambda>r.
     case r of
       Inl err \<Rightarrow> Ended ()
     | Inr accounts \<Rightarrow>
         (case List.find (\<lambda>a. account_user_id a = uid) accounts of
            None \<Rightarrow> Ended ()
          | Some a \<Rightarrow>
              if \<not> map_flag (account_roles a) RoleTeamLeader
              then andthen (stmt (AccountRepo_Save E
                (a\<lparr>account_roles := map_put RoleTeamLeader True (account_roles a)\<rparr>))) (\<lambda>_. Ended ())
              else Ended ()))"

definition removeLeaderRole_turns :: "env \<Rightarrow> string \<Rightarrow> unit script" where
  "removeLeaderRole_turns E uid = andthen (FindAllTeams_turns E) (\<lambda>rt.
     case rt of
       Inl err \<Rightarrow> Ended ()
     | Inr teams \<Rightarrow>
         if \<exists>t\<in>set teams. uid \<in> set (team_leader_ids t) then Ended ()
         else andthen (stmt (AccountRepo_FindAll E)) (\<lambda>r.
           case r of
             Inl err \<Rightarrow> Ended ()
           | Inr accounts \<Rightarrow>
               (case List.find (\<lambda>a. account_user_id a = uid \<and>
                   map_flag (account_roles a) RoleTeamLeader) accounts of
                  None \<Rightarrow> Ended ()
                | Some a \<Rightarrow> andthen (stmt (AccountRepo_Save E
                    (a\<lparr>account_roles := map_delete RoleTeamLeader (account_roles a)\<rparr>))) (\<lambda>_. Ended ()))))"

definition CreateUser_turns :: "env \<Rightarrow> string \<Rightarrow> string \<Rightarrow> create_user_request option \<Rightarrow> response script" where
  "CreateUser_turns E uuid1 uuid2 body =
     (case body of
        None \<Rightarrow> Ended (writeError 400 ''invalid request body'')
      | Some req \<Rightarrow>
          if cu_username req = [] \<or> cu_password req = [] \<or> cu_display_name req = []
          then Ended (writeError 400 ''username, displayName, and password are required'')
          else
            let req_roles = (if cu_roles req = [] then [RoleTeamMember] else cu_roles req) in
            (case bcrypt_hash E (cu_password req) of
               None \<Rightarrow> Ended (writeError 500 ''failed to hash password'')
             | Some hash \<Rightarrow>
                 let userID = ''u-'' @ take 8 uuid1; accountID = ''a-'' @ take 8 uuid2 in
                 andthen (stmt (UserRepo_Save \<lparr>user_id = userID, user_username = cu_username req,
                   user_display_name = cu_display_name req, user_email = cu_email req,
                   user_avatar_url = [], user_platform_usernames = []\<rparr>)) (\<lambda>ru.
                 case ru of
                   Inl err \<Rightarrow> Ended (writeError 500 ''failed to create user'')
                 | Inr _ \<Rightarrow> andthen (stmt (AccountRepo_Save E \<lparr>account_id = accountID,
                       account_username = cu_username req, account_password_hash = hash,
                       account_roles = role_set req_roles [], account_user_id = userID\<rparr>)) (\<lambda>ra.
                     case ra of
                       Inl err \<Rightarrow> andthen (stmt (UserRepo_Delete userID)) (\<lambda>_.
                         Ended (writeError 500 ''failed to create account''))
                     | Inr _ \<Rightarrow> Ended (writeJSON 201 (AdminUserBody \<lparr>au_id = userID,
                         au_username = cu_username req, au_display_name = cu_display_name req,
                         au_email = cu_email req, au_roles = req_roles, au_teams = []\<rparr>))))))"

definition DeleteUser_turns :: "string \<Rightarrow> response script" where
  "DeleteUser_turns userID = andthen (FindTeamsByMemberID_turns userID) (\<lambda>rt.
     case (case rt of Inl err \<Rightarrow> None | Inr teams \<Rightarrow> only_leader_of userID teams) of
       Some t \<Rightarrow> Ended (writeError 400
         (''user is the only leader of team '' @ team_name t @ ''; reassign leadership first''))
     | None \<Rightarrow> andthen (stmt (AccountRepo_Delete userID)) (\<lambda>ra.
         case ra of
           Inl err \<Rightarrow> Ended (writeError 500 ''failed to delete account'')
         | Inr _ \<Rightarrow> andthen (stmt (UserRepo_Delete userID)) (\<lambda>ru.
             Ended (case ru of
               Inl err \<Rightarrow> writeError 500 ''failed to delete user''
             | Inr _ \<Rightarrow> write_status ''deleted''))))"

definition CreateTeam_turns :: "env \<Rightarrow> string \<Rightarrow> create_team_request option \<Rightarrow> response script" where
  "CreateTeam_turns E uuid body =
     (case body of
        None \<Rightarrow> Ended (writeError 400 ''invalid request body'')
      | Some req \<Rightarrow>
          if ct_name req = [] \<or> ct_leader_id req = []
          then Ended (writeError 400 ''name and leaderId are required'')
          else andthen (FindUserByID_turns (ct_leader_id req)) (\<lambda>rl.
            case rl of
              Inl err \<Rightarrow> Ended (writeError 400 ''leader user not found'')
            | Inr leader \<Rightarrow>
                let teamID = ''t-'' @ take 8 uuid in
                andthen (stmt (TeamRepo_Save \<lparr>team_id = teamID, team_name = ct_name req,
                  team_leader_ids = [ct_leader_id req], team_member_ids = [ct_leader_id req],
                  team_repository_ids = []\<rparr>)) (\<lambda>r.
                case r of
                  Inl err \<Rightarrow> Ended (writeError 500 ''failed to create team'')
                | Inr _ \<Rightarrow> andthen (ensureLeaderRole_turns E (ct_leader_id req)) (\<lambda>_.
                    Ended (writeJSON 201 (TeamSummaryBody \<lparr>ts_id = teamID, ts_name = ct_name req,
                      ts_leader_ids = [ct_leader_id req]\<rparr>))))))"

definition DeleteTeam_turns :: "env \<Rightarrow> string \<Rightarrow> response script" where
  "DeleteTeam_turns E teamID = andthen (FindTeamByID_turns teamID) (\<lambda>rt.
     case rt of
       Inl err \<Rightarrow> Ended (writeError 404 ''team not found'')
     | Inr team \<Rightarrow> andthen (stmt (TeamRepo_Delete teamID)) (\<lambda>r.
         case r of
           Inl err \<Rightarrow> Ended (writeError 500 ''failed to delete team'')
         | Inr _ \<Rightarrow> andthen (script_do_each (removeLeaderRole_turns E) (team_leader_ids team)) (\<lambda>_.
             Ended (write_status ''deleted''))))"

definition AddMember_turns :: "string \<Rightarrow> string option \<Rightarrow> response script" where
  "AddMember_turns teamID body =
     (case body of
        None \<Rightarrow> Ended (writeError 400 ''invalid request body'')
      | Some userID \<Rightarrow>
          if userID = [] then Ended (writeError 400 ''userId is required'')
          else andthen (stmt (TeamRepo_AddMember teamID userID)) (\<lambda>r.
            Ended (case r of
              Inl err \<Rightarrow> writeError 500 ''failed to add member''
            | Inr _ \<Rightarrow> write_status ''added'')))"

definition RemoveMember_request_turns :: "env \<Rightarrow> string \<Rightarrow> string \<Rightarrow> response script" where
  "RemoveMember_request_turns E teamID userID = andthen (RemoveMember_turns teamID userID) (\<lambda>r.
     Ended (case r of
       Inl err \<Rightarrow>
         if Contains (error_text (drv_text E) err) ''leader''
         then writeError 400 (error_text (drv_text E) err)
         else writeError 500 ''failed to remove member''
     | Inr _ \<Rightarrow> write_status ''removed''))"

definition AddLeader_turns :: "env \<Rightarrow> string \<Rightarrow> string option \<Rightarrow> response script" where
  "AddLeader_turns E teamID body =
     (case body of
        None \<Rightarrow> Ended (writeError 400 ''invalid request body'')
      | Some userID \<Rightarrow>
          if userID = [] then Ended (writeError 400 ''userId is required'')
          else andthen (FindTeamByID_turns teamID) (\<lambda>rt.
            case rt of
              Inl err \<Rightarrow> Ended (writeError 404 ''team not found'')
            | Inr team \<Rightarrow>
                if userID \<notin> set (team_member_ids team)
                then Ended (writeError 400 ''user must be a member of the team first'')
                else andthen (stmt (TeamRepo_AddLeader teamID userID)) (\<lambda>r.
                  case r of
                    Inl err \<Rightarrow> Ended (writeError 500 ''failed to add leader'')
                  | Inr _ \<Rightarrow> andthen (ensureLeaderRole_turns E userID) (\<lambda>_.
                      Ended (write_status ''added'')))))"

definition RemoveLeader_request_turns :: "env \<Rightarrow> string \<Rightarrow> string \<Rightarrow> response script" where
  "RemoveLeader_request_turns E teamID userID = andthen (RemoveLeader_turns teamID userID) (\<lambda>r.
     case r of
       Inl err \<Rightarrow>
         if Contains (error_text (drv_text E) err) ''last leader''
         then Ended (writeError 400 (error_text (drv_text E) err))
         else Ended (writeError 500 ''failed to remove leader'')
     | Inr _ \<Rightarrow> andthen (removeLeaderRole_turns E userID) (\<lambda>_.
         Ended (write_status ''removed'')))"

text \<open>The requests that change the organisation, as scripts.\<close>

fun turns_of :: "env \<Rightarrow> api_request \<Rightarrow> response script option" where
  "turns_of E (Req_CreateUser uuid1 uuid2 b) = Some (CreateUser_turns E uuid1 uuid2 b)"
| "turns_of E (Req_DeleteUser u) = Some (DeleteUser_turns u)"
| "turns_of E (Req_CreateTeam uuid b) = Some (CreateTeam_turns E uuid b)"
| "turns_of E (Req_DeleteTeam t) = Some (DeleteTeam_turns E t)"
| "turns_of E (Req_AddMember t b) = Some (AddMember_turns t b)"
| "turns_of E (Req_RemoveMember t u) = Some (RemoveMember_request_turns E t u)"
| "turns_of E (Req_AddLeader t b) = Some (AddLeader_turns E t b)"
| "turns_of E (Req_RemoveLeader t u) = Some (RemoveLeader_request_turns E t u)"
| "turns_of E _ = None"


section \<open>A script alone is the handler\<close>

lemma alone_roles [simp]:
  "alone (ensureLeaderRole_turns E u) = ensureLeaderRole E u"
  "alone (removeLeaderRole_turns E u) = removeLeaderRoleIfOrphaned E u"
  by (auto intro!: state_ext simp: ensureLeaderRole_turns_def ensureLeaderRole_def
      removeLeaderRole_turns_def removeLeaderRoleIfOrphaned_def split: prod.splits sum.splits option.splits)

lemma alone_users:
  "alone (CreateUser_turns E uuid1 uuid2 b) = AdminHandler_CreateUser E uuid1 uuid2 b"
  "alone (DeleteUser_turns u) = AdminHandler_DeleteUser u"
  by (auto intro!: state_ext simp: CreateUser_turns_def AdminHandler_CreateUser_def DeleteUser_turns_def
      AdminHandler_DeleteUser_def Let_def split: prod.splits sum.splits option.splits)

lemma alone_teams:
  "alone (CreateTeam_turns E uuid c) = AdminHandler_CreateTeam E uuid c"
  "alone (DeleteTeam_turns E t) = AdminHandler_DeleteTeam E t"
  by (auto intro!: state_ext simp: CreateTeam_turns_def AdminHandler_CreateTeam_def DeleteTeam_turns_def
      AdminHandler_DeleteTeam_def Let_def split: prod.splits sum.splits option.splits)

lemma alone_links:
  "alone (AddMember_turns t b) = AdminHandler_AddMember t b"
  "alone (RemoveMember_request_turns E t u) = AdminHandler_RemoveMember E t u"
  "alone (AddLeader_turns E t b) = AdminHandler_AddLeader E t b"
  "alone (RemoveLeader_request_turns E t u) = AdminHandler_RemoveLeader E t u"
  by (auto intro!: state_ext simp: AddMember_turns_def AdminHandler_AddMember_def
      RemoveMember_request_turns_def AdminHandler_RemoveMember_def AddLeader_turns_def
      AdminHandler_AddLeader_def RemoveLeader_request_turns_def AdminHandler_RemoveLeader_def
      split: prod.splits sum.splits option.splits)

lemma turns_of_handle: "turns_of E req = Some p \<Longrightarrow> alone p = handle E R req actx"
  by (cases req) (auto simp: handle_def alone_users alone_teams alone_links)

section \<open>Invariants, whatever the interleaving\<close>

text \<open>An invariant that the statements of the program keep is kept by every turn of these requests.\<close>

context program_invariant
begin

lemma turns_methods [turn_rules]:
  "every_turn I (FindTeamByID_turns t)"
  "every_turn I (FindTeamsByMemberID_turns u)"
  "every_turn I (FindAllTeams_turns E)"
  "every_turn I (RemoveMember_turns t u)"
  "every_turn I (RemoveLeader_turns t u)"
  "every_turn I (FindUserByID_turns u)"
  unfolding FindTeamByID_turns_def FindTeamsByMemberID_turns_def FindAllTeams_turns_def
    RemoveMember_turns_def RemoveLeader_turns_def FindUserByID_turns_def loadRelations_turns_def
    loadLeaderIDs_def loadMemberIDs_def loadRepositoryIDs_def loadPlatformUsernames_def
  by (intro turn_rules keeps_rules keeps_statements)+

lemma turns_roles [turn_rules]:
  "every_turn I (ensureLeaderRole_turns E u)"
  "every_turn I (removeLeaderRole_turns E u)"
  unfolding ensureLeaderRole_turns_def removeLeaderRole_turns_def AccountRepo_FindAll_def
  by (intro turn_rules keeps_rules keeps_admin_writes)+

lemma turns_admin: "turns_of E req = Some p \<Longrightarrow> every_turn I p"
  by (cases req) (auto intro!: turn_rules keeps_admin_writes
      simp: CreateUser_turns_def DeleteUser_turns_def CreateTeam_turns_def DeleteTeam_turns_def
      AddMember_turns_def RemoveMember_request_turns_def AddLeader_turns_def RemoveLeader_request_turns_def)

end

section \<open>Two removals at the same time\<close>

text \<open>What is left of a removal once it has counted more than one leader.\<close>

definition counted_removal :: "env \<Rightarrow> string \<Rightarrow> string \<Rightarrow> response script" where
  "counted_removal E t u = andthen (stmt (wrapf ''remove leader from team'' (exec_sql (sql_remove_leader t u)))) (\<lambda>r.
     case r of
       Inl err \<Rightarrow>
         if Contains (error_text (drv_text E) err) ''last leader''
         then Ended (writeError 400 (error_text (drv_text E) err))
         else Ended (writeError 500 ''failed to remove leader'')
     | Inr _ \<Rightarrow> andthen (removeLeaderRole_turns E u) (\<lambda>_. Ended (write_status ''removed'')))"

lemma removal_counts: "\<exists>k. RemoveLeader_request_turns E t u =
    andthen (stmt (wrapf ''count leaders'' (query_row (\<lambda>s. [length (linked (leaders_table s) t)])))) k \<and>
    (\<forall>n>1. k (Inr n) = counted_removal E t u)"
  unfolding RemoveLeader_request_turns_def RemoveLeader_turns_def checked_def andthen_assoc
  by (rule exI, rule conjI, rule refl) (simp add: counted_removal_def)

lemma count_first:
  assumes "healthy s" "1 < length (linked (leaders_table s) t)"
    and "i < length ps" "ps ! i = RemoveLeader_request_turns E t u"
  shows "request_step\<^sup>*\<^sup>* (ps, s) (ps[i := counted_removal E t u], s)"
proof -
  from removal_counts [of E t u] obtain k where k: "RemoveLeader_request_turns E t u =
      andthen (stmt (wrapf ''count leaders'' (query_row (\<lambda>s. [length (linked (leaders_table s) t)])))) k"
    "\<forall>n>1. k (Inr n) = counted_removal E t u"
    by (elim exE conjE)
  have "run_state (alone (stmt (wrapf ''count leaders''
      (query_row (\<lambda>s. [length (linked (leaders_table s) t)]))))) s = (Inr (length (linked (leaders_table s) t)), s)"
    using assms(1) by (simp add: run_rules)
  from prefix_first [OF assms(3) trans [OF assms(4) k(1)] this] show ?thesis
    using assms(2) k(2) by simp
qed

lemma counted_removal_effect:
  assumes "sound_store s" "iteration_ok (iter E)"
  obtains s' where "run_state (alone (counted_removal E t u)) s = (write_status ''removed'', s')"
    "sound_store s'" "org_of s' = spec_remove_leader t u (org_of s)"
proof -
  obtain s1 where s1: "sql_remove_leader t u s = Inr s1"
    by (simp add: sql_remove_leader_def)
  obtain x s' where rem: "run_state (removeLeaderRoleIfOrphaned E u) s1 = (x, s')"
    by (rule prod.exhaust)
  have "run_state (alone (counted_removal E t u)) s = (write_status ''removed'', s')"
    using s1 rem sound_storeD(1) [OF assms(1)] by (simp add: counted_removal_def run_rules)
  with that show thesis
    using remove_refines [OF _ assms(2) rem] org_remove_leader [OF assms(1) s1]
    by (simp add: spec_remove_leader_def)
qed

lemma removals_race:
  assumes s: "sound_store s" "iteration_ok (iter E)" "1 < length (linked (leaders_table s) t)"
  obtains s' where
    "request_step\<^sup>*\<^sup>* ([RemoveLeader_request_turns E t u, RemoveLeader_request_turns E t v], s)
       ([Ended (write_status ''removed''), Ended (write_status ''removed'')], s')"
    "sound_store s'" "org_of s' = spec_remove_leader t v (spec_remove_leader t u (org_of s))"
proof -
  note h = sound_storeD(1) [OF s(1)]
  let ?p = "RemoveLeader_request_turns E t u" and ?q = "RemoveLeader_request_turns E t v"
  let ?ended = "Ended (write_status ''removed'')"
  obtain s1 where s1: "run_state (alone (counted_removal E t u)) s = (write_status ''removed'', s1)"
    "sound_store s1" "org_of s1 = spec_remove_leader t u (org_of s)"
    by (rule counted_removal_effect [OF s(1,2)])
  obtain s2 where s2: "run_state (alone (counted_removal E t v)) s1 = (write_status ''removed'', s2)"
    "sound_store s2" "org_of s2 = spec_remove_leader t v (org_of s1)"
    by (rule counted_removal_effect [OF s1(2) s(2)])
  have st1: "request_step\<^sup>*\<^sup>* ([?p, ?q], s) ([counted_removal E t u, ?q], s)"
    using count_first [OF h s(3), of 0 "[?p, ?q]" E u] by simp
  have st2: "request_step\<^sup>*\<^sup>* ([counted_removal E t u, ?q], s) ([counted_removal E t u, counted_removal E t v], s)"
    using count_first [OF h s(3), of 1 "[counted_removal E t u, ?q]" E v] by simp
  have st3: "request_step\<^sup>*\<^sup>* ([counted_removal E t u, counted_removal E t v], s) ([?ended, counted_removal E t v], s1)"
    using run_first [of 0 "[counted_removal E t u, counted_removal E t v]" s "write_status ''removed''" s1] s1(1) by simp
  have st4: "request_step\<^sup>*\<^sup>* ([?ended, counted_removal E t v], s1) ([?ended, ?ended], s2)"
    using run_first [of 1 "[?ended, counted_removal E t v]" s1 "write_status ''removed''" s2] s2(1) by simp
  show thesis
    using that [OF rtranclp_trans [OF rtranclp_trans [OF rtranclp_trans [OF st1 st2] st3] st4]] s2(2,3)
    by (simp add: s1(3))
qed

text \<open>One after the other, a team that is led stays led.\<close>

lemma removal_leaves_leader:
  assumes "sound_store s" "iteration_ok (iter E)" "run_state (AdminHandler_RemoveLeader E t u) s = (r, s')"
    and "(t, w) \<in> set (leaders_table s)"
  shows "sound_store s' \<and> (\<exists>w. (t, w) \<in> set (leaders_table s'))"
proof (cases "status r = 200")
  case True
  then obtain v where v: "v \<noteq> u" "(t, v) \<in> set (leaders_table s)" "sound_store s'"
    "org_of s' = spec_remove_leader t u (org_of s)"
    using RemoveLeader_refines [OF assms(1-3)] by auto
  from arg_cong [OF v(4), of org_leaders] have "set (leaders_table s') = set (leaders_table s) - {(t, u)}"
    by (simp add: spec_remove_leader_def revoke_orphan_def)
  with v show ?thesis by auto
qed (use RemoveLeader_refines [OF assms(1-3)] assms(1,4) in auto)

text \<open>A leader who is not a member: the request that makes the leader has read the members before the
  request that removes the member writes.\<close>

definition checked_addition :: "env \<Rightarrow> string \<Rightarrow> string \<Rightarrow> response script" where
  "checked_addition E t u = andthen (stmt (TeamRepo_AddLeader t u)) (\<lambda>r.
     case r of
       Inl err \<Rightarrow> Ended (writeError 500 ''failed to add leader'')
     | Inr _ \<Rightarrow> andthen (ensureLeaderRole_turns E u) (\<lambda>_. Ended (write_status ''added'')))"

lemma addition_reads: "u \<noteq> [] \<Longrightarrow> \<exists>k. AddLeader_turns E t (Some u) = andthen (FindTeamByID_turns t) k \<and>
    (\<forall>team. u \<in> set (team_member_ids team) \<longrightarrow> k (Inr team) = checked_addition E t u)"
  unfolding AddLeader_turns_def
  by (simp, rule exI, rule conjI, rule refl) (simp add: checked_addition_def)

lemma addition_effect:
  assumes s: "sound_store s" "iteration_ok (iter E)"
    and ok: "t \<in> team_ids s" "u \<in> user_ids s" "(t, u) \<notin> set (leaders_table s)"
  obtains s' where "run_state (alone (checked_addition E t u)) s = (write_status ''added'', s')"
    "sound_store s'" "org_of s' = spec_add_leader t u (org_of s)"
proof -
  obtain s1 where s1: "sql_add_leader False t u s = Inr s1"
    using ok by (simp add: sql_add_leader_def link_row_def)
  obtain x s' where ens: "run_state (ensureLeaderRole E u) s1 = (x, s')"
    by (rule prod.exhaust)
  have "run_state (alone (checked_addition E t u)) s = (write_status ''added'', s')"
    using s1 ens sound_storeD(1) [OF s(1)] by (simp add: checked_addition_def TeamRepo_AddLeader_def run_rules)
  with that show thesis
    using ensure_refines [OF _ s(2) ens] org_add_leader [OF s(1) s1]
    by (simp add: spec_add_leader_def)
qed

lemma leader_race:
  assumes s: "sound_store s" "iteration_ok (iter E)" and t: "t \<in> team_ids s" "u \<noteq> []"
    and u: "(t, u) \<in> set (members_table s)" "(t, u) \<notin> set (leaders_table s)"
  obtains s' where
    "request_step\<^sup>*\<^sup>* ([AddLeader_turns E t (Some u), RemoveMember_request_turns E t u], s)
       ([Ended (write_status ''added''), Ended (write_status ''removed'')], s')"
    "sound_store s'" "org_of s' = spec_add_leader t u (spec_remove_member t u (org_of s))"
proof -
  note ss = sound_storeD [OF s(1)]
  let ?q = "RemoveMember_request_turns E t u" and ?rest = "checked_addition E t u"
  let ?removed = "Ended (write_status ''removed'')" and ?added = "Ended (write_status ''added'')"
  obtain tr where "by_key tr_id t (teams_table s) = [tr]" "tr_id tr = t"
    using find_team_some [OF ss(2) t(1)] by blast
  then obtain team where team: "run_state (alone (FindTeamByID_turns t)) s = (Inr team, s)"
    "u \<in> set (team_member_ids team)"
    using ss(1) u(1) by (auto simp: run_rules)
  from addition_reads [OF t(2), of E t] obtain k where k: "AddLeader_turns E t (Some u) = andthen (FindTeamByID_turns t) k"
    "\<forall>team. u \<in> set (team_member_ids team) \<longrightarrow> k (Inr team) = ?rest"
    by (elim exE conjE)
  have st1: "request_step\<^sup>*\<^sup>* ([AddLeader_turns E t (Some u), ?q], s) ([?rest, ?q], s)"
    using prefix_first [of 0 "[AddLeader_turns E t (Some u), ?q]" "FindTeamByID_turns t" k s "Inr team" s] k team by simp
  obtain s1 where s1: "sql_remove_member t u s = Inr s1"
    by (simp add: sql_remove_member_def)
  note removed = conjunct1 [OF org_remove_member [OF s(1) s1]] conjunct2 [OF org_remove_member [OF s(1) s1]]
  have "run_state (alone ?q) s = (write_status ''removed'', s1)"
    using s1 u(2) ss(1) by (simp add: RemoveMember_request_turns_def TeamRepo_RemoveMember_def run_rules)
  then have st2: "request_step\<^sup>*\<^sup>* ([?rest, ?q], s) ([?rest, ?removed], s1)"
    using run_first [of 1 "[?rest, ?q]" s "write_status ''removed''" s1] by simp
  have "u \<in> user_ids s" using ss(2) u(1) by (auto simp: schema_ok_def schema_parts links_ok_def)
  then have "t \<in> team_ids s1" "u \<in> user_ids s1" "(t, u) \<notin> set (leaders_table s1)"
    using t(1) u(2) arg_cong [OF removed(2), of org_teams] arg_cong [OF removed(2), of org_users]
      arg_cong [OF removed(2), of org_leaders] by (simp_all add: spec_remove_member_def)
  from addition_effect [OF removed(1) s(2) this] obtain s2 where
    s2: "run_state (alone ?rest) s1 = (write_status ''added'', s2)" "sound_store s2"
      "org_of s2 = spec_add_leader t u (org_of s1)" .
  have st3: "request_step\<^sup>*\<^sup>* ([?rest, ?removed], s1) ([?added, ?removed], s2)"
    using run_first [of 0 "[?rest, ?removed]" s1 "write_status ''added''" s2] s2(1) by simp
  show thesis
    using that [OF rtranclp_trans [OF rtranclp_trans [OF st1 st2] st3]] s2(2,3) by (simp add: removed(2))
qed

section \<open>Additions at the same time\<close>

text \<open>What requests that only add rely on: nobody removes members or leaders.\<close>

definition grows :: "db \<Rightarrow> db \<Rightarrow> bool" where
  "grows s s' \<longleftrightarrow> team_ids s' = team_ids s \<and> set (members_table s) \<subseteq> set (members_table s') \<and>
     set (leaders_table s) \<subseteq> set (leaders_table s')"

definition led_by_members :: "db \<Rightarrow> bool" where
  "led_by_members s \<longleftrightarrow> leaders_among_members (org_of s) \<and> every_team_led (org_of s)"

lemma grows_later: "grows\<^sup>*\<^sup>* s s' \<Longrightarrow> grows s s'"
  by (induction rule: rtranclp_induct) (auto simp: grows_def)

definition links_of :: "db \<Rightarrow> team_row list \<times> (string \<times> string) list \<times> (string \<times> string) list" where
  "links_of s = (teams_table s, members_table s, leaders_table s)"

interpretation links: stmt_invariant "\<lambda>s. links_of s = c"
  by unfold_locales (simp add: links_of_def)

lemma same_links:
  assumes "links_of s' = links_of s"
  shows "grows s s' \<and> (led_by_members s \<longrightarrow> led_by_members s')"
  using assms by (simp add: links_of_def grows_def led_by_members_def leaders_among_members_def every_team_led_def team_ids_def)

lemma tables_links:
  "tables s' = tables s \<Longrightarrow> links_of s' = links_of s"
  by (auto simp: links_of_def tables_def dest: arg_cong [of _ _ teams_table] arg_cong [of _ _ members_table] arg_cong [of _ _ leaders_table])

text \<open>A turn that leaves teams, members and leaders alone, and one that adds.\<close>

lemma fits_same:
  assumes "\<And>c. keeps (\<lambda>s. links_of s = c) m"
    and "\<And>s a s' t. run_state m s = (a, s') \<Longrightarrow> grows s t \<Longrightarrow> Q a t"
  shows "fits grows led_by_members Q (stmt m) s"
proof (rule fits_stmt)
  fix s' a s''
  assume run: "run_state m s' = (a, s'')" and I: "led_by_members s'"
  note same = same_links [OF keeps_run [OF assms(1) refl run]]
  moreover have "Q a t" if "grows\<^sup>*\<^sup>* s'' t" for t
    using grows_later [OF that] same by (intro assms(2) [OF run]) (auto simp: grows_def)
  ultimately show "grows\<^sup>*\<^sup>* s' s'' \<and> led_by_members s'' \<and> (\<forall>t. grows\<^sup>*\<^sup>* s'' t \<longrightarrow> led_by_members t \<longrightarrow> Q a t)"
    using I by blast
qed

lemma fits_adds:
  assumes "\<And>s' a s''. grows s s' \<Longrightarrow> led_by_members s' \<Longrightarrow> run_state m s' = (a, s'') \<Longrightarrow>
      grows s' s'' \<and> led_by_members s'' \<and> Q a s''"
    and "\<And>a s' t. Q a s' \<Longrightarrow> grows s' t \<Longrightarrow> Q a t"
  shows "fits grows led_by_members Q (stmt m) s"
  using assms grows_later by (intro fits_stmt) blast

lemma keeps_links_reads:
  "keeps (\<lambda>s. links_of s = c) (query_rows qm sm f)"
  "keeps (\<lambda>s. links_of s = c) (wrapf msg (query_row g))"
  by (intro keeps_rules links.keeps_query_rows links.keeps_query_row)+

lemma upsert_account_links: "sql_upsert_account i u h rs v s = Inr s' \<Longrightarrow> links_of s' = links_of s"
  by (auto simp: links_of_def sql_upsert_account_def sql_insert_account_def split: option.splits if_splits)

lemma keeps_links_accounts:
  "keeps (\<lambda>s. links_of s = c) (AccountRepo_FindAll E)"
  "keeps (\<lambda>s. links_of s = c) (AccountRepo_Save E a)"
  unfolding AccountRepo_FindAll_def AccountRepo_Save_def
  by (auto intro!: keeps_rules links.keeps_query_rows links.keeps_exec dest: upsert_account_links)

lemma read_members:
  "run_state (loadMemberIDs t) s = (Inr ids, s') \<Longrightarrow> u \<in> set ids \<Longrightarrow> (t, u) \<in> set (members_table s)"
  using tables_links [OF tables_next_fault, of s "fst (run_state next_fault s)" "snd (run_state next_fault s)"]
  by (auto simp: links_of_def loadMemberIDs_def query_rows_def linked_def split: prod.splits fault.splits if_splits
      dest!: in_set_takeD)

lemma fits_loadRelations:
  assumes "led_by_members s"
  shows "fits grows led_by_members (\<lambda>x s. \<forall>team. x = Inr team \<longrightarrow>
    (\<forall>u\<in>set (team_member_ids team). (tr_id r, u) \<in> set (members_table s))) (loadRelations_turns r) s"
  unfolding loadRelations_turns_def
proof (rule fits_checked)
  fix leaders s1 assume "led_by_members s1"
  show "fits grows led_by_members (\<lambda>x s. \<forall>team. x = Inr team \<longrightarrow>
      (\<forall>u\<in>set (team_member_ids team). (tr_id r, u) \<in> set (members_table s)))
    (checked (stmt (loadMemberIDs (tr_id r))) (\<lambda>memberIDs.
     checked (stmt (loadRepositoryIDs (tr_id r))) (\<lambda>repoIDs.
     Ended (Inr \<lparr>team_id = tr_id r, team_name = tr_name r, team_leader_ids = leaders,
       team_member_ids = memberIDs, team_repository_ids = repoIDs\<rparr>)))) s1"
  proof (rule fits_checked)
    show "fits grows led_by_members (\<lambda>x s. \<forall>ids. x = Inr ids \<longrightarrow>
        (\<forall>u\<in>set ids. (tr_id r, u) \<in> set (members_table s))) (stmt (loadMemberIDs (tr_id r))) s1"
      by (rule fits_same, unfold loadMemberIDs_def, rule keeps_links_reads)
        (auto simp: grows_def dest!: read_members [unfolded loadMemberIDs_def])
  next
    fix ids s2 assume "led_by_members s2" "\<forall>x. Inr ids = Inr x \<longrightarrow> (\<forall>u\<in>set x. (tr_id r, u) \<in> set (members_table s2))"
    then show "fits grows led_by_members (\<lambda>x s. \<forall>team. x = Inr team \<longrightarrow>
        (\<forall>u\<in>set (team_member_ids team). (tr_id r, u) \<in> set (members_table s)))
      (checked (stmt (loadRepositoryIDs (tr_id r))) (\<lambda>repoIDs.
       Ended (Inr \<lparr>team_id = tr_id r, team_name = tr_name r, team_leader_ids = leaders,
         team_member_ids = ids, team_repository_ids = repoIDs\<rparr>))) s2"
      by (intro fits_checked [where P = "\<lambda>a s. True"] fits.ended fits_same)
        (auto simp: loadRepositoryIDs_def keeps_links_reads grows_def subset_eq dest!: grows_later)
  qed (use \<open>led_by_members s1\<close> in simp_all)
qed (use assms in \<open>auto simp: loadLeaderIDs_def intro!: fits_same [where Q = "\<lambda>a s. True"] keeps_links_reads\<close>)

lemma read_team:
  "run_state (wrapf msg (query_row (\<lambda>s. by_key tr_id t (teams_table s)))) s = (Inr r, s') \<Longrightarrow> tr_id r = t"
  by (auto simp: wrapf_def query_row_def by_key_def filter_eq_Cons_iff
      split: prod.splits option.splits list.splits sum.splits)

lemma fits_find_team:
  assumes "led_by_members s"
  shows "fits grows led_by_members (\<lambda>x s. \<forall>team. x = Inr team \<longrightarrow>
    (\<forall>u\<in>set (team_member_ids team). (t, u) \<in> set (members_table s))) (FindTeamByID_turns t) s"
  unfolding FindTeamByID_turns_def
proof (rule fits_checked)
  show "fits grows led_by_members (\<lambda>x s. \<forall>r. x = Inr r \<longrightarrow> tr_id r = t)
      (stmt (wrapf ''find team by id'' (query_row (\<lambda>s. by_key tr_id t (teams_table s))))) s"
    by (intro fits_same keeps_links_reads) (auto dest: read_team)
qed (use assms fits_loadRelations in auto)

lemma fits_ensure:
  assumes "led_by_members s"
  shows "fits grows led_by_members (\<lambda>a s. True) (ensureLeaderRole_turns E u) s"
  unfolding ensureLeaderRole_turns_def using assms
  by (intro fits_andthen [where P = "\<lambda>a s. True"] fits_same keeps_links_accounts)
    (auto simp: keeps_links_accounts intro!: fits.ended fits_andthen [where P = "\<lambda>a s. True"] fits_same
      split: sum.splits option.splits)

lemma add_member_stmt:
  assumes "run_state (TeamRepo_AddMember t u) s = (a, s')" "led_by_members s"
  shows "grows s s' \<and> led_by_members s' \<and> (\<forall>x. a = Inr x \<longrightarrow> (t, u) \<in> set (members_table s'))"
proof (cases a)
  case (Inl e)
  then obtain e' where "run_state (exec_sql (sql_add_member False t u)) s = (Inl e', s')"
    using assms(1) by (auto simp: TeamRepo_AddMember_def wrapf_def split: prod.splits sum.splits)
  from same_links [OF tables_links [OF tables_exec_error [OF this]]] Inl assms(2) show ?thesis by simp
next
  case (Inr x)
  then obtain fs where "sql_add_member False t u (s\<lparr>faults := fs\<rparr>) = Inr s'"
    using assms(1) by (auto simp: TeamRepo_AddMember_def wrapf_def split: prod.splits sum.splits dest!: exec_ok)
  then have "teams_table s' = teams_table s" "leaders_table s' = leaders_table s"
    "set (members_table s') = insert (t, u) (set (members_table s))"
    by (auto simp: sql_add_member_def link_row_def split: if_splits)
  with assms(2) show ?thesis
    by (auto simp: grows_def led_by_members_def leaders_among_members_def every_team_led_def team_ids_def)
qed

lemma add_leader_stmt:
  assumes "run_state (TeamRepo_AddLeader t u) s = (a, s')" "led_by_members s" "(t, u) \<in> set (members_table s)"
  shows "grows s s' \<and> led_by_members s' \<and> (\<forall>x. a = Inr x \<longrightarrow> (t, u) \<in> set (leaders_table s'))"
proof (cases a)
  case (Inl e)
  then obtain e' where "run_state (exec_sql (sql_add_leader False t u)) s = (Inl e', s')"
    using assms(1) by (auto simp: TeamRepo_AddLeader_def wrapf_def split: prod.splits sum.splits)
  from same_links [OF tables_links [OF tables_exec_error [OF this]]] Inl assms(2) show ?thesis by simp
next
  case (Inr x)
  then obtain fs where "sql_add_leader False t u (s\<lparr>faults := fs\<rparr>) = Inr s'"
    using assms(1) by (auto simp: TeamRepo_AddLeader_def wrapf_def split: prod.splits sum.splits dest!: exec_ok)
  then have "teams_table s' = teams_table s" "members_table s' = members_table s"
    "set (leaders_table s') = insert (t, u) (set (leaders_table s))"
    by (auto simp: sql_add_leader_def link_row_def split: if_splits)
  with assms(2,3) show ?thesis
    by (auto simp: grows_def led_by_members_def leaders_among_members_def every_team_led_def team_ids_def)
qed

text \<open>What an answer promises.\<close>

fun addition_holds :: "api_request \<Rightarrow> response \<Rightarrow> db \<Rightarrow> bool" where
  "addition_holds (Req_AddMember t b) r s \<longleftrightarrow>
     (status r = 200 \<longrightarrow> (case b of None \<Rightarrow> False | Some u \<Rightarrow> (t, u) \<in> set (members_table s)))"
| "addition_holds (Req_AddLeader t b) r s \<longleftrightarrow>
     (status r = 200 \<longrightarrow> (case b of None \<Rightarrow> False | Some u \<Rightarrow> (t, u) \<in> set (leaders_table s)))"
| "addition_holds _ r s \<longleftrightarrow> False"

fun is_addition :: "api_request \<Rightarrow> bool" where
  "is_addition (Req_AddMember t b) = True"
| "is_addition (Req_AddLeader t b) = True"
| "is_addition _ = False"

lemma fits_add_member:
  assumes "led_by_members s"
  shows "fits grows led_by_members (addition_holds (Req_AddMember t b)) (AddMember_turns t b) s"
proof (cases "b = None \<or> b = Some []")
  case True
  then show ?thesis by (auto simp: AddMember_turns_def writeError_def intro!: fits.ended)
next
  case False
  then obtain u where b: "b = Some u" "u \<noteq> []" by auto
  have "fits grows led_by_members (\<lambda>a s. \<forall>x. a = Inr x \<longrightarrow> (t, u) \<in> set (members_table s))
      (stmt (TeamRepo_AddMember t u)) s"
    using add_member_stmt by (intro fits_adds) (auto simp: grows_def)
  then have "fits grows led_by_members (addition_holds (Req_AddMember t (Some u)))
      (andthen (stmt (TeamRepo_AddMember t u)) (\<lambda>r. Ended (case r of
         Inl err \<Rightarrow> writeError 500 ''failed to add member'' | Inr _ \<Rightarrow> write_status ''added''))) s"
    using assms by (rule fits_andthen)
      (auto intro!: fits.ended dest!: grows_later simp: grows_def writeError_def split: sum.splits)
  with b show ?thesis by (simp add: AddMember_turns_def)
qed

lemma fits_checked_addition:
  assumes "led_by_members s" "(t, u) \<in> set (members_table s)"
  shows "fits grows led_by_members (addition_holds (Req_AddLeader t (Some u))) (checked_addition E t u) s"
  unfolding checked_addition_def
proof (rule fits_andthen)
  show "fits grows led_by_members (\<lambda>a s. \<forall>x. a = Inr x \<longrightarrow> (t, u) \<in> set (leaders_table s))
      (stmt (TeamRepo_AddLeader t u)) s"
  proof (rule fits_adds)
    fix s' a s''
    assume "grows s s'" and s': "led_by_members s'" "run_state (TeamRepo_AddLeader t u) s' = (a, s'')"
    then have "(t, u) \<in> set (members_table s')" using assms(2) by (auto simp: grows_def)
    from add_leader_stmt [OF s'(2,1) this]
    show "grows s' s'' \<and> led_by_members s'' \<and> (\<forall>x. a = Inr x \<longrightarrow> (t, u) \<in> set (leaders_table s''))" .
  qed (auto simp: grows_def)
next
  fix r s1
  assume s1: "led_by_members s1" "\<forall>x. r = Inr x \<longrightarrow> (t, u) \<in> set (leaders_table s1)"
  show "fits grows led_by_members (addition_holds (Req_AddLeader t (Some u)))
      (case r of Inl err \<Rightarrow> Ended (writeError 500 ''failed to add leader'')
       | Inr _ \<Rightarrow> andthen (ensureLeaderRole_turns E u) (\<lambda>_. Ended (write_status ''added''))) s1"
  proof (cases r)
    case (Inl e)
    then show ?thesis by (auto simp: writeError_def intro!: fits.ended)
  next
    case (Inr x)
    have "fits grows led_by_members (addition_holds (Req_AddLeader t (Some u))) (Ended (write_status ''added'')) s2"
      if "grows\<^sup>*\<^sup>* s1 s2" for s2
      using s1(2) Inr grows_later [OF that] by (auto intro!: fits.ended dest!: grows_later simp: grows_def subset_eq)
    with Inr show ?thesis by (simp add: fits_andthen [OF fits_ensure [OF s1(1)] s1(1)])
  qed
qed (rule assms)

lemma fits_add_leader:
  assumes "led_by_members s"
  shows "fits grows led_by_members (addition_holds (Req_AddLeader t b)) (AddLeader_turns E t b) s"
proof (cases "b = None \<or> b = Some []")
  case True
  then show ?thesis by (auto simp: AddLeader_turns_def writeError_def intro!: fits.ended)
next
  case False
  then obtain u where b: "b = Some u" "u \<noteq> []" by auto
  show ?thesis
    unfolding b AddLeader_turns_def option.case if_not_P [OF b(2)]
  proof (rule fits_andthen [OF fits_find_team [OF assms] assms])
    fix r s1
    assume s1: "led_by_members s1"
      "\<forall>team. r = Inr team \<longrightarrow> (\<forall>u\<in>set (team_member_ids team). (t, u) \<in> set (members_table s1))"
    show "fits grows led_by_members (addition_holds (Req_AddLeader t (Some u)))
      (case r of
         Inl err \<Rightarrow> Ended (writeError 404 ''team not found'')
       | Inr team \<Rightarrow>
           if u \<notin> set (team_member_ids team) then Ended (writeError 400 ''user must be a member of the team first'')
           else andthen (stmt (TeamRepo_AddLeader t u)) (\<lambda>r.
             case r of
               Inl err \<Rightarrow> Ended (writeError 500 ''failed to add leader'')
             | Inr _ \<Rightarrow> andthen (ensureLeaderRole_turns E u) (\<lambda>_. Ended (write_status ''added'')))) s1"
    proof (cases r)
      case (Inl e)
      then show ?thesis by (auto simp: writeError_def intro!: fits.ended)
    next
      case (Inr team)
      show ?thesis
      proof (cases "u \<in> set (team_member_ids team)")
        case True
        then have "(t, u) \<in> set (members_table s1)" using s1(2) Inr by blast
        from fits_checked_addition [OF s1(1) this, of E] True Inr show ?thesis
          by (simp add: checked_addition_def)
      qed (use Inr in \<open>auto simp: writeError_def intro!: fits.ended\<close>)
    qed
  qed
qed

lemma fits_addition:
  assumes "is_addition req" "turns_of E req = Some p" "led_by_members s"
  shows "fits grows led_by_members (addition_holds req) p s"
  using assms fits_add_member fits_add_leader by (cases req) auto

lemma additions_fit:
  assumes "list_all2 (\<lambda>req p. is_addition req \<and> turns_of E req = Some p) reqs ps" "led_by_members s"
  shows "all_fit grows led_by_members (\<lambda>i. addition_holds (reqs ! i)) (ps, s)"
  using assms fits_addition by (auto simp: all_fit_def list_all2_conv_all_nth)

lemma additions_run:
  assumes "list_all2 (\<lambda>req p. is_addition req \<and> turns_of E req = Some p) reqs ps" "led_by_members s"
    and run: "request_step\<^sup>*\<^sup>* (ps, s) (ps', s')"
  shows "grows s s'" "led_by_members s'"
    and "i < length reqs \<Longrightarrow> ps' ! i = Ended r \<Longrightarrow> addition_holds (reqs ! i) r s'"
proof -
  note fit = all_fit_run [OF run additions_fit [OF assms(1,2)]]
  then have fit': "all_fit grows led_by_members (\<lambda>i. addition_holds (reqs ! i)) (ps', s')" by blast
  show "grows s s'" using fit grows_later by auto
  show "led_by_members s'" using fit' by (simp add: all_fit_def)
  show "i < length reqs \<Longrightarrow> ps' ! i = Ended r \<Longrightarrow> addition_holds (reqs ! i) r s'"
    using all_fit_ended [OF fit', of i r] fit list_all2_lengthD [OF assms(1)] by simp
qed

end
