(* ===== verification/Concurrent_Requests.thy ===== *)
theory Concurrent_Requests
  imports Concurrent_Admin
begin

text \<open>
  Every request of the program, statement by statement, from the middleware to the answer: the
  handlers of \<open>Handlers\<close>, \<open>Backup\<close> and \<open>Streaming\<close>, the report service, and the requests of
  \<open>Concurrent_Admin\<close>. Alone, \<open>serve_turns\<close> is \<open>serve\<close>. The goroutines of a report touch no table, so
  they are part of the turn after which they run. The constraints of the schema hold in every
  interleaving of any requests, whatever faults the database has.
\<close>

section \<open>Repositories\<close>

definition load_user_turns :: "user_row \<Rightarrow> user result script" where
  "load_user_turns r = checked (stmt (loadPlatformUsernames (ur_id r))) (\<lambda>ps. Ended (Inr (user_of_row r ps)))"

definition FindUsersByIDs_turns :: "string list \<Rightarrow> user list result script" where
  "FindUsersByIDs_turns ids =
     checked (stmt (query_rows ''find users by ids'' ''scan user''
         (\<lambda>s. filter (\<lambda>r. ur_id r \<in> set ids) (users_table s))))
       (script_map_each load_user_turns)"

definition FindUserByAccountID_turns :: "string \<Rightarrow> user result script" where
  "FindUserByAccountID_turns aid =
     checked (stmt (wrapf ''find user by account id'' (query_row
         (\<lambda>s. [u. u \<leftarrow> users_table s, a \<leftarrow> accounts_table s, ur_id u = ar_user_id a \<and> ar_id a = aid]))))
       load_user_turns"

definition FindAllUsers_turns :: "env \<Rightarrow> user list result script" where
  "FindAllUsers_turns E =
     checked (stmt (query_rows ''find all users'' ''scan user''
         (\<lambda>s. order_by (collate E) ur_username (users_table s))))
       (script_map_each load_user_turns)"

definition Export_turns :: "env \<Rightarrow> backup_file result script" where
  "Export_turns E =
     checked (wrapped ''export users'' (FindAllUsers_turns E)) (\<lambda>users.
     checked (wrapped ''export accounts'' (stmt (AccountRepo_FindAll E))) (\<lambda>accounts.
     checked (wrapped ''export teams'' (FindAllTeams_turns E)) (\<lambda>teams.
     checked (wrapped ''export repos'' (stmt (RepoStore_FindAll E))) (\<lambda>repos.
     checked (wrapped ''export config'' (stmt (ConfigRepo_FindAll E))) (\<lambda>config.
     Ended (Inr \<lparr>
       backup_metadata = \<lparr>app_version = ''1.0.0'', exported_at = now E, exported_by = []\<rparr>,
       backup_users = users, backup_accounts = accounts, backup_teams = teams,
       backup_repositories = map encode_repo_token repos, backup_config = config\<rparr>))))))"

lemma alone_load_user [simp]: "alone (load_user_turns r) = load_user r"
  by (simp add: load_user_turns_def load_user_def)

lemma alone_user_methods [simp]:
  "alone (FindUsersByIDs_turns ids) = UserRepo_FindByIDs ids"
  "alone (FindUserByAccountID_turns a) = UserRepo_FindByAccountID a"
  "alone (FindAllUsers_turns E) = UserRepo_FindAll E"
  by (simp_all add: FindUsersByIDs_turns_def FindUserByAccountID_turns_def FindAllUsers_turns_def
      UserRepo_FindByIDs_def UserRepo_FindByAccountID_def UserRepo_FindAll_def)

lemma alone_Export [simp]: "alone (Export_turns E) = BackupRepo_Export E"
  by (simp add: Export_turns_def BackupRepo_Export_def)

section \<open>Services\<close>

definition Validate_turns :: "env \<Rightarrow> string \<Rightarrow> (app_error + auth_context) script" where
  "Validate_turns E tokenStr =
     (case jwt_parse E tokenStr (validate_key E) (now E) of
        None \<Rightarrow> Ended (Inl (NewUnauthorizedError ''invalid token''))
      | Some claims \<Rightarrow>
          let accountID = (case claim_sub claims of None \<Rightarrow> [] | Some sub \<Rightarrow> sub) in
          if accountID = [] then Ended (Inl (NewUnauthorizedError ''missing subject''))
          else andthen (stmt (AccountRepo_FindByID accountID)) (\<lambda>r.
            case r of
              Inl err \<Rightarrow> Ended (Inl (NewUnauthorizedError ''account not found''))
            | Inr account \<Rightarrow> andthen (FindUserByAccountID_turns accountID) (\<lambda>ru.
                Ended (case ru of
                  Inl err \<Rightarrow> Inl (NewUnauthorizedError ''user not found'')
                | Inr user \<Rightarrow> Inr \<lparr>ctx_account_id = account_id account, ctx_user_id = user_id user,
                    ctx_roles = claimed_roles claims\<rparr>))))"

definition upsert_discovered_turns :: "fetcher \<Rightarrow> string \<Rightarrow> unit outcome script" where
  "upsert_discovered_turns f username =
     (case f_discover f of
        None \<Rightarrow> Ended (Returned ())
      | Some discover \<Rightarrow>
          (case discover username of
             Panicked \<Rightarrow> Ended Panicked
           | Diverged \<Rightarrow> Ended Diverged
           | Returned (Inl err) \<Rightarrow> Ended (Returned ())
           | Returned (Inr discovered) \<Rightarrow>
               andthen (script_do_each (\<lambda>r. stmt (RepoStore_Upsert r)) discovered) (\<lambda>_. Ended (Returned ()))))"

fun start_groups_turns ::
    "fetcher_registry \<Rightarrow> user \<Rightarrow> report_query \<Rightarrow> fetcher_group list \<Rightarrow> activity call list list outcome script" where
  "start_groups_turns reg member q [] = Ended (Returned [])"
| "start_groups_turns reg member q (g # gs) =
     (case registry_Build reg (group_platform g) (group_token g) of
        Inl err \<Rightarrow> start_groups_turns reg member q gs
      | Inr f \<Rightarrow>
          let username = GetPlatformUsername member (group_platform g) in
          andthen (upsert_discovered_turns f username) (\<lambda>d.
          case d of
            Panicked \<Rightarrow> Ended Panicked
          | Diverged \<Rightarrow> Ended Diverged
          | Returned _ \<Rightarrow> andthen (start_groups_turns reg member q gs) (\<lambda>rest.
              Ended (case rest of
                Returned calls \<Rightarrow> Returned (member_calls f (group_repos g) username q # calls)
              | Panicked \<Rightarrow> Panicked
              | Diverged \<Rightarrow> Diverged))))"

definition fetchMemberReport_turns ::
    "env \<Rightarrow> fetcher_registry \<Rightarrow> nat list \<Rightarrow> user \<Rightarrow> fetcher_group list \<Rightarrow> report_query \<Rightarrow> user_report outcome script" where
  "fetchMemberReport_turns E reg sched member groups q =
     andthen (start_groups_turns reg member q groups) (\<lambda>started.
     Ended (case started of
       Panicked \<Rightarrow> Panicked
     | Diverged \<Rightarrow> Diverged
     | Returned calls \<Rightarrow>
         (case pool_outcome (wait_all sched (spawn calls)) of
            Panicked \<Rightarrow> Panicked
          | Diverged \<Rightarrow> Diverged
          | Returned activities \<Rightarrow> Returned \<lparr>report_user = member,
              report_counts = buildActivityCounts (iter E) activities,
              report_activities = activities\<rparr>)))"

fun send_reports_turns ::
    "env \<Rightarrow> fetcher_registry \<Rightarrow> (nat \<Rightarrow> nat list) \<Rightarrow> nat \<Rightarrow> fetcher_group list \<Rightarrow> report_query
      \<Rightarrow> user list \<Rightarrow> (report_event list \<times> ending) script" where
  "send_reports_turns E reg scheds n groups q [] = Ended ([ReportCompleteEvent], Closed)"
| "send_reports_turns E reg scheds n groups q (m # ms) =
     andthen (fetchMemberReport_turns E reg (scheds n) m groups q) (\<lambda>r.
     case r of
       Panicked \<Rightarrow> Ended ([], Crashed)
     | Diverged \<Rightarrow> Ended ([], Hangs)
     | Returned report \<Rightarrow> andthen (send_reports_turns E reg scheds (Suc n) groups q ms) (\<lambda>(events, e).
         Ended (UserReportEvent report # events, e)))"

definition GenerateReport_turns ::
    "env \<Rightarrow> fetcher_registry \<Rightarrow> (nat \<Rightarrow> nat list) \<Rightarrow> report_query \<Rightarrow> (report_event list \<times> ending) script" where
  "GenerateReport_turns E reg scheds q =
     andthen (FindTeamByID_turns (query_team_id q)) (\<lambda>rt.
     case rt of
       Inl err \<Rightarrow> Ended (error_event E ''team not found'' err)
     | Inr team \<Rightarrow> andthen (FindUsersByIDs_turns (report_member_ids q team)) (\<lambda>rm.
         case rm of
           Inl err \<Rightarrow> Ended (error_event E ''failed to load members'' err)
         | Inr members \<Rightarrow> andthen (stmt (RepoStore_FindByIDs (team_repository_ids team))) (\<lambda>rr.
             case rr of
               Inl err \<Rightarrow> Ended (error_event E ''failed to load repos'' err)
             | Inr repos \<Rightarrow>
                 send_reports_turns E reg scheds 0 (report_groups (iter E) repos) q members)))"

lemma alone_case_outcome [simp]:
  "alone (case r of Returned x \<Rightarrow> f x | Panicked \<Rightarrow> p | Diverged \<Rightarrow> q) =
     (case r of Returned x \<Rightarrow> alone (f x) | Panicked \<Rightarrow> alone p | Diverged \<Rightarrow> alone q)"
  by (cases r) simp_all

lemma alone_Validate [simp]: "alone (Validate_turns E t) = AuthService_Validate E t"
  by (auto intro!: state_ext simp: Validate_turns_def AuthService_Validate_def Let_def
      split: prod.splits sum.splits option.splits)

lemma alone_upsert_discovered [simp]: "alone (upsert_discovered_turns f u) = upsert_discovered f u"
  by (auto simp: upsert_discovered_turns_def upsert_discovered_def split: option.splits outcome.splits sum.splits)

lemma alone_start_groups [simp]: "alone (start_groups_turns reg m q gs) = start_groups reg m q gs"
  by (induction gs) (auto intro!: state_ext simp: Let_def split: prod.splits sum.splits outcome.splits)

lemma alone_fetchMemberReport [simp]:
  "alone (fetchMemberReport_turns E reg sched m gs q) = fetchMemberReport E reg sched m gs q"
  by (simp add: fetchMemberReport_turns_def fetchMemberReport_def)

lemma alone_send_reports [simp]:
  "alone (send_reports_turns E reg scheds n gs q ms) = send_reports E reg scheds n gs q ms"
  by (induction ms arbitrary: n) (auto intro!: state_ext split: prod.splits outcome.splits)

lemma alone_GenerateReport [simp]: "alone (GenerateReport_turns E reg scheds q) = GenerateReport E reg scheds q"
  by (auto intro!: state_ext simp: GenerateReport_turns_def GenerateReport_def split: prod.splits sum.splits)

section \<open>Handlers\<close>

definition Login_turns :: "env \<Rightarrow> login_request option \<Rightarrow> response script" where
  "Login_turns E body =
     (case body of
        None \<Rightarrow> Ended (writeError 400 ''invalid request body'')
      | Some req \<Rightarrow>
          if lr_username req = [] \<or> lr_password req = []
          then Ended (writeError 400 ''username and password required'')
          else andthen (stmt (AuthService_Login E (lr_username req) (lr_password req))) (\<lambda>r.
            case r of
              Inl err \<Rightarrow> Ended (writeError 401 ''invalid credentials'')
            | Inr token \<Rightarrow> andthen (FindUserByAccountID_turns (token_account_id token)) (\<lambda>ru.
                Ended (case ru of
                  Inl err \<Rightarrow> writeError 500 ''failed to load user''
                | Inr user \<Rightarrow> writeJSON 200 (LoginBody \<lparr>login_token = token_text token,
                    login_roles = map fst (range_order (iter E) (token_roles token)),
                    login_user = UserToDTO (iter E) user\<rparr>)))))"

definition StreamReport_turns :: "env \<Rightarrow> report_port \<Rightarrow> report_request option \<Rightarrow> auth_context option \<Rightarrow> response script" where
  "StreamReport_turns E R body actx =
     (case actx of
        None \<Rightarrow> Ended (writeError 401 ''not authenticated'')
      | Some authCtx \<Rightarrow>
         (case body of
            None \<Rightarrow> Ended (writeError 400 ''invalid request body'')
          | Some req \<Rightarrow>
             (case Parse_Date (rq_since req) of
                None \<Rightarrow> Ended (writeError 400 ''invalid since date'')
              | Some since \<Rightarrow>
                 (case Parse_Date (rq_until req) of
                    None \<Rightarrow> Ended (writeError 400 ''invalid until date'')
                  | Some until \<Rightarrow>
                     (case NewSSEWriter (rp_flusher R) of
                        Inl err \<Rightarrow> Ended (writeError 500 ''streaming not supported'')
                      | Inr headers \<Rightarrow>
                          andthen (GenerateReport_turns E (rp_registry R) (rp_schedules R)
                            (report_query_of authCtx req since until)) (\<lambda>(events, e).
                          Ended \<lparr>status = 200,
                            resp_body = EventStream (map (event_data (iter E)) events) e\<rparr>))))))"

definition GetProfile_turns :: "env \<Rightarrow> auth_context option \<Rightarrow> response script" where
  "GetProfile_turns E actx =
     (case actx of
        None \<Rightarrow> Ended (writeError 401 ''not authenticated'')
      | Some authCtx \<Rightarrow> andthen (FindUserByID_turns (ctx_user_id authCtx)) (\<lambda>r.
          Ended (case r of
            Inl err \<Rightarrow> writeError 404 ''user not found''
          | Inr user \<Rightarrow> writeJSON 200 (UserBody (UserToDTO (iter E) user)))))"

definition repo_dtos_turns :: "string list \<Rightarrow> repo_dto list script" where
  "repo_dtos_turns ids =
     (if ids = [] then Ended []
      else andthen (stmt (RepoStore_FindByIDs ids)) (\<lambda>r.
        Ended (case r of Inl err \<Rightarrow> [] | Inr repos \<Rightarrow> map repo_to_dto repos)))"

definition member_dtos_turns :: "string list \<Rightarrow> member_dto list script" where
  "member_dtos_turns ids =
     (if ids = [] then Ended []
      else andthen (FindUsersByIDs_turns ids) (\<lambda>r.
        Ended (case r of Inl err \<Rightarrow> [] | Inr us \<Rightarrow> map member_to_dto us)))"

definition team_to_dto_turns :: "team \<Rightarrow> team_dto script" where
  "team_to_dto_turns t =
     andthen (repo_dtos_turns (team_repository_ids t)) (\<lambda>repos.
     andthen (member_dtos_turns (team_leader_ids t)) (\<lambda>leaders.
     andthen (member_dtos_turns (team_member_ids t)) (\<lambda>members.
     Ended \<lparr>td_id = team_id t, td_name = team_name t,
       td_leader_ids = team_leader_ids t, td_leaders = leaders,
       td_member_ids = team_member_ids t, td_members = members,
       td_repository_ids = team_repository_ids t, td_repositories = repos\<rparr>)))"

definition ListTeams_turns :: "env \<Rightarrow> auth_context option \<Rightarrow> response script" where
  "ListTeams_turns E actx =
     (case actx of
        None \<Rightarrow> Ended (writeError 401 ''not authenticated'')
      | Some authCtx \<Rightarrow>
          andthen (if IsAdmin authCtx then FindAllTeams_turns E
                   else FindTeamsByMemberID_turns (ctx_user_id authCtx)) (\<lambda>r.
          case r of
            Inl err \<Rightarrow> Ended (writeError 500 ''failed to load teams'')
          | Inr teams \<Rightarrow> andthen (script_map_state team_to_dto_turns teams) (\<lambda>dtos.
              Ended (writeJSON 200 (TeamsBody dtos)))))"

definition reuse_token_turns :: "string \<Rightarrow> git_platform \<Rightarrow> string script" where
  "reuse_token_turns teamID platform = andthen (FindTeamByID_turns teamID) (\<lambda>r.
     case r of
       Inl err \<Rightarrow> Ended []
     | Inr team \<Rightarrow>
         if team_repository_ids team = [] then Ended []
         else andthen (stmt (RepoStore_FindByIDs (team_repository_ids team))) (\<lambda>re.
           Ended (case re of Inl err \<Rightarrow> [] | Inr existing \<Rightarrow> existing_token platform existing)))"

definition AddRepository_turns :: "env \<Rightarrow> string \<Rightarrow> string \<Rightarrow> add_repo_request option \<Rightarrow> response script" where
  "AddRepository_turns E uuid teamID body =
     (if teamID = [] then Ended (writeError 400 ''team ID required'')
      else case body of
        None \<Rightarrow> Ended (writeError 400 ''invalid request body'')
      | Some req \<Rightarrow>
          if ar_full_name req = [] \<or> ar_platform req = []
          then Ended (writeError 400 ''fullName and platform are required'')
          else
            let platform = \<lparr>platform_name = ToUpper (unicode_upper E) (ar_platform req)\<rparr> in
            andthen (if ar_api_token req = [] then reuse_token_turns teamID platform
                     else Ended (ar_api_token req)) (\<lambda>apiToken.
            if apiToken = []
            then Ended (writeError 400 ''apiToken is required (no existing token found for this platform)'')
            else
              let repo = \<lparr>repo_id = ''r-'' @ take 8 uuid, repo_name = repo_short_name (ar_full_name req),
                repo_full_name = ar_full_name req, repo_url = [], repo_platform = platform,
                repo_api_token = apiToken\<rparr> in
              andthen (stmt (RepoStore_Upsert repo)) (\<lambda>rs.
              case rs of
                Inl err \<Rightarrow> Ended (writeError 500 ''failed to save repository'')
              | Inr saved \<Rightarrow> andthen (stmt (TeamRepo_AddRepository teamID (repo_id saved))) (\<lambda>ra.
                  Ended (case ra of
                    Inl err \<Rightarrow> writeError 500 ''failed to add repository to team''
                  | Inr _ \<Rightarrow> writeJSON 200
                      (FieldsBody [(''status'', ''added''), (''repoId'', repo_id saved)]))))))"

definition ListUsers_turns :: "env \<Rightarrow> response script" where
  "ListUsers_turns E = andthen (FindAllUsers_turns E) (\<lambda>ru.
     case ru of
       Inl err \<Rightarrow> Ended (writeError 500 ''failed to load users'')
     | Inr users \<Rightarrow> andthen (stmt (AccountRepo_FindAll E)) (\<lambda>ra.
         case ra of
           Inl err \<Rightarrow> Ended (writeError 500 ''failed to load accounts'')
         | Inr accounts \<Rightarrow> andthen (FindAllTeams_turns E) (\<lambda>rt.
             Ended (case rt of
               Inl err \<Rightarrow> writeError 500 ''failed to load teams''
             | Inr teams \<Rightarrow> writeJSON 200 (AdminUsersBody
                 (map (admin_user_of E (account_index accounts []) teams) users))))))"

definition BackupExport_turns :: "env \<Rightarrow> response script" where
  "BackupExport_turns E = andthen (Export_turns E) (\<lambda>r.
     Ended (case r of
       Inl err \<Rightarrow> writeError 500 ''failed to export backup''
     | Inr backup \<Rightarrow> writeJSON 200 (BackupBody backup)))"

section \<open>Middleware and routes\<close>

definition RequireAuth_turns :: "env \<Rightarrow> string \<Rightarrow> (auth_context option \<Rightarrow> response script) \<Rightarrow> response script" where
  "RequireAuth_turns E authHeader nxt =
     (if authHeader = [] then Ended (writeError 401 ''missing authorization header'')
      else
        let tokenStr = TrimPrefix authHeader ''Bearer '' in
        if tokenStr = authHeader then Ended (writeError 401 ''invalid authorization format'')
        else andthen (Validate_turns E tokenStr) (\<lambda>r.
          case r of
            Inl err \<Rightarrow> Ended (writeError 401 ''invalid token'')
          | Inr authCtx \<Rightarrow> nxt (Some authCtx)))"

definition RequireRole_turns ::
    "role list \<Rightarrow> (auth_context option \<Rightarrow> response script) \<Rightarrow> auth_context option \<Rightarrow> response script" where
  "RequireRole_turns roles nxt actx =
     (case actx of
        None \<Rightarrow> Ended (writeError 401 ''not authenticated'')
      | Some authCtx \<Rightarrow>
          if \<not> has_some_role (ctx_roles authCtx) roles
          then Ended (writeError 403 ''insufficient permissions'')
          else nxt actx)"

definition RequireTeamLeaderOrAdmin_turns ::
    "string \<Rightarrow> (auth_context option \<Rightarrow> response script) \<Rightarrow> auth_context option \<Rightarrow> response script" where
  "RequireTeamLeaderOrAdmin_turns teamID nxt actx =
     (case actx of
        None \<Rightarrow> Ended (writeError 401 ''not authenticated'')
      | Some authCtx \<Rightarrow>
          if map_flag (ctx_roles authCtx) RoleAdmin then nxt actx
          else if teamID = [] then Ended (writeError 400 ''team ID required'')
          else andthen (FindTeamByID_turns teamID) (\<lambda>r.
            case r of
              Inl err \<Rightarrow> Ended (writeError 404 ''team not found'')
            | Inr team \<Rightarrow>
                if ctx_user_id authCtx \<in> set (team_leader_ids team) then nxt actx
                else Ended (writeError 403 ''you are not a leader of this team'')))"

text \<open>A handler whose only call on the database is one statement or one transaction is one turn.\<close>

definition handle_turns :: "env \<Rightarrow> report_port \<Rightarrow> api_request \<Rightarrow> auth_context option \<Rightarrow> response script" where
  "handle_turns E R req actx =
     (case turns_of E req of
        Some p \<Rightarrow> p
      | None \<Rightarrow>
         (case req of
            Req_Login b \<Rightarrow> Login_turns E b
          | Req_StreamReport b \<Rightarrow> StreamReport_turns E R b actx
          | Req_GetProfile \<Rightarrow> GetProfile_turns E actx
          | Req_ListTeams \<Rightarrow> ListTeams_turns E actx
          | Req_AddRepository uuid t b \<Rightarrow> AddRepository_turns E uuid t b
          | Req_BackupExport \<Rightarrow> BackupExport_turns E
          | Req_ListUsers \<Rightarrow> ListUsers_turns E
          | _ \<Rightarrow> stmt (handle E R req actx)))"

definition serve_turns :: "env \<Rightarrow> report_port \<Rightarrow> string \<Rightarrow> api_request \<Rightarrow> response script" where
  "serve_turns E R authHeader req =
     (case group_of req of
        Public \<Rightarrow> handle_turns E R req None
      | Authenticated \<Rightarrow> RequireAuth_turns E authHeader (handle_turns E R req)
      | Team_Leader_Or_Admin t \<Rightarrow>
          RequireAuth_turns E authHeader (RequireTeamLeaderOrAdmin_turns t (handle_turns E R req))
      | Admin_Only \<Rightarrow> RequireAuth_turns E authHeader (RequireRole_turns [RoleAdmin] (handle_turns E R req)))"

section \<open>Alone, the requests are those of the router\<close>

lemma alone_Login: "alone (Login_turns E b) = AuthHandler_Login E b"
  by (auto intro!: state_ext simp: Login_turns_def AuthHandler_Login_def split: prod.splits sum.splits option.splits)

lemma alone_StreamReport: "alone (StreamReport_turns E R b actx) = ReportHandler_StreamReport E R b actx"
  by (auto intro!: state_ext simp: StreamReport_turns_def ReportHandler_StreamReport_def
      split: prod.splits sum.splits option.splits)

lemma alone_GetProfile: "alone (GetProfile_turns E actx) = ProfileHandler_GetProfile E actx"
  by (simp add: GetProfile_turns_def ProfileHandler_GetProfile_def split: option.split)

lemma alone_dtos [simp]:
  "alone (repo_dtos_turns ids) = repo_dtos ids"
  "alone (member_dtos_turns ids) = member_dtos ids"
  "alone (team_to_dto_turns t) = team_to_dto t"
proof -
  show "alone (repo_dtos_turns ids) = repo_dtos ids" for ids
    by (simp add: repo_dtos_turns_def repo_dtos_def)
  moreover show "alone (member_dtos_turns ids) = member_dtos ids" for ids
    by (simp add: member_dtos_turns_def member_dtos_def)
  ultimately show "alone (team_to_dto_turns t) = team_to_dto t"
    by (simp add: team_to_dto_turns_def team_to_dto_def)
qed

lemma alone_ListTeams: "alone (ListTeams_turns E actx) = TeamHandler_ListTeams E actx"
  by (auto intro!: state_ext simp: ListTeams_turns_def TeamHandler_ListTeams_def
      split: prod.splits sum.splits option.splits)

lemma alone_reuse_token [simp]: "alone (reuse_token_turns t p) = reuse_token t p"
  by (auto intro!: state_ext simp: reuse_token_turns_def reuse_token_def split: prod.splits sum.splits)

lemma alone_AddRepository: "alone (AddRepository_turns E uuid t b) = TeamHandler_AddRepository E uuid t b"
  by (auto intro!: state_ext simp: AddRepository_turns_def TeamHandler_AddRepository_def Let_def
      split: prod.splits sum.splits option.splits)

lemma alone_ListUsers: "alone (ListUsers_turns E) = AdminHandler_ListUsers E"
  by (auto intro!: state_ext simp: ListUsers_turns_def AdminHandler_ListUsers_def split: prod.splits sum.splits)

lemma alone_BackupExport: "alone (BackupExport_turns E) = BackupHandler_Export E"
  by (simp add: BackupExport_turns_def BackupHandler_Export_def BackupService_Export_def)

lemma alone_handle: "alone (handle_turns E R req actx) = handle E R req actx"
proof (cases "turns_of E req")
  case None
  then show ?thesis
    by (cases req) (simp_all add: handle_turns_def handle_def alone_Login alone_StreamReport alone_GetProfile
        alone_ListTeams alone_AddRepository alone_ListUsers alone_BackupExport)
next
  case (Some p)
  then show ?thesis by (simp add: handle_turns_def turns_of_handle [OF Some, of R actx])
qed

lemma alone_middleware:
  "alone (RequireAuth_turns E h nxt) = RequireAuth E h (\<lambda>actx. alone (nxt actx))"
  "alone (RequireRole_turns roles nxt actx) = RequireRole roles (\<lambda>actx. alone (nxt actx)) actx"
  "alone (RequireTeamLeaderOrAdmin_turns t nxt actx) = RequireTeamLeaderOrAdmin t (\<lambda>actx. alone (nxt actx)) actx"
  by (auto intro!: state_ext simp: RequireAuth_turns_def RequireAuth_def RequireRole_turns_def RequireRole_def
      RequireTeamLeaderOrAdmin_turns_def RequireTeamLeaderOrAdmin_def Let_def
      split: prod.splits sum.splits option.splits)

lemma alone_serve: "alone (serve_turns E R h req) = serve E R h req"
  by (simp add: serve_turns_def serve_def alone_handle alone_middleware split: route_group.split)

section \<open>The schema, whatever the requests\<close>

lemma every_turn_case_outcome [turn_rules]:
  "(\<And>x. every_turn I (f x)) \<Longrightarrow> every_turn I p \<Longrightarrow> every_turn I q \<Longrightarrow>
   every_turn I (case r of Returned x \<Rightarrow> f x | Panicked \<Rightarrow> p | Diverged \<Rightarrow> q)"
  by (cases r) auto

lemma every_turn_case_prod [turn_rules]: "(\<And>x y. every_turn I (f x y)) \<Longrightarrow> every_turn I (case r of (x, y) \<Rightarrow> f x y)"
  by (cases r) auto

context program_invariant
begin

lemma turns_users [turn_rules]:
  "every_turn I (load_user_turns r)"
  "every_turn I (FindUsersByIDs_turns ids)"
  "every_turn I (FindUserByAccountID_turns a)"
  "every_turn I (FindAllUsers_turns E)"
  unfolding FindUsersByIDs_turns_def FindUserByAccountID_turns_def FindAllUsers_turns_def load_user_turns_def
    loadPlatformUsernames_def
  by (intro turn_rules keeps_rules)+

lemma turns_services [turn_rules]:
  "every_turn I (Export_turns E)" "every_turn I (Validate_turns E t)"
  "every_turn I (upsert_discovered_turns f u)"
  unfolding Export_turns_def Validate_turns_def upsert_discovered_turns_def
  by (intro turn_rules keeps_rules keeps_routine_writes)+

lemma turns_start_groups [turn_rules]: "every_turn I (start_groups_turns reg m q gs)"
  by (induction gs) (auto intro!: turn_rules split: sum.splits)

lemma turns_send_reports [turn_rules]: "every_turn I (send_reports_turns E reg scheds n gs q ms)"
  by (induction ms arbitrary: n) (auto intro!: turn_rules simp: fetchMemberReport_turns_def)

lemma turns_handlers [turn_rules]:
  "every_turn I (Login_turns E lb)" "every_turn I (StreamReport_turns E R rb actx)"
  "every_turn I (GetProfile_turns E actx)" "every_turn I (ListTeams_turns E actx)"
  "every_turn I (AddRepository_turns E uuid t ab)" "every_turn I (ListUsers_turns E)"
  "every_turn I (BackupExport_turns E)"
  unfolding Login_turns_def StreamReport_turns_def GetProfile_turns_def ListTeams_turns_def AddRepository_turns_def
    ListUsers_turns_def BackupExport_turns_def GenerateReport_turns_def team_to_dto_turns_def
    repo_dtos_turns_def member_dtos_turns_def reuse_token_turns_def
  by (intro turn_rules keeps_rules keeps_routine_writes)+

lemma turns_handle: "every_turn I (handle_turns E R req actx)"
proof (cases "turns_of E req")
  case None
  then show ?thesis by (cases req) (auto simp: handle_turns_def intro!: turn_rules keeps_handle)
qed (simp add: handle_turns_def turns_admin)

lemma turns_serve: "every_turn I (serve_turns E R h req)"
  unfolding serve_turns_def RequireAuth_turns_def RequireRole_turns_def RequireTeamLeaderOrAdmin_turns_def
  by (auto simp: Let_def split: route_group.splits option.splits intro!: turn_rules turns_handle)

end

text \<open>Any requests, interleaved in any way.\<close>

lemma schema_interleaving:
  assumes "\<And>p. p \<in> set ps \<Longrightarrow> \<exists>E R h req. p = serve_turns E R h req"
    and "request_step\<^sup>*\<^sup>* (ps, s) (ps', s')" "schema_ok s"
  shows "schema_ok s'"
  using every_turn_run [where I = schema_ok, OF assms(2) _ assms(3)] assms(1) schema_program.turns_serve by blast

end
