(* ===== verification/Server.thy ===== *)
theory Server
  imports Concurrent_Requests
begin

text \<open>
  The life of the process (\<open>cmd/api/main.go\<close>, after the start): requests are accepted and served at
  the same time until \<open>ListenAndServe\<close> fails (status 1, at once) or a signal arrives; then
  \<open>srv.Shutdown\<close> accepts nothing more and waits, five seconds at most, for the requests in flight;
  whatever is still running when the process ends is cut between two statements. Shown: what ends
  and when, which invariants survive a cut, and what does not survive one.
\<close>

section \<open>The process\<close>

datatype phase = Listening | Draining | Closing | Exited nat

text \<open>\<open>sv_requests\<close>: every request accepted so far, as far as it has come; \<open>sv_waited\<close>: the seconds that
  have passed in \<open>srv.Shutdown\<close>.\<close>

record 'a server =
  sv_phase :: phase
  sv_requests :: "'a script list"
  sv_store :: db
  sv_waited :: nat

definition shutdown_timeout :: nat where
  "shutdown_timeout = 5"

definition answered :: "'a script \<Rightarrow> bool" where
  "answered p \<longleftrightarrow> (\<exists>a. p = Ended a)"

text \<open>\<open>P\<close>: the scripts of the requests that may come.\<close>

inductive server_step :: "('a script \<Rightarrow> bool) \<Rightarrow> 'a server \<Rightarrow> 'a server \<Rightarrow> bool" for P where
  accept: "\<lbrakk>sv_phase c = Listening; P p\<rbrakk>
    \<Longrightarrow> server_step P c (c\<lparr>sv_requests := sv_requests c @ [p]\<rparr>)"
| serve_turn: "\<lbrakk>sv_phase c = Listening \<or> sv_phase c = Draining \<or> sv_phase c = Closing;
      request_step (sv_requests c, sv_store c) (ps, s)\<rbrakk>
    \<Longrightarrow> server_step P c (c\<lparr>sv_requests := ps, sv_store := s\<rparr>)"
| listen_fails: "sv_phase c = Listening \<Longrightarrow> server_step P c (c\<lparr>sv_phase := Exited 1\<rparr>)"
| signalled: "sv_phase c = Listening \<Longrightarrow> server_step P c (c\<lparr>sv_phase := Draining, sv_waited := 0\<rparr>)"
| second_passes: "\<lbrakk>sv_phase c = Draining; sv_waited c < shutdown_timeout\<rbrakk>
    \<Longrightarrow> server_step P c (c\<lparr>sv_waited := Suc (sv_waited c)\<rparr>)"
| drained: "\<lbrakk>sv_phase c = Draining; \<forall>p\<in>set (sv_requests c). answered p\<rbrakk>
    \<Longrightarrow> server_step P c (c\<lparr>sv_phase := Closing\<rparr>)"
| expired: "\<lbrakk>sv_phase c = Draining; sv_waited c = shutdown_timeout\<rbrakk>
    \<Longrightarrow> server_step P c (c\<lparr>sv_phase := Closing\<rparr>)"
| exits: "sv_phase c = Closing \<Longrightarrow> server_step P c (c\<lparr>sv_phase := Exited 0\<rparr>)"

inductive_cases server_step_cases: "server_step P c c'"

lemmas server_stepE = server_step_cases [consumes 1, case_names
  accept serve_turn listen_fails signalled second_passes drained expired exits]

definition server_start :: "db \<Rightarrow> 'a server" where
  "server_start s = \<lparr>sv_phase = Listening, sv_requests = [], sv_store = s, sv_waited = 0\<rparr>"

section \<open>Invariants survive, whenever the process ends\<close>

definition serves_ok :: "(db \<Rightarrow> bool) \<Rightarrow> 'a server \<Rightarrow> bool" where
  "serves_ok I c \<longleftrightarrow> all_fit (\<lambda>s t. True) I (\<lambda>i a t. True) (sv_requests c, sv_store c)"

lemma serves_ok_step:
  assumes "server_step P c c'" "serves_ok I c" "\<And>p. P p \<Longrightarrow> every_turn I p"
  shows "serves_ok I c'"
  using assms(1)
proof (cases rule: server_stepE)
  case (accept p)
  have "fits (\<lambda>s t. True) I (\<lambda>a t. True) p (sv_store c)"
    using assms(2) assms(3) [OF accept(3)] by (simp add: serves_ok_def all_fit_def every_turn_def)
  with assms(2) show ?thesis
    unfolding accept(1) by (auto simp: serves_ok_def all_fit_def nth_append less_Suc_eq)
next
  case (serve_turn ps s)
  from all_fit_step [OF serve_turn(3)] assms(2) show ?thesis
    unfolding serve_turn(1) by (auto simp: serves_ok_def)
qed (use assms(2) in \<open>simp_all add: serves_ok_def\<close>)

lemma server_keeps:
  assumes "(server_step P)\<^sup>*\<^sup>* (server_start s) c" "I s" "\<And>p. P p \<Longrightarrow> every_turn I p"
  shows "I (sv_store c)"
proof -
  from assms(1) have "serves_ok I c"
  proof (induction rule: rtranclp_induct)
    case base
    show ?case using assms(2) by (simp add: serves_ok_def all_fit_def server_start_def)
  next
    case (step c c')
    then show ?case using serves_ok_step assms(3) by blast
  qed
  then show ?thesis by (simp add: serves_ok_def all_fit_def)
qed

text \<open>The requests of the program.\<close>

definition program_request :: "response script \<Rightarrow> bool" where
  "program_request p \<longleftrightarrow> (\<exists>E R h req. p = serve_turns E R h req)"

lemma program_keeps_schema:
  assumes "(server_step program_request)\<^sup>*\<^sup>* (server_start s) c" "schema_ok s"
  shows "schema_ok (sv_store c)"
  using server_keeps [where I = schema_ok, OF assms] schema_program.turns_serve
  by (auto simp: program_request_def)

section \<open>Shutting down\<close>

definition shuts_ok :: "'a server \<Rightarrow> bool" where
  "shuts_ok c \<longleftrightarrow> sv_waited c \<le> shutdown_timeout \<and>
     (sv_phase c = Closing \<or> sv_phase c = Exited 0 \<longrightarrow>
        (\<forall>p\<in>set (sv_requests c). answered p) \<or> sv_waited c = shutdown_timeout)"

lemma answered_no_step:
  assumes "\<forall>p\<in>set ps. answered p"
  shows "\<not> request_step (ps, s) c"
  using assms by (auto elim!: request_stepE simp: answered_def dest!: nth_mem)

lemma shuts_ok_step:
  assumes "server_step P c c'" "shuts_ok c"
  shows "shuts_ok c'"
  using assms(1)
proof (cases rule: server_stepE)
  case (serve_turn ps s)
  from serve_turn(3) have "\<not> (\<forall>p\<in>set (sv_requests c). answered p)"
    using answered_no_step by blast
  with assms(2) show ?thesis unfolding serve_turn(1) shuts_ok_def by auto
qed (use assms(2) in \<open>simp_all add: shuts_ok_def\<close>)

lemma shuts_ok_run: "(server_step P)\<^sup>*\<^sup>* (server_start s) c \<Longrightarrow> shuts_ok c"
proof (induction rule: rtranclp_induct)
  case base
  show ?case by (simp add: server_start_def shuts_ok_def)
qed (rule shuts_ok_step)

lemma request_step_length: "request_step c c' \<Longrightarrow> length (fst c') = length (fst c)"
  by (induction rule: request_step.induct) simp

lemma no_more_step:
  assumes "server_step P c c'" "sv_phase c \<noteq> Listening"
  shows "sv_phase c' \<noteq> Listening \<and> length (sv_requests c') = length (sv_requests c)"
  using assms by (cases rule: server_stepE) (auto dest!: request_step_length)

lemma no_more_requests:
  assumes "(server_step P)\<^sup>*\<^sup>* c c'" "sv_phase c \<noteq> Listening"
  shows "sv_phase c' \<noteq> Listening \<and> length (sv_requests c') = length (sv_requests c)"
  using assms by (induction rule: rtranclp_induct) (auto dest!: no_more_step)

text \<open>The process can always go on towards its end, whatever the requests do.\<close>

lemma closing_exits: "sv_phase c = Closing \<Longrightarrow> (server_step P)\<^sup>*\<^sup>* c (c\<lparr>sv_phase := Exited 0\<rparr>)"
  by (blast intro: server_step.exits)

lemma draining_exits:
  assumes "sv_phase c = Draining" "sv_waited c \<le> shutdown_timeout"
  shows "(server_step P)\<^sup>*\<^sup>* c (c\<lparr>sv_phase := Exited 0, sv_waited := shutdown_timeout\<rparr>)"
  using assms
proof (induction "shutdown_timeout - sv_waited c" arbitrary: c)
  case 0
  then have w: "sv_waited c = shutdown_timeout" by simp
  then have "server_step P c (c\<lparr>sv_phase := Closing\<rparr>)" using 0 by (intro server_step.expired)
  moreover have "server_step P (c\<lparr>sv_phase := Closing\<rparr>) (c\<lparr>sv_phase := Exited 0\<rparr>)"
    using server_step.exits [of "c\<lparr>sv_phase := Closing\<rparr>" P] by simp
  moreover have "c\<lparr>sv_phase := Exited 0\<rparr> = c\<lparr>sv_phase := Exited 0, sv_waited := shutdown_timeout\<rparr>"
    using w by (cases c) simp
  ultimately show ?case by (metis converse_rtranclp_into_rtranclp rtranclp.rtrancl_refl)
next
  case (Suc n)
  let ?c = "c\<lparr>sv_waited := Suc (sv_waited c)\<rparr>"
  have "server_step P c ?c" using Suc by (intro server_step.second_passes) simp_all
  moreover have "(server_step P)\<^sup>*\<^sup>* ?c (?c\<lparr>sv_phase := Exited 0, sv_waited := shutdown_timeout\<rparr>)"
    using Suc by (intro Suc.hyps(1)) simp_all
  ultimately show ?case by (simp add: converse_rtranclp_into_rtranclp)
qed

section \<open>What a cut leaves\<close>

lemma turns_served:
  assumes "request_step\<^sup>*\<^sup>* c (ps, s)" "sv_phase sv = Listening" "(sv_requests sv, sv_store sv) = c"
  shows "(server_step P)\<^sup>*\<^sup>* sv (sv\<lparr>sv_requests := ps, sv_store := s\<rparr>)"
  using assms
proof (induction arbitrary: sv rule: converse_rtranclp_induct)
  case base
  then have "sv\<lparr>sv_requests := ps, sv_store := s\<rparr> = sv" by (cases sv) simp
  then show ?case by simp
next
  case (step c c')
  obtain qs s1 where c': "c' = (qs, s1)" by fastforce
  let ?sv = "sv\<lparr>sv_requests := qs, sv_store := s1\<rparr>"
  have "server_step P sv ?sv"
    using step.hyps(1) step.prems unfolding c' by (intro server_step.serve_turn) simp_all
  moreover have "(server_step P)\<^sup>*\<^sup>* ?sv (?sv\<lparr>sv_requests := ps, sv_store := s\<rparr>)"
    using step.prems by (intro step.IH) (simp_all add: c')
  ultimately show ?case by (simp add: converse_rtranclp_into_rtranclp)
qed

text \<open>A request may be cut between any two of its turns: a signal comes, the five seconds pass, and the
  process exits with status 0.\<close>

lemma cut_anywhere:
  assumes "P p" "request_step\<^sup>*\<^sup>* ([p], s) ([q], s')"
  shows "(server_step P)\<^sup>*\<^sup>* (server_start s) \<lparr>sv_phase = Exited 0, sv_requests = [q], sv_store = s', sv_waited = 5\<rparr>"
proof -
  let ?c = "\<lambda>ph ps s w. \<lparr>sv_phase = ph, sv_requests = ps, sv_store = s, sv_waited = w\<rparr>"
  have "server_step P (server_start s) (?c Listening [p] s 0)"
    using server_step.accept [of "server_start s" P p] assms(1) by (simp add: server_start_def)
  moreover have "(server_step P)\<^sup>*\<^sup>* (?c Listening [p] s 0) (?c Listening [q] s' 0)"
    using turns_served [OF assms(2), of "?c Listening [p] s 0" P] by simp
  moreover have "server_step P (?c Listening [q] s' 0) (?c Draining [q] s' 0)"
    using server_step.signalled [of "?c Listening [q] s' 0" P] by simp
  moreover have "(server_step P)\<^sup>*\<^sup>* (?c Draining [q] s' 0) (?c (Exited 0) [q] s' 5)"
    using draining_exits [of "?c Draining [q] s' 0" P] by (simp add: shutdown_timeout_def)
  ultimately show ?thesis
    by (meson converse_rtranclp_into_rtranclp rtranclp_trans)
qed

text \<open>A user without an account: the process ends after the first statement of \<open>CreateUser\<close>, whatever
  the request has read before.\<close>

lemma half_created_user:
  assumes s: "healthy s" "schema_ok s" and req: "cu_username req \<noteq> []" "cu_password req \<noteq> []" "cu_display_name req \<noteq> []"
    and hash: "bcrypt_hash E (cu_password req) = Some h"
    and fresh: "''u-'' @ take 8 uuid1 \<notin> user_ids s" "cu_username req \<notin> ur_username ` set (users_table s)"
    and P: "P p" and started: "request_step\<^sup>*\<^sup>* ([p], s) ([CreateUser_turns E uuid1 uuid2 (Some req)], s)"
  obtains c where "(server_step P)\<^sup>*\<^sup>* (server_start s) c" "sv_phase c = Exited 0"
    "''u-'' @ take 8 uuid1 \<in> user_ids (sv_store c)" "\<forall>a\<in>set (accounts_table (sv_store c)). ar_user_id a \<noteq> ''u-'' @ take 8 uuid1"
proof -
  let ?u = "\<lparr>user_id = ''u-'' @ take 8 uuid1, user_username = cu_username req,
    user_display_name = cu_display_name req, user_email = cu_email req, user_avatar_url = [], user_platform_usernames = []\<rparr>"
  let ?s = "s\<lparr>users_table := users_table s @ [row_of_user ?u]\<rparr>"
  have "run_state (alone (stmt (UserRepo_Save ?u))) s = (Inr (), ?s)"
    using fresh s(1)
    by (simp add: UserRepo_Save_def run_write_healthy row_of_user_def sql_upsert_user_def sql_insert_user_def)
  moreover obtain k where "CreateUser_turns E uuid1 uuid2 (Some req) = andthen (stmt (UserRepo_Save ?u)) k"
    using req hash by (simp add: CreateUser_turns_def Let_def)
  ultimately have "request_step\<^sup>*\<^sup>* ([CreateUser_turns E uuid1 uuid2 (Some req)], s) ([k (Inr ())], ?s)"
    using prefix_first [of 0 "[CreateUser_turns E uuid1 uuid2 (Some req)]" "stmt (UserRepo_Save ?u)" k s "Inr ()" ?s] by simp
  note cut = cut_anywhere [of P, OF P rtranclp_trans [OF started this]]
  have "\<forall>a\<in>set (accounts_table s). ar_user_id a \<noteq> ''u-'' @ take 8 uuid1"
    using s(2) fresh(1) by (auto simp: schema_ok_def accounts_ok_def)
  then show thesis
    by (intro that [OF cut]) (simp_all add: row_of_user_def user_ids_def)
qed

end
