(* ===== verification/Torn_Backup.thy ===== *)
theory Torn_Backup
  imports Concurrent_Requests Lifecycle
begin

text \<open>
  A backup that cannot be restored. \<open>Export\<close> (\<open>pgx_backup_repo.go\<close>) reads its tables one after the
  other and in no transaction; when a user is created between the reading of the users and the
  reading of the accounts, the backup holds an account whose user it does not hold, and every
  attempt to restore it fails on the foreign key.
\<close>

section \<open>Accounts need their users\<close>

lemma for_each_blocked:
  assumes "x \<in> set xs" "\<And>s. I s \<Longrightarrow> fst (run_state (f x) s) \<noteq> Inr ()" "\<And>y. keeps I (f y)" "I s"
  shows "fst (run_state (for_each f xs) s) \<noteq> Inr ()"
  using assms(1,4)
proof (induction xs arbitrary: s)
  case (Cons y ys)
  obtain r s1 where run: "run_state (f y) s = (r, s1)" by fastforce
  then have "I s1" using keeps_run [OF assms(3) Cons.prems(2)] by blast
  then show ?case
    using Cons assms(2) [OF Cons.prems(2)] run by (cases r) (auto split: prod.splits sum.splits)
qed simp

interpretation some_users: stmt_invariant "\<lambda>s. user_ids s \<subseteq> U"
  by unfold_locales (simp add: user_ids_def)

lemma clear_no_users:
  assumes "run_state (for_each clear_table restore_tables) s = (Inr (), s')"
  shows "user_ids s' \<subseteq> U"
proof -
  have clear: "users_table s2 = (if snd t = T_users then [] else users_table s1)"
    if "run_state (clear_table t) s1 = (Inr (), s2)" for t s1 s2
    using that by (cases "snd t")
      (auto simp: clear_table_def wrapf_def split: prod.splits sum.splits dest!: exec_ok)
  show ?thesis
    using assms unfolding restore_tables_def
    by (auto simp: user_ids_def split: prod.splits sum.splits dest!: clear)
qed

lemma restored_user_ids:
  "sql_insert_user r s = Inr s' \<Longrightarrow> user_ids s' = insert (ur_id r) (user_ids s)"
  "sql_insert_platform_username p s = Inr s' \<Longrightarrow> user_ids s' = user_ids s"
  "sql_insert_account i u h rs v s = Inr s' \<Longrightarrow> user_ids s' = user_ids s"
  by (auto simp: sql_insert_user_def sql_insert_platform_username_def sql_insert_account_def user_ids_def
      split: if_splits option.splits)

lemma keeps_restored_users:
  assumes "user_id u \<in> U"
  shows "keeps (\<lambda>s. user_ids s \<subseteq> U) (restore_user it u)"
  using assms unfolding restore_user_def restore_platform_def
  by (intro keeps_rules some_users.keeps_exec keeps_check_err) (simp_all add: restored_user_ids row_of_user_def)

lemma keeps_restored_accounts: "keeps (\<lambda>s. user_ids s \<subseteq> U) (restore_account it a)"
  unfolding restore_account_def
  by (intro keeps_rules some_users.keeps_exec) (simp add: restored_user_ids)

lemma restore_no_user:
  assumes "user_ids s \<subseteq> U" "account_user_id a \<notin> U"
  shows "fst (run_state (restore_account it a) s) \<noteq> Inr ()"
proof
  assume "fst (run_state (restore_account it a) s) = Inr ()"
  then obtain s' where "run_state (restore_account it a) s = (Inr (), s')" by (metis prod.collapse)
  then obtain fs where "sql_insert_account (account_id a) (account_username a) (account_password_hash a)
      (rolesToStrings it (account_roles a)) (account_user_id a) (s\<lparr>faults := fs\<rparr>) = Inr s'"
    by (auto simp: restore_account_def wrapf_def split: prod.splits sum.splits dest!: exec_ok)
  with assms show False
    by (auto simp: sql_insert_account_def user_ids_def split: option.splits if_splits)
qed

lemma restore_needs_users:
  assumes "a \<in> set (backup_accounts b)" "account_user_id a \<notin> user_id ` set (backup_users b)"
  shows "fst (run_state (BackupRepo_Restore E b) s) \<noteq> Inr ()"
proof
  let ?U = "user_id ` set (backup_users b)" and ?users = "for_each (restore_user (iter E)) (backup_users b)"
  let ?accounts = "for_each (restore_account (iter E)) (backup_accounts b)"
  assume "fst (run_state (BackupRepo_Restore E b) s) = Inr ()"
  then obtain s' where ok: "run_state (BackupRepo_Restore E b) s = (Inr (), s')"
    by (metis prod.collapse)
  have users: "user_ids s2 \<subseteq> ?U" if "run_state ?users s1 = (Inr (), s2)" "user_ids s1 \<subseteq> ?U" for s1 s2
    using keeps_run [OF keeps_for_each [OF keeps_restored_users] that(2,1)] by auto
  have accounts: "run_state ?accounts s1 \<noteq> (Inr (), s2)" if "user_ids s1 \<subseteq> ?U" for s1 s2
    using for_each_blocked [where I = "\<lambda>s. user_ids s \<subseteq> ?U" and f = "restore_account (iter E)", OF assms(1)
      restore_no_user [OF _ assms(2)] keeps_restored_accounts that] by (metis fst_conv)
  show False
    using ok unfolding BackupRepo_Restore_def
    by (auto simp: in_tx_def check_err_def split: prod.splits sum.splits option.splits)
      (metis accounts users clear_no_users)
qed

section \<open>The interleaving\<close>

lemma create_user_run:
  assumes "healthy s" "iteration_ok (iter E)" and req: "cu_username req \<noteq> []" "cu_password req \<noteq> []" "cu_display_name req \<noteq> []"
    and hash: "bcrypt_hash E (cu_password req) = Some h"
    and fresh: "''u-'' @ take 8 uuid1 \<notin> user_ids s" "''a-'' @ take 8 uuid2 \<notin> ar_id ` set (accounts_table s)"
      "cu_username req \<notin> ur_username ` set (users_table s)" "cu_username req \<notin> ar_username ` set (accounts_table s)"
  obtains r s' a where "run_state (AdminHandler_CreateUser E uuid1 uuid2 (Some req)) s = (r, s')" "status r = 201"
    "healthy s'" "a \<in> set (accounts_table s')" "ar_user_id a = ''u-'' @ take 8 uuid1"
proof -
  let ?rs = "if cu_roles req = [] then [RoleTeamMember] else cu_roles req"
  have "?rs \<noteq> []" by simp
  then obtain strs where strs: "rolesToStrings (iter E) (role_set ?rs []) = Some strs"
    by (rule role_set_strings [OF assms(2)])
  let ?u = "new_user_row (''u-'' @ take 8 uuid1) req"
  let ?a = "new_account_row (''a-'' @ take 8 uuid2) (''u-'' @ take 8 uuid1) h strs req"
  let ?s1 = "s\<lparr>users_table := users_table s @ [?u]\<rparr>"
  let ?s' = "?s1\<lparr>accounts_table := accounts_table s @ [?a]\<rparr>"
  have user: "run_state (UserRepo_Save \<lparr>user_id = ''u-'' @ take 8 uuid1, user_username = cu_username req,
      user_display_name = cu_display_name req, user_email = cu_email req, user_avatar_url = [],
      user_platform_usernames = []\<rparr>) s = (Inr (), ?s1)"
    using assms(1) fresh(1,3)
    by (simp add: UserRepo_Save_def run_write_healthy row_of_user_def new_user_row_def sql_upsert_user_def sql_insert_user_def)
  have "healthy ?s1" using assms(1) by (simp add: healthy_def)
  then have "run_state (AccountRepo_Save E \<lparr>account_id = ''a-'' @ take 8 uuid2, account_username = cu_username req,
      account_password_hash = h, account_roles = role_set ?rs [], account_user_id = ''u-'' @ take 8 uuid1\<rparr>) ?s1
    = (Inr (), ?s')"
    using fresh(2,4)
    by (simp add: AccountRepo_Save_def run_write_healthy strs sql_upsert_account_def sql_insert_account_def
        new_account_row_def new_user_row_def user_ids_def)
  with user req hash have "\<exists>r. run_state (AdminHandler_CreateUser E uuid1 uuid2 (Some req)) s = (r, ?s') \<and> status r = 201"
    by (simp add: AdminHandler_CreateUser_def Let_def)
  then show thesis
    using that [of _ ?s' ?a] assms(1) by (auto simp: healthy_def new_account_row_def)
qed

text \<open>What is left of an export that has read the users.\<close>

definition rest_of_export :: "env \<Rightarrow> user list \<Rightarrow> backup_file result script" where
  "rest_of_export E users =
     checked (wrapped ''export accounts'' (stmt (AccountRepo_FindAll E))) (\<lambda>accounts.
     checked (wrapped ''export teams'' (FindAllTeams_turns E)) (\<lambda>teams.
     checked (wrapped ''export repos'' (stmt (RepoStore_FindAll E))) (\<lambda>repos.
     checked (wrapped ''export config'' (stmt (ConfigRepo_FindAll E))) (\<lambda>config.
     Ended (Inr \<lparr>
       backup_metadata = \<lparr>app_version = ''1.0.0'', exported_at = now E, exported_by = []\<rparr>,
       backup_users = users, backup_accounts = accounts, backup_teams = teams,
       backup_repositories = map encode_repo_token repos, backup_config = config\<rparr>)))))"

lemma run_rest_of_export:
  "healthy s \<Longrightarrow> run_state (alone (rest_of_export E users)) s = (Inr ((backup_of E s)\<lparr>backup_users := users\<rparr>), s)"
  by (simp add: rest_of_export_def backup_of_def run_rules)

definition answer_export :: "backup_file result \<Rightarrow> response" where
  "answer_export r = (case r of
     Inl err \<Rightarrow> writeError 500 ''failed to export backup'' | Inr backup \<Rightarrow> writeJSON 200 (BackupBody backup))"

lemma export_reads_users: "\<exists>k. BackupExport_turns E = andthen (wrapped ''export users'' (FindAllUsers_turns E)) k \<and>
    (\<forall>users. k (Inr users) = andthen (rest_of_export E users) (\<lambda>r. Ended (answer_export r)))"
  unfolding BackupExport_turns_def Export_turns_def checked_def [of "wrapped ''export users'' _"] andthen_assoc
  by (rule exI, rule conjI, rule refl) (simp add: rest_of_export_def answer_export_def)

lemma torn_backup:
  assumes s: "healthy s" "iteration_ok (iter E)" and req: "cu_username req \<noteq> []" "cu_password req \<noteq> []" "cu_display_name req \<noteq> []"
    and hash: "bcrypt_hash E (cu_password req) = Some h"
    and fresh: "''u-'' @ take 8 uuid1 \<notin> user_ids s" "''a-'' @ take 8 uuid2 \<notin> ar_id ` set (accounts_table s)"
      "cu_username req \<notin> ur_username ` set (users_table s)" "cu_username req \<notin> ar_username ` set (accounts_table s)"
  obtains r b s' where
    "request_step\<^sup>*\<^sup>* ([BackupExport_turns E, CreateUser_turns E uuid1 uuid2 (Some req)], s)
       ([Ended (writeJSON 200 (BackupBody b)), Ended r], s')" "status r = 201"
    "\<exists>a\<in>set (backup_accounts b). account_user_id a \<notin> user_id ` set (backup_users b)"
proof -
  let ?q = "CreateUser_turns E uuid1 uuid2 (Some req)"
  let ?users = "map (user_view s) (order_by (collate E) ur_username (users_table s))"
  from export_reads_users [of E] obtain k where k:
    "BackupExport_turns E = andthen (wrapped ''export users'' (FindAllUsers_turns E)) k"
    "\<forall>users. k (Inr users) = andthen (rest_of_export E users) (\<lambda>r. Ended (answer_export r))"
    by (elim exE conjE)
  let ?rest = "andthen (rest_of_export E ?users) (\<lambda>r. Ended (answer_export r))"
  have "run_state (alone (wrapped ''export users'' (FindAllUsers_turns E))) s = (Inr ?users, s)"
    using s(1) by (simp add: run_rules)
  then have st1: "request_step\<^sup>*\<^sup>* ([BackupExport_turns E, ?q], s) ([?rest, ?q], s)"
    using prefix_first [of 0 "[BackupExport_turns E, ?q]" "wrapped ''export users'' (FindAllUsers_turns E)" k s "Inr ?users" s] k
    by simp
  obtain r s' a where made: "run_state (AdminHandler_CreateUser E uuid1 uuid2 (Some req)) s = (r, s')" "status r = 201"
    "healthy s'" "a \<in> set (accounts_table s')" "ar_user_id a = ''u-'' @ take 8 uuid1"
    by (rule create_user_run [OF s req hash fresh])
  then have st2: "request_step\<^sup>*\<^sup>* ([?rest, ?q], s) ([?rest, Ended r], s')"
    using run_first [of 1 "[?rest, ?q]" s r s'] by (simp add: alone_users)
  let ?b = "(backup_of E s')\<lparr>backup_users := ?users\<rparr>"
  have "run_state (alone ?rest) s' = (writeJSON 200 (BackupBody ?b), s')"
    using run_rest_of_export [OF made(3)] by (simp add: answer_export_def)
  then have st3: "request_step\<^sup>*\<^sup>* ([?rest, Ended r], s') ([Ended (writeJSON 200 (BackupBody ?b)), Ended r], s')"
    using run_first [of 0 "[?rest, Ended r]" s' "writeJSON 200 (BackupBody ?b)" s'] by simp
  have "scanAccount a \<in> set (backup_accounts ?b)" using made(4) by (simp add: backup_of_def)
  moreover have "account_user_id (scanAccount a) \<notin> user_id ` set (backup_users ?b)"
    using made(5) fresh(1) by (auto simp: scanAccount_def user_view_def user_of_row_def user_ids_def)
  ultimately show thesis
    using that [OF rtranclp_trans [OF rtranclp_trans [OF st1 st2] st3] made(2)] by blast
qed

end
