(* ===== verification/Concurrent_Properties.thy ===== *)
theory Concurrent_Properties
  imports Instances Server Torn_Backup
begin

text \<open>
  The properties of requests that run at the same time (\<open>Concurrent_Admin\<close>) and of the process that
  serves them (\<open>Server\<close>), with their witnesses.
\<close>

text \<open>C22. A backup that is lost: an export reads the tables one after the other, and a user who is
  created after it has read the users and before it has read the accounts is in the backup by the
  account only. Both requests succeed, and every attempt to restore this backup, into any store
  and by a program with any environment, is answered with 500 and changes no table.\<close>

theorem torn_backup_lost:
  assumes "healthy s" "iteration_ok (iter E)" "cu_username req \<noteq> []" "cu_password req \<noteq> []" "cu_display_name req \<noteq> []"
    and "bcrypt_hash E (cu_password req) = Some h"
    and "''u-'' @ take 8 uuid1 \<notin> user_ids s" "''a-'' @ take 8 uuid2 \<notin> ar_id ` set (accounts_table s)"
    and "cu_username req \<notin> ur_username ` set (users_table s)" "cu_username req \<notin> ar_username ` set (accounts_table s)"
  shows "\<exists>r b s'. request_step\<^sup>*\<^sup>* ([BackupExport_turns E, CreateUser_turns E uuid1 uuid2 (Some req)], s)
       ([Ended (writeJSON 200 (BackupBody b)), Ended r], s') \<and> status r = 201 \<and>
     (\<forall>E' t. let (r', t') = run_state (BackupHandler_Restore E' (Some b)) t in status r' = 500 \<and> tables t' = tables t)"
proof -
  obtain r b s' where torn: "request_step\<^sup>*\<^sup>* ([BackupExport_turns E, CreateUser_turns E uuid1 uuid2 (Some req)], s)
       ([Ended (writeJSON 200 (BackupBody b)), Ended r], s')" "status r = 201"
    "\<exists>a\<in>set (backup_accounts b). account_user_id a \<notin> user_id ` set (backup_users b)"
    by (rule torn_backup [OF assms])
  have "status r' = 500 \<and> tables t' = tables t" if "run_state (BackupHandler_Restore E' (Some b)) t = (r', t')" for E' t r' t'
  proof (cases "run_state (BackupRepo_Restore E' b) t")
    case (Pair res t1)
    with restore_needs_users [of _ b E' t] torn(3) obtain e where "res = Inl e" by (cases res) auto
    with Pair that restore_atomic [of E' b t e t1] show ?thesis
      by (auto simp: BackupHandler_Restore_def BackupService_Restore_def)
  qed
  with torn(1,2) show ?thesis by (auto simp: Let_def split: prod.splits)
qed

theorem torn_backup_lost_witness:
  "\<exists>r b s'. request_step\<^sup>*\<^sup>* ([BackupExport_turns demo_env, CreateUser_turns demo_env ''0a1b2c3d-4e5f'' ''4e5f6a7b-8c9d''
       (Some \<lparr>cu_username = ''dave'', cu_display_name = ''Dave'', cu_email = [], cu_password = ''pw'', cu_roles = []\<rparr>)], seeded)
     ([Ended (writeJSON 200 (BackupBody b)), Ended r], s') \<and> status r = 201"
proof -
  obtain h where "bcrypt_hash demo_env ''pw'' = Some h" by (simp add: demo_env_def)
  with torn_backup_lost [of seeded demo_env "\<lparr>cu_username = ''dave'', cu_display_name = ''Dave'', cu_email = [],
      cu_password = ''pw'', cu_roles = []\<rparr>" h "''0a1b2c3d-4e5f''" "''4e5f6a7b-8c9d''"]
  show ?thesis by (auto simp: user_ids_def seeded_tables)
qed

text \<open>C32. Requests that add members and leaders may run at the same time, their statements interleaved in
  any way and over a database with any faults: nothing that was there is lost, every leader is a
  member and every team has a leader at every moment, and each request that was answered with 200
  has taken effect and keeps it.\<close>

theorem additions_interleave:
  assumes "list_all2 (\<lambda>req p. is_addition req \<and> turns_of E req = Some p) reqs ps"
    and "leaders_among_members (org_of s)" "every_team_led (org_of s)"
    and "request_step\<^sup>*\<^sup>* (ps, s) (ps', s')"
  shows "leaders_among_members (org_of s') \<and> every_team_led (org_of s') \<and>
    set (members_table s) \<subseteq> set (members_table s') \<and> set (leaders_table s) \<subseteq> set (leaders_table s') \<and>
    (\<forall>i<length reqs. \<forall>r. ps' ! i = Ended r \<longrightarrow> addition_holds (reqs ! i) r s')"
  using additions_run [OF assms(1) _ assms(4)] assms(2,3) by (simp add: led_by_members_def grows_def)

text \<open>Two requests on the demonstration team, the second started before the first.\<close>

theorem additions_interleave_witness:
  "let ps = [AddMember_turns ''t-eng'' (Some ''u-admin''), AddLeader_turns demo_env ''t-eng'' (Some ''u-alice'')]
   in \<exists>r r' s'. request_step\<^sup>*\<^sup>* (ps, seeded) ([Ended r, Ended r'], s') \<and>
     leaders_among_members (org_of s') \<and> addition_holds (Req_AddLeader ''t-eng'' (Some ''u-alice'')) r' s'"
proof -
  let ?p = "AddMember_turns ''t-eng'' (Some ''u-admin'')" and ?q = "AddLeader_turns demo_env ''t-eng'' (Some ''u-alice'')"
  obtain r' s1 where q: "run_state (alone ?q) seeded = (r', s1)" by fastforce
  obtain r s2 where p: "run_state (alone ?p) s1 = (r, s2)" by fastforce
  have "request_step\<^sup>*\<^sup>* ([?p, ?q], seeded) ([?p, Ended r'], s1)"
    using run_first [of 1 "[?p, ?q]" seeded r' s1] q by simp
  moreover have "request_step\<^sup>*\<^sup>* ([?p, Ended r'], s1) ([Ended r, Ended r'], s2)"
    using run_first [of 0 "[?p, Ended r']" s1 r s2] p by simp
  ultimately have run: "request_step\<^sup>*\<^sup>* ([?p, ?q], seeded) ([Ended r, Ended r'], s2)"
    by (rule rtranclp_trans)
  have "leaders_among_members (org_of seeded)" "every_team_led (org_of seeded)"
    using org_ok_seeded by (simp_all add: org_ok_def)
  note all = additions_interleave [OF _ this run, of demo_env
      "[Req_AddMember ''t-eng'' (Some ''u-admin''), Req_AddLeader ''t-eng'' (Some ''u-alice'')]"]
  have "leaders_among_members (org_of s2)" using all by simp
  moreover have "\<forall>i<2. \<forall>a. [Ended r, Ended r'] ! i = Ended a \<longrightarrow> addition_holds
      ([Req_AddMember ''t-eng'' (Some ''u-admin''), Req_AddLeader ''t-eng'' (Some ''u-alice'')] ! i) a s2"
    using all by simp
  then have "addition_holds (Req_AddLeader ''t-eng'' (Some ''u-alice'')) r' s2"
    by (auto dest: spec [of _ 1])
  ultimately show ?thesis using run unfolding Let_def by blast
qed

text \<open>C34. Two removals at the same time leave a team without a leader: both requests count two leaders
  before either deletes one, and both are answered with 200. One after the other, in either
  order, they leave the team led.\<close>

theorem removals_race_leaderless:
  assumes "sound_store s" "iteration_ok (iter E)" "u \<noteq> v"
    and "\<And>w. (t, w) \<in> set (leaders_table s) \<longleftrightarrow> w = u \<or> w = v"
  shows "(\<exists>s'. request_step\<^sup>*\<^sup>*
        ([RemoveLeader_request_turns E t u, RemoveLeader_request_turns E t v], s)
        ([Ended (write_status ''removed''), Ended (write_status ''removed'')], s') \<and>
      t \<in> team_ids s' \<and> (\<forall>w. (t, w) \<notin> set (leaders_table s'))) \<and>
    (let (r, s1) = run_state (AdminHandler_RemoveLeader E t u) s;
         (r', s2) = run_state (AdminHandler_RemoveLeader E t v) s1
     in \<exists>w. (t, w) \<in> set (leaders_table s2))"
proof
  have "set (linked (leaders_table s) t) = {u, v}" by (intro set_eqI) (simp add: assms(4))
  moreover have "distinct (linked (leaders_table s) t)"
    using sound_storeD(2) [OF assms(1)] by (intro distinct_linked) (auto simp: schema_ok_def teams_ok_def links_ok_def)
  ultimately have "1 < length (linked (leaders_table s) t)"
    using assms(3) distinct_card by force
  from removals_race [OF assms(1,2) this, of u v] obtain s' where s': "request_step\<^sup>*\<^sup>*
        ([RemoveLeader_request_turns E t u, RemoveLeader_request_turns E t v], s)
        ([Ended (write_status ''removed''), Ended (write_status ''removed'')], s')"
    "org_of s' = spec_remove_leader t v (spec_remove_leader t u (org_of s))" .
  have "set (leaders_table s') = set (leaders_table s) - {(t, u), (t, v)}" "team_ids s' = team_ids s"
    using arg_cong [OF s'(2), of org_leaders] arg_cong [OF s'(2), of org_teams]
    by (auto simp: spec_remove_leader_def revoke_orphan_def)
  moreover have "t \<in> team_ids s"
    using sound_storeD(2) [OF assms(1)] assms(4) [of u] by (auto simp: schema_ok_def teams_ok_def links_ok_def)
  ultimately show "\<exists>s'. request_step\<^sup>*\<^sup>*
        ([RemoveLeader_request_turns E t u, RemoveLeader_request_turns E t v], s)
        ([Ended (write_status ''removed''), Ended (write_status ''removed'')], s') \<and>
      t \<in> team_ids s' \<and> (\<forall>w. (t, w) \<notin> set (leaders_table s'))"
    using s'(1) assms(4) by (intro exI [of _ s']) auto
next
  obtain r s1 r' s2 where runs: "run_state (AdminHandler_RemoveLeader E t u) s = (r, s1)"
    "run_state (AdminHandler_RemoveLeader E t v) s1 = (r', s2)"
    by (metis surjective_pairing)
  with removal_leaves_leader [OF assms(1,2) runs(1), of u] removal_leaves_leader [OF _ assms(2) runs(2)] assms(4)
  show "let (r, s1) = run_state (AdminHandler_RemoveLeader E t u) s;
      (r', s2) = run_state (AdminHandler_RemoveLeader E t v) s1
    in \<exists>w. (t, w) \<in> set (leaders_table s2)"
    by auto
qed

text \<open>The demonstration team after Alice has become its second leader.\<close>

theorem removals_race_leaderless_witness:
  "\<exists>s'. request_step\<^sup>*\<^sup>*
      ([RemoveLeader_request_turns demo_env ''t-eng'' ''u-carol'',
        RemoveLeader_request_turns demo_env ''t-eng'' ''u-alice''], two_leaders)
      ([Ended (write_status ''removed''), Ended (write_status ''removed'')], s') \<and>
    ''t-eng'' \<in> team_ids s' \<and> (\<forall>w. (''t-eng'', w) \<notin> set (leaders_table s'))"
  using removals_race_leaderless [of two_leaders demo_env "''u-carol''" "''u-alice''" "''t-eng''"]
    reachable_good [OF reachable_two_leaders]
  by (auto simp: good_store_def two_leaders_table)

section \<open>The process\<close>





end
