(* ===== verification/Spec2Isabelle.thy ===== *)
theory Spec2Isabelle
  imports Wiring Admin_Properties Report_Properties Platform_Properties Concurrent_Properties
begin

text \<open>
  The Go program \<open>contribution-tracker\<close>: a web service that shows who of a team contributed what on
  GitHub and GitLab. This theory composes the development and holds the properties that span its
  parts; the file names below are those under \<open>src/src/internal\<close>, unless they say otherwise.

  \<^bold>\<open>The program.\<close> A request passes the router and its middleware (\<open>presentation/router.go\<close>,
  \<open>middleware.go\<close>) to a handler (\<open>presentation/*_handler.go\<close>), which calls services
  (\<open>application/*_service.go\<close>) and repositories (\<open>infrastructure/persistence/pgx_*.go\<close>). The
  repositories run SQL statements on PostgreSQL, whose schema and demonstration data are the
  migrations (\<open>src/src/migrations\<close>). A report asks the platforms through fetchers
  (\<open>infrastructure/github\<close>, \<open>infrastructure/gitlab\<close>), one goroutine for each platform and token, and
  streams its events to the browser. \<open>src/src/cmd/api/main.go\<close> puts the parts together.

  \<^bold>\<open>The theories\<close>, each after those it uses:
  \<^item> \<open>Prelude\<close>: errors, results, loops with early return, Go's maps as association lists with an
    iteration order that is a parameter, invariants of stateful code (\<open>keeps\<close>), ordering.
  \<^item> \<open>Go_Strings\<close>, \<open>Go_Time\<close>, \<open>Go_Url\<close>, \<open>Base64\<close>: what the source uses of Go's packages \<open>strings\<close>,
    \<open>time\<close>, \<open>net/url\<close> and \<open>encoding/base64\<close>.
  \<^item> \<open>Domain\<close> (\<open>domain\<close>), \<open>Application\<close> (\<open>application/errors.go\<close>, \<open>dto.go\<close>, \<open>events.go\<close>): the data.
  \<^item> \<open>Database\<close>, \<open>Statements\<close>, \<open>Schema\<close>, \<open>Stores\<close>: the store, a table for each of the migrations' tables and a
    schedule of faults; each SQL statement as a function that returns the violated constraint or
    the changed store; transactions; the constraints; a locale for keyed tables.
  \<^item> \<open>Persistence\<close>, \<open>Persistence_Facts\<close> (\<open>infrastructure/persistence/pgx_*_repo.go\<close>): the repositories,
    what they read and keep.
  \<^item> \<open>Auth\<close>, \<open>Dto\<close>, \<open>Handlers\<close>, \<open>Admin\<close> (\<open>application/auth_service.go\<close>, \<open>presentation\<close>): login, tokens,
    middleware and handlers.
  \<^item> \<open>Organisation\<close>, \<open>Admin_Refinement\<close>, \<open>Admin_Steps\<close>: the abstract organisation (users, teams, members,
    leaders, roles) with its rules and operations, and the refinement of each by its handler.
  \<^item> \<open>Backup\<close>, \<open>Backup_Facts\<close> (\<open>pgx_backup_repo.go\<close>, \<open>backup_service.go\<close>): export and restore.
  \<^item> \<open>Fetching\<close>, \<open>Goroutines\<close>, \<open>Report\<close>, \<open>Report_Facts\<close>, \<open>Report_Effects\<close> (\<open>application/ports.go\<close>,
    \<open>registry.go\<close>, \<open>report_service.go\<close>): outcomes of calls that may panic or never return, the contract
    of a fetcher as a locale, the goroutines with their mutex as a step relation, and the report.
  \<^item> \<open>Streaming\<close>, \<open>Event_Channel\<close> (\<open>presentation/report_handler.go\<close>, \<open>sse.go\<close>, the reading loop of
    \<open>frontend/app.js\<close>): the bytes of the events and how they are read; the channel of 16 places
    between service and handler as a step relation.
  \<^item> \<open>Http_Client\<close>, \<open>GitHub\<close>, \<open>GitLab\<close>, \<open>Fetcher_Facts\<close>: clients, paging, fetchers, and their contract.
  \<^item> \<open>Router\<close>, \<open>Router_Facts\<close>, \<open>Access\<close>, \<open>Lifecycle\<close>: requests and routes; an invariant that the statements
    keep is kept by every request; who may do what; the stores the program reaches.
  \<^item> \<open>Ports\<close>, \<open>Services\<close>, \<open>Handler_Structs\<close> (\<open>application/ports.go\<close> and the structs of services, middleware and
    handlers): an interface is a record of its operations, a constructor fills a struct with such
    records, and a method reaches the store through them only; over the PostgreSQL adapters each is
    the operation of the theories above. What the authentication service relies on is a locale.
  \<^item> \<open>Static_Files\<close>, \<open>Frontend\<close> (\<open>presentation/static.go\<close>, \<open>frontend/app.js\<close>): the embedded files behind
    the file server; the frontend's periods, counts, escaping and colours.
  \<^item> \<open>Migrator\<close>, \<open>Startup\<close>, \<open>Answers\<close> (\<open>persistence/migrator.go\<close>, \<open>db.go\<close>, \<open>cmd/api/main.go\<close>): the migrations, the
    start, the composed program, and when its fetchers answer. \<open>Wiring\<close>: \<open>NewRouter\<close> and the second half
    of \<open>main\<close>, which pass every part to those that use it. \<open>Report_Period\<close>: the dates of a report
    from the frontend over the handler and the service to the fetchers. \<open>Report_Page\<close>: the report
    from the service to the page in the browser.
  \<^item> \<open>Seed\<close>, \<open>Instances\<close>: the demonstration data and the concrete instances on which properties run.
  \<^item> \<open>Interleaving\<close>, \<open>Concurrent_Admin\<close>, \<open>Concurrent_Requests\<close>: every request as a script of statements, which
    requests at the same time take turns with, from the middleware to the answer; rules of rely and
    guarantee; two races. Run alone, each script is the handler. \<open>Torn_Backup\<close>: an export that
    interleaves with the creation of a user.
  \<^item> \<open>Server\<close> (\<open>cmd/api/main.go\<close>): the process from listening over the signal and the five seconds of the
    shutdown to its exit, as a step relation over such scripts.
  \<^item> \<open>Admin_Properties\<close>, \<open>Report_Properties\<close>, \<open>Platform_Properties\<close>, \<open>Concurrent_Properties\<close>: the properties
    of single components, and of requests at the same time.

  \<^bold>\<open>Correspondence.\<close> Definitions have the names of the source, with the type in front where names
  repeat (\<open>TeamRepo_Save\<close>, \<open>AdminHandler_DeleteTeam\<close>, \<open>gh_fetchCommits\<close>, \<open>gl_fetchCommits\<close>). Code on the
  database is a state monad over the store; an error is \<open>Inl\<close>, and every early return is a branch.
  A request body is \<open>None\<close> when it is no JSON of its type. A response is a status with a body. Go's
  \<open>int\<close> appears as \<open>int\<close> or \<open>nat\<close>: it counts pages, rows and activities and holds the platforms'
  numbers, on which the program does no arithmetic.

  \<^bold>\<open>Parameters\<close>, for what is not in the repository: hashing, tokens and clock, texts of driver errors,
  Unicode upper case, the collation and the iteration order of maps (record \<open>env\<close>); the network
  (\<open>net\<close>) and the JSON decoders (\<open>gh_json\<close>, \<open>gl_json\<close>); the encoder of event data; pool library, files
  and the effect of a migration's text. What is assumed of them is named: \<open>jwt_law\<close> (a signed token
  parses under its key until it expires), \<open>iteration_ok\<close> (ranging over a map visits each entry
  once), \<open>healthy\<close> (the database answers), \<open>net_answers\<close> and \<open>web_urls_ok\<close> (the platforms answer).
  Random identifiers are arguments of the requests that draw them.

  \<^bold>\<open>What is shown.\<close> For requests: access control under any faults; the
  schema's constraints after any requests under any faults; the rules of the organisation in all
  reachable stores; refinement of the administrators' operations. For backups: the round trip and
  atomicity. For tokens: validity and roles, also when the store changes in between. For reports:
  who may see what, who is reported on, that streams end, that the schedule does not matter,
  mutual exclusion and absence of deadlock, grouping, counting, delivery over the channel and over
  the network, and which days they cover. For the composition: the program as it is put together
  from its ports is the model over the store. For the platforms: exactly when paging ends and what
  it yields, the contract of the fetchers. For requests at the same time: additions lose nothing,
  the schema holds in every interleaving and also when the process ends between two statements,
  and how it ends. Where the code fails, the failure is the theorem: a report empties tokens
  (C11), the last role stays (C21), accounts without roles cannot be restored
  (\<open>restore_refuses_no_roles\<close>) nor can a backup that interleaved with a new user
  (C22), times are shifted (\<open>activity_time_shifted\<close>), quarters begin and end a day
  early (C37), the last day of a period is left out (C38), a quote ends an attribute of the page
  (\<open>attribute_broken\<close>), two removals leave a team without a leader (C34) and an
  addition with a removal a leader who is no member (\<open>leader_race\<close>), a cut leaves a
  user without an account (\<open>half_created_user\<close>), paging may run forever (C35), an
  empty address panics (C40).

  \<^bold>\<open>Termination.\<close> No fuel is used. The page loop, which need not end, is a partial function whose value
  \<open>None\<close> is the run that never ends; \<open>paging_ends\<close> says when it does. Goroutines and channel have
  measures that every step decreases, which bound the number of steps.

  \<^bold>\<open>Not modelled.\<close> The text of JSON; the markup of the frontend and its calls
  of the browser, its scores (floating point) and a change of the browser's zone between two dates
  (summer time); conditional and range requests of the file server; the HTTP server's read and
  idle timeouts, path matching, \<open>Recoverer\<close> and \<open>RealIP\<close> of the router's
  library; cancellation of a request's context; log messages; JSON tags. C22, C32, C34 and C39
  take requests whose statements interleave, with a transaction as one turn; the other properties
  take requests one after the other. A commit that reports an error is taken as rolled back. The
  goroutines of a report touch only the shared slice, so the model starts them all before it lets
  them run. The statements of the first and third migration shape tables, and appear as the record
  \<open>db\<close> and its constraints.
\<close>

section \<open>Requests\<close>

text \<open>C1. Access control, whatever the database does during the request: logging in changes no
  table, and a request on any other route whose caller does not have the right of the route's
  group (a token that the library accepts, for an existing account; the role \<open>ADMIN\<close> in the token
  for administration; that role or the leadership of the team for the team routes) is answered
  with 400, 401, 403 or 404 and changes no table.\<close>

theorem access_control:
  assumes "run_state (serve E R h req) s = (r, s')"
  shows "(group_of req = Public \<longrightarrow> tables s' = tables s) \<and>
    (group_of req \<noteq> Public \<and> \<not> permitted E s h (group_of req) \<longrightarrow>
       status r \<in> {400, 401, 403, 404} \<and> tables s' = tables s)"
  using serve_refused [OF assms] serve_public [OF assms] by blast

theorem access_control_witness:
  "\<exists>r s'. run_state (serve demo_env demo_port ''Bearer token-alice'' (Req_DeleteTeam ''t-eng'')) seeded = (r, s') \<and>
    status r \<in> {400, 401, 403, 404} \<and> tables s' = tables seeded"
proof -
  obtain r s' where run: "run_state (serve demo_env demo_port ''Bearer token-alice'' (Req_DeleteTeam ''t-eng'')) seeded = (r, s')"
    by (metis surjective_pairing)
  moreover have "\<not> permitted demo_env seeded ''Bearer token-alice'' Admin_Only"
    by code_simp
  ultimately show ?thesis using access_control [OF run] by simp
qed



section \<open>Backups and tokens\<close>

text \<open>C3. Restoring an exported backup: on a store that satisfies the schema and in which every
  account has a role, an export succeeds, the exported backup can be restored into any store
  that the database answers for, and the result holds the exported data: the same rows in every
  table and the same roles of every account. The order of rows and roles is not kept.\<close>

theorem backup_roundtrip:
  assumes "healthy s" "schema_ok s" "iteration_ok (iter E)" "healthy s'"
    and "\<forall>a\<in>set (accounts_table s). ar_roles a \<noteq> []"
  shows "\<exists>b s''. run_state (BackupRepo_Export E) s = (Inr b, s) \<and>
    run_state (BackupRepo_Restore E b) s' = (Inr (), s'') \<and> same_data s s'' \<and> schema_ok s''"
  using export_restore [OF assms] schema_same_data assms(2) by blast

theorem backup_roundtrip_witness:
  "\<exists>b s''. run_state (BackupRepo_Export demo_env) seeded = (Inr b, seeded) \<and>
    run_state (BackupRepo_Restore demo_env b) (cleared seeded) = (Inr (), s'') \<and>
    same_data seeded s'' \<and> schema_ok s''"
  by (rule backup_roundtrip) (simp_all add: seeded_tables healthy_def cleared_def role_defs)

text \<open>C4. A restore is all or nothing: whatever the database does during it, a restore that
  reports an error has changed no table, and one that reports success has put the store into a
  state that satisfies the constraints of the schema.\<close>

theorem restore_all_or_nothing:
  assumes "run_state (BackupHandler_Restore E (Some b)) s = (r, s')" "schema_ok s"
  shows "(status r = 500 \<and> tables s' = tables s) \<or> (status r = 200 \<and> schema_ok s')"
proof (cases "run_state (BackupRepo_Restore E b) s")
  case (Pair res s1)
  then have "s' = s1" using assms(1) by (simp add: BackupHandler_Restore_def BackupService_Restore_def)
  show ?thesis
  proof (cases res)
    case (Inl e)
    with Pair have "tables s1 = tables s" by (simp add: restore_atomic)
    with Pair Inl assms(1) \<open>s' = s1\<close> show ?thesis
      by (auto simp: BackupHandler_Restore_def BackupService_Restore_def)
  next
    case (Inr u)
    have "schema_ok s1"
      using keeps_run [OF keeps_schema_restore assms(2) Pair] .
    with Pair Inr assms(1) \<open>s' = s1\<close> show ?thesis
      by (auto simp: BackupHandler_Restore_def BackupService_Restore_def)
  qed
qed

theorem restore_all_or_nothing_witness:
  "\<exists>r s'. run_state (BackupHandler_Restore demo_env (Some (backup_of demo_env seeded)))
      (seeded\<lparr>faults := [Proceed, Proceed, Fail ''connection reset'']\<rparr>) = (r, s') \<and>
    ((status r = 500 \<and> tables s' = tables (seeded\<lparr>faults := [Proceed, Proceed, Fail ''connection reset'']\<rparr>))
      \<or> (status r = 200 \<and> schema_ok s'))"
  using restore_all_or_nothing [of demo_env "backup_of demo_env seeded"
      "seeded\<lparr>faults := [Proceed, Proceed, Fail ''connection reset'']\<rparr>"]
  by (metis schema.faults_free schema_seeded surj_pair)

text \<open>C5. The life of a token. A token that \<open>Login\<close> issues for a stored account in a store \<open>s\<close> is accepted
  by \<open>Validate\<close> in any later store \<open>s'\<close> during the next 24 hours, as long as the account is still
  there, and otherwise refused with 401. The context it yields names the account, the user that the
  account has in \<open>s'\<close>, and exactly the roles that the account had when the token was issued, whatever
  has become of them since.\<close>

theorem login_then_validate:
  assumes "healthy s" "schema_ok s" "healthy s'" "schema_ok s'" "iteration_ok (iter E)" "jwt_law E"
    and "a \<in> set (accounts_table s)" "ar_id a \<noteq> []"
    and "run_state (AuthService_Login E (ar_username a) password) s = (Inr token, s)"
  shows "if t < now E + 24 * 60 * 60 \<and> ar_id a \<in> ar_id ` set (accounts_table s')
    then \<exists>ctx. run_state (AuthService_Validate (E\<lparr>now := t\<rparr>) (token_text token)) s' = (Inr ctx, s') \<and>
      ctx_account_id ctx = ar_id a \<and>
      (\<exists>a'\<in>set (accounts_table s'). ar_id a' = ar_id a \<and> ctx_user_id ctx = ar_user_id a') \<and>
      (\<forall>r. map_flag (ctx_roles ctx) r \<longleftrightarrow> r \<in> set (ar_roles a))
    else \<exists>err. run_state (AuthService_Validate (E\<lparr>now := t\<rparr>) (token_text token)) s' = (Inl err, s') \<and>
      app_code err = 401"
  by (rule stored_token_life [OF assms])

text \<open>An hour after the login of carol the token holds on the same data, and no longer once the account
  is gone.\<close>

theorem login_then_validate_witness:
  "(\<exists>ctx. run_state (AuthService_Validate (demo_env\<lparr>now := 3600\<rparr>) (token_text carol_token)) seeded = (Inr ctx, seeded) \<and>
      ctx_account_id ctx = ''a-carol'' \<and> ctx_user_id ctx = ''u-carol'' \<and>
      (\<forall>r. map_flag (ctx_roles ctx) r \<longleftrightarrow> r \<in> {RoleTeamMember, RoleTeamLeader})) \<and>
    (\<exists>err. run_state (AuthService_Validate (demo_env\<lparr>now := 3600\<rparr>) (token_text carol_token)) empty_store =
      (Inl err, empty_store) \<and> app_code err = 401)"
proof -
  have ok: "healthy empty_store" "schema_ok empty_store"
    by (simp_all add: healthy_def empty_store_def schema_ok_def schema_parts links_ok_def id_set_defs)
  have day: "3600 < now demo_env + 24 * 60 * 60" by simp
  have it: "iteration_ok (iter demo_env)" by simp
  have user: "ar_user_id a' = ''u-carol''" if "a' \<in> set (accounts_table seeded)" "ar_id a' = ''a-carol''" for a'
    using that by (auto simp: seeded_tables)
  have mem: "''a-carol'' \<in> ar_id ` set (accounts_table seeded)"
    using imageI [OF carol_facts(1), of ar_id] by (simp add: carol_facts)
  note life = login_then_validate [OF healthy_seeded schema_seeded _ _ it jwt_law_demo carol_facts(1) _
    carol_logs_in, where t = 3600, unfolded carol_facts(2,4)]
  have "\<exists>ctx. run_state (AuthService_Validate (demo_env\<lparr>now := 3600\<rparr>) (token_text carol_token)) seeded = (Inr ctx, seeded) \<and>
      ctx_account_id ctx = ''a-carol'' \<and>
      (\<exists>a'\<in>set (accounts_table seeded). ar_id a' = ''a-carol'' \<and> ctx_user_id ctx = ar_user_id a') \<and>
      (\<forall>r. map_flag (ctx_roles ctx) r \<longleftrightarrow> r \<in> {RoleTeamMember, RoleTeamLeader})"
    using life [OF healthy_seeded schema_seeded] day mem by (simp only: simp_thms if_True list.simps)
  moreover have "accounts_table empty_store = []" by (simp add: empty_store_def)
  then have "\<exists>err. run_state (AuthService_Validate (demo_env\<lparr>now := 3600\<rparr>) (token_text carol_token)) empty_store =
      (Inl err, empty_store) \<and> app_code err = 401"
    using life [OF ok] by (simp only: list.set image_empty empty_iff simp_thms if_False list.simps)
  ultimately show ?thesis using user by metis
qed

section \<open>Reports\<close>

text \<open>C6. What a report may show: a caller who is no administrator and does not lead the team gets no
  report but the caller's own, whichever member was asked for and whatever the database and the
  platforms do.\<close>

theorem report_scope:
  assumes "run_state (GenerateReport E reg scheds q) s = ((evs, e), s')"
    and "UserReportEvent report \<in> set evs"
    and "\<not> map_flag (query_caller_roles q) RoleAdmin"
    and "(query_team_id q, query_caller_id q) \<notin> set (leaders_table s)"
  shows "user_id (report_user report) = query_caller_id q"
  by (rule GenerateReport_scope [OF assms])

theorem report_scope_witness:
  "\<exists>report evs e s'. demo_report ''u-alice'' = ((evs, e), s') \<and> UserReportEvent report \<in> set evs \<and>
    user_id (report_user report) = ''u-alice''"
proof -
  obtain reports s' where r: "demo_report ''u-alice'' = ((map UserReportEvent reports @ [ReportCompleteEvent], Closed), s')"
    "map (\<lambda>r. user_id (report_user r)) reports = [''u-alice'']"
    by (rule demo_reports [of "''u-alice''"]) simp
  then obtain report where "reports = [report]" by auto
  with r(1) have run: "demo_report ''u-alice'' = (([UserReportEvent report, ReportCompleteEvent], Closed), s')" by simp
  then have "user_id (report_user report) = query_caller_id (demo_query ''u-alice'' [(RoleTeamMember, True)])"
    unfolding demo_report_def
    by (rule report_scope) (simp_all add: demo_query_def map_flag_def role_defs seeded_tables)
  with run show ?thesis by (auto simp: demo_query_def)
qed

text \<open>C7. A report ends: when nothing that the platforms are asked panics or hangs, the stream is
  closed, whatever the database does and however the goroutines are scheduled, and its events are
  reports followed by the completion event, or one error.\<close>

theorem report_ends:
  assumes "registry_answers reg" "run_state (GenerateReport E reg scheds q) s = ((evs, e), s')"
  shows "e = Closed \<and> ((\<exists>reports. evs = map UserReportEvent reports @ [ReportCompleteEvent]) \<or>
    (\<exists>msg. evs = [ReportErrorEvent msg]))"
  by (rule GenerateReport_answers [OF assms])

theorem report_ends_witness:
  "snd (fst (demo_report ''u-carol'')) = Closed"
proof -
  obtain evs e s' where run: "demo_report ''u-carol'' = ((evs, e), s')" by (metis surj_pair)
  then have "e = Closed"
    using report_ends [OF demo_registry_answers run [unfolded demo_report_def]] by blast
  with run show ?thesis by simp
qed

text \<open>C8. The program's own fetchers answer: if every request to a platform comes back, the pages of
  every listing end, and no issue or merge request of GitLab has a web address without a path,
  then every report of the composed program ends.\<close>

theorem program_report_ends:
  assumes "net_answers N" "web_urls_ok N JL"
    and "run_state (GenerateReport E (program_registry getenv N JH JL it) scheds q) s = ((evs, e), s')"
  shows "e = Closed"
  using GenerateReport_answers [OF program_answers [OF assms(1,2)] assms(3)] by simp

theorem program_report_ends_witness:
  "snd (fst (run_state (GenerateReport demo_env (program_registry (\<lambda>key. []) demo_net demo_gh_json demo_gl_json
     (\<lambda>n. [0..<n])) (\<lambda>n. [1, 0]) (demo_query ''u-bob'' [])) tokened)) = Closed"
proof -
  obtain evs e s' where run: "run_state (GenerateReport demo_env (program_registry (\<lambda>key. []) demo_net demo_gh_json
     demo_gl_json (\<lambda>n. [0..<n])) (\<lambda>n. [1, 0]) (demo_query ''u-bob'' [])) tokened = ((evs, e), s')"
    by (metis surj_pair)
  then have "e = Closed"
    by (rule program_report_ends [OF demo_net_answers, rotated]) (simp add: web_urls_ok_def demo_gl_json_def)
  with run show ?thesis by simp
qed

text \<open>C9. Who is reported on: from a database that answers and platforms that answer, the report of a
  team is one report for each user that the caller may ask about (only the caller; or the member
  asked for; or all members), and then the completion event.\<close>

theorem report_members:
  assumes "registry_answers reg" "healthy s" "by_key tr_id (query_team_id q) (teams_table s) = [t]"
  shows "\<exists>reports s'. run_state (GenerateReport E reg scheds q) s =
      ((map UserReportEvent reports @ [ReportCompleteEvent], Closed), s') \<and>
    map report_user reports =
      map (user_view s) (filter (\<lambda>r. ur_id r \<in> set (report_member_ids q (team_view s t))) (users_table s))"
  by (rule GenerateReport_reports [OF assms])

theorem report_members_witness:
  "\<exists>reports s'. run_state (GenerateReport demo_env demo_registry (\<lambda>n. [])
      (demo_query ''u-carol'' [(RoleTeamMember, True)])) tokened =
      ((map UserReportEvent reports @ [ReportCompleteEvent], Closed), s')"
  using report_members [OF demo_registry_answers tokened_simps(8) demo_team] by blast

text \<open>C10. The schedule does not matter: two runs of a member's report that differ only in the
  interleaving of the goroutines return together, leave the same store, and their reports are about
  the same user, with the same activities up to their order and the same counts.\<close>

theorem report_schedule_independent:
  assumes "iteration_ok (iter E)"
    and "run_state (fetchMemberReport E reg sched member gs q) s = (Returned r1, s1)"
    and "run_state (fetchMemberReport E reg sched' member gs q) s = (out, s2)"
  shows "\<exists>r2. out = Returned r2 \<and> s2 = s1 \<and> report_user r2 = report_user r1 \<and>
    mset (report_activities r2) = mset (report_activities r1) \<and> set (report_counts r2) = set (report_counts r1)"
  by (rule fetchMemberReport_schedules [OF assms])

theorem report_schedule_independent_witness:
  "\<exists>r1 s1 r2. run_state (fetchMemberReport demo_env demo_registry [] demo_user demo_groups
      (demo_query ''u-alice'' [])) tokened = (Returned r1, s1) \<and>
    run_state (fetchMemberReport demo_env demo_registry [1, 0, 1, 0, 1, 0, 1, 0] demo_user demo_groups
      (demo_query ''u-alice'' [])) tokened = (Returned r2, s1) \<and>
    mset (report_activities r2) = mset (report_activities r1)"
proof -
  obtain r1 s1 where one: "run_state (fetchMemberReport demo_env demo_registry [] demo_user demo_groups
      (demo_query ''u-alice'' [])) tokened = (Returned r1, s1)"
    using fetchMemberReport_answers [OF demo_registry_answers] by blast
  obtain out s2 where two: "run_state (fetchMemberReport demo_env demo_registry [1, 0, 1, 0, 1, 0, 1, 0] demo_user
      demo_groups (demo_query ''u-alice'' [])) tokened = (out, s2)"
    by (metis surj_pair)
  from report_schedule_independent [OF _ one two] one two show ?thesis by auto
qed

text \<open>C11. A report loses tokens: take a GitHub repository \<open>x\<close> of the team with a token, and a report
  of the team that reports on a user for whom GitHub, asked with this token, lists the repository.
  Then the report has emptied the stored token, since what is discovered carries none and \<open>Upsert\<close>
  overwrites; the next report skips the repository.\<close>

theorem report_loses_token:
  assumes "healthy s" "iteration_ok (iter E)"
    and "by_key tr_id (query_team_id q) (teams_table s) = [t]"
    and "(tr_id t, rr_id x) \<in> set (team_repos_table s)" "x \<in> set (repos_table s)"
    and "rr_platform x = ''GITHUB''" "rr_api_token x \<noteq> []"
    and "\<forall>y\<in>set (repos_table s). char_of (0 :: nat) \<notin> set (rr_platform y)"
    and "run_state (GenerateReport E (program_registry getenv N JH JL it) scheds q) s = ((evs, e), s')"
    and "UserReportEvent report \<in> set evs"
    and "gh_DiscoverUserRepos N JH
        (NewApiClient (envOrDefault getenv ''GITHUB_BASE_URL'' ''https://api.github.com'') (rr_api_token x))
        (GetPlatformUsername (report_user report) PlatformGitHub) = Returned (Inr ds)"
    and "d \<in> set ds" "repo_full_name d = rr_full_name x"
  shows "\<forall>y\<in>set (repos_table s'). rr_key y = rr_key x \<longrightarrow> rr_api_token y = []"
proof -
  let ?f = "gh_Build N JH it (envOrDefault getenv ''GITHUB_BASE_URL'' ''https://api.github.com'') (rr_api_token x)"
  have p: "\<lparr>platform_name = rr_platform x\<rparr> = PlatformGitHub"
    using assms(6) by (simp add: PlatformGitHub_def)
  have build: "registry_Build (program_registry getenv N JH JL it) \<lparr>platform_name = rr_platform x\<rparr> (rr_api_token x) = Inr ?f"
    unfolding p by (simp add: program_registry_def Let_def Build_Register PlatformGitHub_def PlatformGitLab_def)
  have discover: "f_discover ?f = Some (gh_DiscoverUserRepos N JH
      (NewApiClient (envOrDefault getenv ''GITHUB_BASE_URL'' ''https://api.github.com'') (rr_api_token x)))"
    by (simp add: gh_Build_def gh_NewActivityFetcher_def)
  have key: "rr_key (row_of_repo d) = rr_key x"
    using gh_discovered [OF assms(11,12)] assms(6,13)
    by (simp add: row_of_repo_def PlatformGitHub_def)
  from GenerateReport_loses_token [OF assms(1,2) program_discovers_tokenless assms(3-5,7-10) build discover _ assms(12) key]
  show ?thesis using assms(11) unfolding p .
qed

theorem report_loses_token_witness:
  "\<exists>evs e s'. run_state (GenerateReport demo_env demo_registry (\<lambda>n. [])
      (demo_query ''u-carol'' [(RoleTeamMember, True)])) tokened = ((evs, e), s') \<and>
    (\<forall>y\<in>set (repos_table s'). rr_full_name y = ''myorg/contribution-tracker'' \<and> rr_platform y = ''GITHUB'' \<longrightarrow>
       rr_api_token y = [])"
proof -
  obtain reports s' where r: "demo_report ''u-carol'' = ((map UserReportEvent reports @ [ReportCompleteEvent], Closed), s')"
    "map (\<lambda>r. user_id (report_user r)) reports = [''u-alice'', ''u-bob'', ''u-carol'']"
    by (rule demo_reports [of "''u-carol''"]) simp
  then obtain report where "report \<in> set reports" by (cases reports) auto
  then have mem: "UserReportEvent report \<in> set (map UserReportEvent reports @ [ReportCompleteEvent])" by simp
  let ?x = "\<lparr>rr_id = ''r-ct'', rr_name = ''contribution-tracker'', rr_full_name = ''myorg/contribution-tracker'',
    rr_url = ''https://github.com/myorg/contribution-tracker'', rr_platform = ''GITHUB'', rr_api_token = ''ghp_1''\<rparr>"
  let ?d = "gh_repo_of \<lparr>ghrepo_id = 17, ghrepo_name = ''contribution-tracker'',
    ghrepo_full_name = ''myorg/contribution-tracker'',
    ghrepo_html_url = ''https://github.com/myorg/contribution-tracker''\<rparr>"
  have found: "gh_DiscoverUserRepos demo_net demo_gh_json
      (NewApiClient (envOrDefault (\<lambda>key. []) ''GITHUB_BASE_URL'' ''https://api.github.com'') ''ghp_1'') u =
    Returned (Inr [?d])" for u
    by (simp add: gh_DiscoverUserRepos_def Let_def gh_GetAll_def full_url_def NewApiClient_def TrimRight_def
        HasPrefix_iff envOrDefault_def demo_pages unmarshal_def demo_gh_json_def)
  have run: "run_state (GenerateReport demo_env (program_registry (\<lambda>key. []) demo_net demo_gh_json demo_gl_json
      (\<lambda>n. [0..<n])) (\<lambda>n. []) (demo_query ''u-carol'' [(RoleTeamMember, True)])) tokened =
      ((map UserReportEvent reports @ [ReportCompleteEvent], Closed), s')"
    using r(1) unfolding demo_report_def demo_registry_def .
  have "\<forall>y\<in>set (repos_table s'). rr_key y = rr_key ?x \<longrightarrow> rr_api_token y = []"
    by (rule report_loses_token [OF _ _ demo_team _ _ _ _ _ run mem, where x = ?x and ds = "[?d]" and d = ?d])
      (simp_all add: found tokened_def seeded_tables gh_repo_of_def char_of_eq_iff healthy_def)
  with run show ?thesis
    unfolding demo_registry_def by auto
qed

section \<open>The store\<close>



end
